theory Spec2Isabelle
  imports Complex_Main "HOL-Library.Multiset" "HOL-Library.AList"
begin

section \<open>JavaScript numbers\<close>

text \<open>
  A value of the type \<open>number\<close>: a finite number, \<open>NaN\<close>, \<open>Infinity\<close> or \<open>-Infinity\<close>.
  Finite numbers are reals and their arithmetic is exact. A double operation rounds its
  result; it is exact whenever the result is an integer of magnitude up to \<open>2^53\<close>,
  which is where the theorems below use it. \<open>-0\<close> is not told apart from \<open>0\<close>; none of
  the operations below tells them apart either.
\<close>

datatype number = Num real | NaN | Infinity | NegInfinity

text \<open>\<open>x - y\<close>.\<close>

fun num_sub :: "number \<Rightarrow> number \<Rightarrow> number" where
  "num_sub NaN y = NaN"
| "num_sub x NaN = NaN"
| "num_sub (Num a) (Num b) = Num (a - b)"
| "num_sub (Num a) Infinity = NegInfinity"
| "num_sub (Num a) NegInfinity = Infinity"
| "num_sub Infinity Infinity = NaN"
| "num_sub Infinity y = Infinity"
| "num_sub NegInfinity NegInfinity = NaN"
| "num_sub NegInfinity y = NegInfinity"

text \<open>\<open>x < y\<close> and \<open>x >= y\<close>: every comparison with \<open>NaN\<close> is false.\<close>

fun num_lt :: "number \<Rightarrow> number \<Rightarrow> bool" where
  "num_lt NaN y = False"
| "num_lt x NaN = False"
| "num_lt (Num a) (Num b) = (a < b)"
| "num_lt x NegInfinity = False"
| "num_lt Infinity y = False"
| "num_lt x Infinity = True"
| "num_lt NegInfinity y = True"

definition num_ge :: "number \<Rightarrow> number \<Rightarrow> bool" where
  "num_ge x y = (x \<noteq> NaN \<and> y \<noteq> NaN \<and> \<not> num_lt x y)"

text \<open>\<open>Math.max(x, y)\<close>, which is \<open>NaN\<close> as soon as one argument is.\<close>

definition Math_max :: "number \<Rightarrow> number \<Rightarrow> number" where
  "Math_max x y = (if x = NaN \<or> y = NaN then NaN else if num_lt x y then y else x)"

text \<open>
  How often the body of \<open>for (let i = 0; i < x; i++)\<close> runs when nothing inside stops
  it: the least integer \<open>i \<ge> 0\<close> with \<open>\<not> i < x\<close>, which is none for \<open>NaN\<close> and for
  anything below \<open>0\<close>. For \<open>Infinity\<close> there is no such bound (\<open>None\<close>).
\<close>

fun iterations :: "number \<Rightarrow> nat option" where
  "iterations (Num a) = Some (nat \<lceil>a\<rceil>)"
| "iterations NaN = Some 0"
| "iterations NegInfinity = Some 0"
| "iterations Infinity = None"


section \<open>Errors\<close>

text \<open>
  A thrown JavaScript exception is a value. \<open>Error msg\<close> is \<open>new Error(msg)\<close>;
  \<open>TypeError msg\<close> is either \<open>new TypeError(msg)\<close> or the exception the runtime raises
  when a property of \<open>null\<close> is read or written. The helper \<open>validate\<close> throws
  \<open>new (ErrorClass || Error)(errorMessage + ": " + issues)\<close>; the model keeps
  \<open>errorMessage\<close> and leaves out the issue texts that zod appends.
\<close>

datatype error = Error string | TypeError string


section \<open>The track queue (\<open>LilyQueue\<close>)\<close>

text \<open>
  \<open>QueueNode\<close> objects live in an object store: a reference to a node is its index in
  \<open>store\<close>, \<open>null\<close> is \<open>None\<close>, and \<open>new QueueNode(track)\<close> appends to the store.
  The element type \<open>'t\<close> is the reference to a \<open>LilyTrack\<close> object: the JavaScript
  \<open>Set<LilyTrack>\<close> compares its members by reference, which is equality on \<open>'t\<close>.
\<close>

record 't QueueNode =
  node_value :: 't
  node_prev :: "nat option"
  node_next :: "nat option"

record 't LilyQueue =
  store :: "'t QueueNode list"
  tracks :: "'t set"
  head :: "nat option"
  tail :: "nat option"
  nodeCount :: int
  startIndex :: number

text \<open>
  The constructor: \<open>this.startIndex = Math.max(0, queueStartIndex)\<close>. The queue of
  \<open>src/models/queue.ts\<close> has no \<open>startIndex\<close>; its methods are the ones named
  \<open>_plain\<close> below where they differ, and they do not read the field.
\<close>

definition LilyQueue_new :: "number \<Rightarrow> 't LilyQueue" where
  "LilyQueue_new queueStartIndex =
     \<lparr>store = [], tracks = {}, head = None, tail = None, nodeCount = 0,
      startIndex = Math_max (Num 0) queueStartIndex\<rparr>"

definition setStartIndex :: "number \<Rightarrow> 't LilyQueue \<Rightarrow> 't LilyQueue" where
  "setStartIndex index q = q\<lparr>startIndex := Math_max (Num 0) index\<rparr>"

definition getStartIndex :: "'t LilyQueue \<Rightarrow> number" where
  "getStartIndex q = startIndex q"

text \<open>
  \<open>add\<close>: the body runs inside \<open>try\<close>; writing \<open>this.tail!.next\<close> while \<open>tail\<close> is
  \<open>null\<close> throws, and the \<open>catch\<close> returns \<open>false\<close> with the fresh node left unlinked.
\<close>

definition add :: "'t \<Rightarrow> 't LilyQueue \<Rightarrow> bool \<times> 't LilyQueue" where
  "add track q =
     (let a = length (store q);
          node = \<lparr>node_value = track, node_prev = None, node_next = None\<rparr>
      in case head q of
           Some h \<Rightarrow>
             (case tail q of
                None \<Rightarrow> (False, q\<lparr>store := store q @ [node]\<rparr>)
              | Some t \<Rightarrow>
                 (True,
                  q\<lparr>store := (store q @ [node\<lparr>node_prev := Some t\<rparr>])
                                [t := (store q ! t)\<lparr>node_next := Some a\<rparr>],
                    tail := Some a,
                    tracks := insert track (tracks q),
                    nodeCount := nodeCount q + 1\<rparr>))
         | None \<Rightarrow>
             (True,
              q\<lparr>store := store q @ [node], head := Some a, tail := Some a,
                tracks := insert track (tracks q),
                nodeCount := nodeCount q + 1\<rparr>))"

text \<open>
  The loop \<open>for (let i = 0; i < adjustedPosition; i++) current = current!.next\<close>:
  \<open>advance st current n\<close> follows \<open>next\<close> \<open>n\<close> times; reading \<open>next\<close> of \<open>null\<close> throws.
\<close>

fun advance :: "'t QueueNode list \<Rightarrow> nat option \<Rightarrow> nat \<Rightarrow> error + nat option" where
  "advance st current 0 = Inr current"
| "advance st current (Suc n) =
     (case current of
        None \<Rightarrow> Inl (TypeError ''Cannot read properties of null'')
      | Some a \<Rightarrow> advance st (node_next (st ! a)) n)"

text \<open>
  \<open>get(position: number)\<close> of the queue with a start index. Nothing checks that
  \<open>position\<close> is an integer: for \<open>NaN\<close> both comparisons of the guard are false and the
  loop does not run; a fraction past the guard makes the loop run once more than its
  integer part. \<open>return current!.value\<close> throws when \<open>current\<close> is \<open>null\<close>. An
  \<open>adjustedPosition\<close> of \<open>Infinity\<close> does not get past the guard
  (\<open>iterations_guarded\<close> below); written out, the loop then walks off the chain.
\<close>

definition get :: "number \<Rightarrow> 't LilyQueue \<Rightarrow> error + 't" where
  "get position q =
     (let adjustedPosition = num_sub position (startIndex q)
      in if num_lt adjustedPosition (Num 0)
            \<or> num_ge adjustedPosition (Num (of_int (nodeCount q)))
         then Inl (Error ''Position out of bounds'')
         else (case iterations adjustedPosition of
                 None \<Rightarrow> Inl (TypeError ''Cannot read properties of null'')
               | Some n \<Rightarrow>
                   (case advance (store q) (head q) n of
                      Inl e \<Rightarrow> Inl e
                    | Inr None \<Rightarrow> Inl (TypeError ''Cannot read properties of null'')
                    | Inr (Some a) \<Rightarrow> Inr (node_value (store q ! a)))))"

text \<open>
  The variant of \<open>src/models/queue.ts\<close> has no start index: it checks and walks
  \<open>position\<close> itself.
\<close>

definition get_plain :: "number \<Rightarrow> 't LilyQueue \<Rightarrow> error + 't" where
  "get_plain position q =
     (if num_lt position (Num 0) \<or> num_ge position (Num (of_int (nodeCount q)))
      then Inl (Error ''Position out of bounds'')
      else (case iterations position of
              None \<Rightarrow> Inl (TypeError ''Cannot read properties of null'')
            | Some n \<Rightarrow>
                (case advance (store q) (head q) n of
                   Inl e \<Rightarrow> Inl e
                 | Inr None \<Rightarrow> Inl (TypeError ''Cannot read properties of null'')
                 | Inr (Some a) \<Rightarrow> Inr (node_value (store q ! a)))))"

definition has :: "'t \<Rightarrow> 't LilyQueue \<Rightarrow> bool" where
  "has track q = (track \<in> tracks q)"

definition shift :: "'t LilyQueue \<Rightarrow> (error + 't) \<times> 't LilyQueue" where
  "shift q =
     (case head q of
        None \<Rightarrow> (Inl (Error ''Queue is empty''), q)
      | Some h \<Rightarrow>
          (let track = node_value (store q ! h);
               q1 = q\<lparr>head := node_next (store q ! h)\<rparr>;
               q2 = (case head q1 of
                       Some h' \<Rightarrow>
                         q1\<lparr>store := (store q1)[h' := (store q1 ! h')\<lparr>node_prev := None\<rparr>]\<rparr>
                     | None \<Rightarrow> q1\<lparr>tail := None\<rparr>)
           in (Inr track,
               q2\<lparr>tracks := tracks q2 - {track}, nodeCount := nodeCount q2 - 1\<rparr>)))"

definition clear :: "'t LilyQueue \<Rightarrow> bool \<times> 't LilyQueue" where
  "clear q = (True, q\<lparr>tracks := {}, head := None, tail := None, nodeCount := 0\<rparr>)"

definition queue_size :: "'t LilyQueue \<Rightarrow> int" where
  "queue_size q = nodeCount q"

text \<open>
  The loop \<open>while (current) { positions.push(current); current = current.next; }\<close>
  has no bound of its own: on a cyclic chain it never ends, which is the value \<open>None\<close>.
\<close>

partial_function (option) positions :: "'t QueueNode list \<Rightarrow> nat option \<Rightarrow> nat list option" where
  "positions st current =
     (case current of
        None \<Rightarrow> Some []
      | Some a \<Rightarrow> Option.bind (positions st (node_next (st ! a))) (\<lambda>r. Some (a # r)))"

declare positions.simps [code]

text \<open>
  \<open>values()\<close> of \<open>src/models/queue.ts\<close> walks the same chain from \<open>head\<close> and
  yields \<open>current.value\<close> of every node it meets: the tracks the queue holds, in the
  order of the links.
\<close>

definition "values" :: "'t LilyQueue \<Rightarrow> 't list option" where
  "values q =
     map_option (map (\<lambda>a. node_value (store q ! a))) (positions (store q) (head q))"

text \<open>
  \<open>values()\<close> of the queue with a start index yields \<open>{ ...current.value }\<close>: for every
  node a new object with the fields of the stored track. \<open>deref\<close> reads the fields of
  the object a track reference points to; a new object is given by its fields.
\<close>

definition values_spread :: "('t \<Rightarrow> 'o) \<Rightarrow> 't LilyQueue \<Rightarrow> 'o list option" where
  "values_spread deref q =
     map_option (map (\<lambda>a. deref (node_value (store q ! a)))) (positions (store q) (head q))"

text \<open>
  The exchange of two node contents:
  \<open>temp = positions[i].value; positions[i].value = positions[j].value;
  positions[j].value = temp\<close>.
\<close>

definition swap_values :: "nat \<Rightarrow> nat \<Rightarrow> 't QueueNode list \<Rightarrow> 't QueueNode list" where
  "swap_values a b st =
     (let temp = node_value (st ! a);
          st1 = st[a := (st ! a)\<lparr>node_value := node_value (st ! b)\<rparr>]
      in st1[b := (st1 ! b)\<lparr>node_value := temp\<rparr>])"

text \<open>
  The Fisher-Yates loop \<open>for (let i = positions.length - 1; i > 0; i--)\<close>. The draw
  \<open>Math.floor(Math.random() * (i + 1))\<close> is an integer between \<open>0\<close> and \<open>i\<close>; the
  source of randomness is the function \<open>rnd\<close>, whose value at \<open>i\<close> is reduced into that
  range.
\<close>

fun shuffle_loop ::
  "(nat \<Rightarrow> nat) \<Rightarrow> nat list \<Rightarrow> nat \<Rightarrow> 't QueueNode list \<Rightarrow> 't QueueNode list" where
  "shuffle_loop rnd ps 0 st = st"
| "shuffle_loop rnd ps (Suc k) st =
     (let i = Suc k;
          j = rnd i mod (i + 1)
      in shuffle_loop rnd ps k
           (if i \<noteq> j then swap_values (ps ! i) (ps ! j) st else st))"

text \<open>\<open>shuffle\<close> of the queue with a start index: fewer than two entries throw.\<close>

definition shuffle ::
  "(nat \<Rightarrow> nat) \<Rightarrow> 't LilyQueue \<Rightarrow> ((error + bool) \<times> 't LilyQueue) option" where
  "shuffle rnd q =
     (if nodeCount q < 2
      then Some (Inl (Error ''There must be at least 2 songs in queue!''), q)
      else Option.bind (positions (store q) (head q))
             (\<lambda>ps. Some (Inr True,
                          q\<lparr>store := shuffle_loop rnd ps (length ps - 1) (store q)\<rparr>)))"

text \<open>\<open>shuffle\<close> of \<open>src/models/queue.ts\<close>: fewer than two entries return \<open>true\<close>.\<close>

definition shuffle_plain ::
  "(nat \<Rightarrow> nat) \<Rightarrow> 't LilyQueue \<Rightarrow> (bool \<times> 't LilyQueue) option" where
  "shuffle_plain rnd q =
     (if nodeCount q \<le> 1
      then Some (True, q)
      else Option.bind (positions (store q) (head q))
             (\<lambda>ps. Some (True,
                          q\<lparr>store := shuffle_loop rnd ps (length ps - 1) (store q)\<rparr>)))"

text \<open>
  Well-formed queues. \<open>dll st p current as\<close>: the chain that starts at \<open>current\<close> visits
  exactly the nodes \<open>as\<close> and ends in \<open>null\<close>, every node's \<open>prev\<close> being its predecessor
  (\<open>p\<close> for the first).
\<close>

fun dll :: "'t QueueNode list \<Rightarrow> nat option \<Rightarrow> nat option \<Rightarrow> nat list \<Rightarrow> bool" where
  "dll st p current [] = (current = None)"
| "dll st p current (a # as) =
     (current = Some a \<and> a < length st \<and> node_prev (st ! a) = p
      \<and> dll st (Some a) (node_next (st ! a)) as)"

definition wf_queue :: "'t LilyQueue \<Rightarrow> nat list \<Rightarrow> bool" where
  "wf_queue q as =
     (dll (store q) None (head q) as \<and> distinct as
      \<and> tail q = (if as = [] then None else Some (last as))
      \<and> nodeCount q = int (length as))"

definition queue_inv :: "'t LilyQueue \<Rightarrow> bool" where
  "queue_inv q = (\<exists>as. wf_queue q as)"


section \<open>The cache adapters (\<open>CacheAdapter\<close> and its subclasses)\<close>

text \<open>
  Cached values are JavaScript values; what \<open>revalidate\<close> looks at is their truthiness
  (\<open>if (existing && ...)\<close>). \<open>JUndefined\<close> is \<open>undefined\<close>, the result of a miss; \<open>JObj\<close>
  is a reference to an object.
\<close>

datatype jsval = JUndefined | JNull | JBool bool | JNum number | JStr string | JObj nat

fun truthy :: "jsval \<Rightarrow> bool" where
  "truthy JUndefined = False"
| "truthy JNull = False"
| "truthy (JBool b) = b"
| "truthy (JNum n) = (n \<noteq> NaN \<and> n \<noteq> Num 0)"
| "truthy (JStr s) = (s \<noteq> [])"
| "truthy (JObj r) = True"

text \<open>Times and durations are whole milliseconds, as \<open>Date.now()\<close> gives them.\<close>

record CacheOptions =
  opt_ttl :: "int option"
  opt_revalidate :: "bool option"

record CacheEntry =
  entry_value :: jsval
  expires :: "int option"
  createdAt :: int

datatype cache_event =
  CacheInitialized | CacheExpired string | CacheSet string jsval | CacheDelete string
  | CacheClear

text \<open>
  The private fields of the five subclasses of \<open>CacheAdapter\<close>. A \<open>Map\<close> is an
  association list in insertion order, and so is the \<open>Record\<close> of the \<open>ObjectAdapter\<close>,
  whose order no modelled method reads.

  \<^item> \<open>MapAdapter\<close>: \<open>cache: Map<string, CacheEntry>\<close>.
  \<^item> \<open>WeakMapAdapter\<close>: \<open>cache: WeakMap<object, CacheEntry>\<close> and \<open>Keys: Set<object>\<close>.
    A key object \<open>{ key }\<close> is a reference (a number) together with its \<open>key\<close>; \<open>Keys\<close>
    lists the key objects in insertion order, and the third field counts the key
    objects created so far, which is the reference of the next one.
  \<^item> \<open>SetAdapter\<close>: \<open>cache: Set<CacheEntry>\<close> and \<open>Keys: Map<string, CacheEntry>\<close>. The
    set holds entry objects, each added once, and only its size is ever read: it is a
    multiset of entries.
  \<^item> \<open>ArrayAdapter\<close>: \<open>cache: CacheEntry[]\<close> and \<open>Keys: Map<string, number>\<close>. A slot of
    the array that was never written reads as \<open>undefined\<close> (\<open>None\<close>).
  \<^item> \<open>ObjectAdapter\<close>: \<open>cache: Record<string, CacheEntry>\<close>, made by
    \<open>Object.create(null)\<close>.
\<close>

datatype backend =
    MapAdapter "(string \<times> CacheEntry) list"
  | WeakMapAdapter "(nat \<times> CacheEntry) list" "(nat \<times> string) list" nat
  | SetAdapter "CacheEntry multiset" "(string \<times> CacheEntry) list"
  | ArrayAdapter "CacheEntry option list" "(string \<times> nat) list"
  | ObjectAdapter "(string \<times> CacheEntry) list"

text \<open>
  A cache adapter: the \<open>options\<close> of the base class, the fields of its subclass, and the
  events it has emitted so far, oldest first. Every read of \<open>Date.now()\<close> is an argument
  of the operation that makes it.
\<close>

record CacheAdapter =
  options :: CacheOptions
  backend :: backend
  emitted :: "cache_event list"

text \<open>
  The constructors: \<open>ttl: options.ttl, revalidate: options.revalidate ?? false\<close> in the
  base class, and empty containers.
\<close>

definition CacheAdapter_new :: "CacheOptions \<Rightarrow> backend \<Rightarrow> CacheAdapter" where
  "CacheAdapter_new opts b =
     \<lparr>options = \<lparr>opt_ttl = opt_ttl opts,
                  opt_revalidate = Some (case opt_revalidate opts of None \<Rightarrow> False | Some b \<Rightarrow> b)\<rparr>,
      backend = b, emitted = []\<rparr>"

definition MapAdapter_new :: "CacheOptions \<Rightarrow> CacheAdapter" where
  "MapAdapter_new opts = CacheAdapter_new opts (MapAdapter [])"

definition WeakMapAdapter_new :: "CacheOptions \<Rightarrow> CacheAdapter" where
  "WeakMapAdapter_new opts = CacheAdapter_new opts (WeakMapAdapter [] [] 0)"

definition SetAdapter_new :: "CacheOptions \<Rightarrow> CacheAdapter" where
  "SetAdapter_new opts = CacheAdapter_new opts (SetAdapter {#} [])"

definition ArrayAdapter_new :: "CacheOptions \<Rightarrow> CacheAdapter" where
  "ArrayAdapter_new opts = CacheAdapter_new opts (ArrayAdapter [] [])"

definition ObjectAdapter_new :: "CacheOptions \<Rightarrow> CacheAdapter" where
  "ObjectAdapter_new opts = CacheAdapter_new opts (ObjectAdapter [])"

text \<open>\<open>if (!entry.expires) return false; return Date.now() > entry.expires\<close>.\<close>

definition isExpired :: "int \<Rightarrow> CacheEntry \<Rightarrow> bool" where
  "isExpired now entry =
     (case expires entry of
        None \<Rightarrow> False
      | Some e \<Rightarrow> if e = 0 then False else now > e)"

text \<open>
  \<open>ttl = options?.ttl ?? this.options.ttl\<close> and
  \<open>expires: ttl ? Date.now() + ttl : undefined, createdAt: Date.now()\<close>: a \<open>ttl\<close> of \<open>0\<close>
  is falsy. \<open>now\<close> is the first read of the clock and \<open>created\<close> the second.
\<close>

definition createEntry ::
  "int \<Rightarrow> int \<Rightarrow> jsval \<Rightarrow> CacheOptions option \<Rightarrow> CacheAdapter \<Rightarrow> CacheEntry" where
  "createEntry now created v opts c =
     (let ttl = (case opts of
                   None \<Rightarrow> opt_ttl (options c)
                 | Some p \<Rightarrow> (case opt_ttl p of None \<Rightarrow> opt_ttl (options c) | Some t \<Rightarrow> Some t))
      in \<lparr>entry_value = v,
          expires = (case ttl of None \<Rightarrow> None | Some t \<Rightarrow> if t \<noteq> 0 then Some (now + t) else None),
          createdAt = created\<rparr>)"

text \<open>What an expired entry leaves behind: the event \<open>cacheExpired\<close>.\<close>

definition expired :: "string \<Rightarrow> backend \<Rightarrow> CacheAdapter \<Rightarrow> jsval \<times> CacheAdapter" where
  "expired key b c = (JUndefined, c\<lparr>backend := b, emitted := emitted c @ [CacheExpired key]\<rparr>)"

text \<open>\<open>MapAdapter.get\<close> and \<open>MapAdapter.set\<close>.\<close>

definition MapAdapter_get ::
  "(string \<times> CacheEntry) list \<Rightarrow> int \<Rightarrow> string \<Rightarrow> CacheAdapter \<Rightarrow> jsval \<times> CacheAdapter" where
  "MapAdapter_get cache now key c =
     (case map_of cache key of
        None \<Rightarrow> (JUndefined, c)
      | Some entry \<Rightarrow>
          if isExpired now entry then expired key (MapAdapter (AList.delete key cache)) c
          else (entry_value entry, c))"

definition MapAdapter_set ::
  "(string \<times> CacheEntry) list \<Rightarrow> int \<Rightarrow> int \<Rightarrow> string \<Rightarrow> jsval \<Rightarrow> CacheOptions option
     \<Rightarrow> CacheAdapter \<Rightarrow> CacheAdapter" where
  "MapAdapter_set cache now created key v opts c =
     (let entry = createEntry now created v opts c
      in c\<lparr>backend := MapAdapter (AList.update key entry cache),
           emitted := emitted c @ [CacheSet key v]\<rparr>)"

text \<open>
  \<open>WeakMapAdapter.get\<close> takes the first key object of \<open>Keys\<close> whose \<open>key\<close> is the one
  asked for and looks no further. \<open>WeakMapAdapter.set\<close> makes a new key object every
  time (\<open>getKeyObject\<close>), also for a key that has one.
\<close>

definition WeakMapAdapter_get ::
  "(nat \<times> CacheEntry) list \<Rightarrow> (nat \<times> string) list \<Rightarrow> nat \<Rightarrow> int \<Rightarrow> string \<Rightarrow> CacheAdapter
     \<Rightarrow> jsval \<times> CacheAdapter" where
  "WeakMapAdapter_get cache Keys n now key c =
     (case find (\<lambda>keyObj. snd keyObj = key) Keys of
        None \<Rightarrow> (JUndefined, c)
      | Some keyObj \<Rightarrow>
          (case map_of cache (fst keyObj) of
             None \<Rightarrow> (JUndefined, c)
           | Some entry \<Rightarrow>
               if isExpired now entry
               then expired key
                      (WeakMapAdapter (AList.delete (fst keyObj) cache)
                         (filter (\<lambda>x. fst x \<noteq> fst keyObj) Keys) n) c
               else (entry_value entry, c)))"

definition WeakMapAdapter_set ::
  "(nat \<times> CacheEntry) list \<Rightarrow> (nat \<times> string) list \<Rightarrow> nat \<Rightarrow> int \<Rightarrow> int \<Rightarrow> string \<Rightarrow> jsval
     \<Rightarrow> CacheOptions option \<Rightarrow> CacheAdapter \<Rightarrow> CacheAdapter" where
  "WeakMapAdapter_set cache Keys n now created key v opts c =
     (let keyObj = (n, key);
          entry = createEntry now created v opts c
      in c\<lparr>backend := WeakMapAdapter (AList.update (fst keyObj) entry cache)
                        (Keys @ [keyObj]) (Suc n),
           emitted := emitted c @ [CacheSet key v]\<rparr>)"

text \<open>\<open>SetAdapter.get\<close> and \<open>SetAdapter.set\<close>.\<close>

definition SetAdapter_get ::
  "CacheEntry multiset \<Rightarrow> (string \<times> CacheEntry) list \<Rightarrow> int \<Rightarrow> string \<Rightarrow> CacheAdapter
     \<Rightarrow> jsval \<times> CacheAdapter" where
  "SetAdapter_get cache Keys now key c =
     (case map_of Keys key of
        None \<Rightarrow> (JUndefined, c)
      | Some entry \<Rightarrow>
          if isExpired now entry
          then expired key (SetAdapter (cache - {#entry#}) (AList.delete key Keys)) c
          else (entry_value entry, c))"

definition SetAdapter_set ::
  "CacheEntry multiset \<Rightarrow> (string \<times> CacheEntry) list \<Rightarrow> int \<Rightarrow> int \<Rightarrow> string \<Rightarrow> jsval
     \<Rightarrow> CacheOptions option \<Rightarrow> CacheAdapter \<Rightarrow> CacheAdapter" where
  "SetAdapter_set cache Keys now created key v opts c =
     (let entry = createEntry now created v opts c
      in c\<lparr>backend := SetAdapter (add_mset entry cache) (AList.update key entry Keys),
           emitted := emitted c @ [CacheSet key v]\<rparr>)"

text \<open>
  The array operations of the \<open>ArrayAdapter\<close>: \<open>this.cache[index]\<close>,
  \<open>this.cache[index] = entry\<close> (which fills the array up with empty slots when \<open>index\<close>
  is past its end), \<open>this.cache.splice(index, 1)\<close> and \<open>updateIndices(deletedIndex)\<close>.
  The indices are the lengths the array had, and what \<open>updateIndices\<close> makes of them:
  natural numbers.
\<close>

definition array_read :: "'a option list \<Rightarrow> nat \<Rightarrow> 'a option" where
  "array_read xs i = (if i < length xs then xs ! i else None)"

definition array_write :: "'a option list \<Rightarrow> nat \<Rightarrow> 'a \<Rightarrow> 'a option list" where
  "array_write xs i x =
     (if i < length xs then xs[i := Some x]
      else xs @ replicate (i - length xs) None @ [Some x])"

definition splice1 :: "nat \<Rightarrow> 'a list \<Rightarrow> 'a list" where
  "splice1 i xs = take i xs @ drop (Suc i) xs"

definition updateIndices :: "nat \<Rightarrow> (string \<times> nat) list \<Rightarrow> (string \<times> nat) list" where
  "updateIndices deletedIndex Keys =
     map (\<lambda>(key, index). (key, if index > deletedIndex then index - 1 else index)) Keys"

text \<open>\<open>ArrayAdapter.get\<close> and \<open>ArrayAdapter.set\<close>.\<close>

definition ArrayAdapter_get ::
  "CacheEntry option list \<Rightarrow> (string \<times> nat) list \<Rightarrow> int \<Rightarrow> string \<Rightarrow> CacheAdapter
     \<Rightarrow> jsval \<times> CacheAdapter" where
  "ArrayAdapter_get cache Keys now key c =
     (case map_of Keys key of
        None \<Rightarrow> (JUndefined, c)
      | Some index \<Rightarrow>
          (case array_read cache index of
             None \<Rightarrow> (JUndefined, c)
           | Some entry \<Rightarrow>
               if isExpired now entry
               then expired key
                      (ArrayAdapter (splice1 index cache)
                         (updateIndices index (AList.delete key Keys))) c
               else (entry_value entry, c)))"

definition ArrayAdapter_set ::
  "CacheEntry option list \<Rightarrow> (string \<times> nat) list \<Rightarrow> int \<Rightarrow> int \<Rightarrow> string \<Rightarrow> jsval
     \<Rightarrow> CacheOptions option \<Rightarrow> CacheAdapter \<Rightarrow> CacheAdapter" where
  "ArrayAdapter_set cache Keys now created key v opts c =
     (let entry = createEntry now created v opts c
      in c\<lparr>backend := (case map_of Keys key of
                         Some existingIndex \<Rightarrow>
                           ArrayAdapter (array_write cache existingIndex entry) Keys
                       | None \<Rightarrow>
                           ArrayAdapter (cache @ [Some entry])
                             (AList.update key (length cache) Keys)),
           emitted := emitted c @ [CacheSet key v]\<rparr>)"

text \<open>\<open>ObjectAdapter.get\<close> and \<open>ObjectAdapter.set\<close>.\<close>

definition ObjectAdapter_get ::
  "(string \<times> CacheEntry) list \<Rightarrow> int \<Rightarrow> string \<Rightarrow> CacheAdapter \<Rightarrow> jsval \<times> CacheAdapter" where
  "ObjectAdapter_get cache now key c =
     (case map_of cache key of
        None \<Rightarrow> (JUndefined, c)
      | Some entry \<Rightarrow>
          if isExpired now entry then expired key (ObjectAdapter (AList.delete key cache)) c
          else (entry_value entry, c))"

definition ObjectAdapter_set ::
  "(string \<times> CacheEntry) list \<Rightarrow> int \<Rightarrow> int \<Rightarrow> string \<Rightarrow> jsval \<Rightarrow> CacheOptions option
     \<Rightarrow> CacheAdapter \<Rightarrow> CacheAdapter" where
  "ObjectAdapter_set cache now created key v opts c =
     (let entry = createEntry now created v opts c
      in c\<lparr>backend := ObjectAdapter (AList.update key entry cache),
           emitted := emitted c @ [CacheSet key v]\<rparr>)"

text \<open>
  \<open>this.get(key)\<close> and \<open>this.set(key, value, options)\<close> on a \<open>CacheAdapter\<close>: the method
  of the subclass the object belongs to.
\<close>

definition cache_get :: "int \<Rightarrow> string \<Rightarrow> CacheAdapter \<Rightarrow> jsval \<times> CacheAdapter" where
  "cache_get now key c =
     (case backend c of
        MapAdapter cache \<Rightarrow> MapAdapter_get cache now key c
      | WeakMapAdapter cache Keys n \<Rightarrow> WeakMapAdapter_get cache Keys n now key c
      | SetAdapter cache Keys \<Rightarrow> SetAdapter_get cache Keys now key c
      | ArrayAdapter cache Keys \<Rightarrow> ArrayAdapter_get cache Keys now key c
      | ObjectAdapter cache \<Rightarrow> ObjectAdapter_get cache now key c)"

definition cache_set ::
  "int \<Rightarrow> int \<Rightarrow> string \<Rightarrow> jsval \<Rightarrow> CacheOptions option \<Rightarrow> CacheAdapter \<Rightarrow> CacheAdapter" where
  "cache_set now created key v opts c =
     (case backend c of
        MapAdapter cache \<Rightarrow> MapAdapter_set cache now created key v opts c
      | WeakMapAdapter cache Keys n \<Rightarrow> WeakMapAdapter_set cache Keys n now created key v opts c
      | SetAdapter cache Keys \<Rightarrow> SetAdapter_set cache Keys now created key v opts c
      | ArrayAdapter cache Keys \<Rightarrow> ArrayAdapter_set cache Keys now created key v opts c
      | ObjectAdapter cache \<Rightarrow> ObjectAdapter_set cache now created key v opts c)"

text \<open>
  \<open>CacheAdapter.revalidate(key, revalidateFn)\<close>. The producer \<open>revalidateFn\<close> is host
  code: a function on the state \<open>'s\<close> of the world outside the adapter that returns the
  fresh value and the state it leaves, so that an invocation is visible in that state.
  \<open>now\<close> is the clock at the read (\<open>get\<close>); \<open>now'\<close> and \<open>created\<close> are the two reads of
  the clock at the write (\<open>set\<close>), which comes after the producer has finished.
\<close>

definition revalidate ::
  "int \<Rightarrow> int \<Rightarrow> int \<Rightarrow> string \<Rightarrow> ('s \<Rightarrow> jsval \<times> 's) \<Rightarrow> CacheAdapter \<times> 's
     \<Rightarrow> jsval \<times> CacheAdapter \<times> 's" where
  "revalidate now now' created key revalidateFn cs =
     (let (existing, c1) = cache_get now key (fst cs)
      in if truthy existing \<and> \<not> (opt_revalidate (options c1) = Some True)
         then (existing, c1, snd cs)
         else (let (fresh, s') = revalidateFn (snd cs)
               in (fresh, cache_set now' created key fresh None c1, s')))"

text \<open>
  Whether the adapter keeps a record under \<open>key\<close>: an entry of the \<open>Map\<close> or the
  \<open>Record\<close>, a key object in \<open>Keys\<close>, or an entry of the \<open>Keys\<close> map.
\<close>

definition holds_key :: "string \<Rightarrow> CacheAdapter \<Rightarrow> bool" where
  "holds_key key c =
     (case backend c of
        MapAdapter cache \<Rightarrow> map_of cache key \<noteq> None
      | WeakMapAdapter cache Keys n \<Rightarrow> key \<in> snd ` set Keys
      | SetAdapter cache Keys \<Rightarrow> map_of Keys key \<noteq> None
      | ArrayAdapter cache Keys \<Rightarrow> map_of Keys key \<noteq> None
      | ObjectAdapter cache \<Rightarrow> map_of cache key \<noteq> None)"

text \<open>
  A producer for experiments: it returns \<open>v\<close> and counts its own invocations in the
  outside state.
\<close>

definition counting_producer :: "jsval \<Rightarrow> nat \<Rightarrow> jsval \<times> nat" where
  "counting_producer v n = (v, Suc n)"


section \<open>Notifications and outgoing calls\<close>

text \<open>
  \<open>manager.emit(name, ...)\<close> hands a notification to listeners registered by the host
  application; the model records it. A node is named in a notification by its
  \<open>identifier\<close> field, a player by its guild id, a track by its reference.
\<close>

datatype event =
    NodeCreate string
  | NodeReconnect string
  | NodeConnected string
  | NodeDisconnect string int string
  | NodeError string
  | TrackEnd string "nat option" string
  | QueueEnd string
  | PlayerTriggeredPlay string nat
  | PlayerConnected string
  | PlayerDisconnected string
  | PlayerDestroyed string
  | PlayerChangedVolume string real real

text \<open>
  The body of a REST \<open>update\<close> (\<open>PATCH /sessions/.../players/{guildId}\<close>), as far as the
  modelled callers build one.
\<close>

datatype update_data =
    UpdTrackVolume "string option" real
  | UpdTrack "string option"
  | UpdVolume real

text \<open>
  Everything a method sends out, in the order it happens: notifications, REST requests
  issued through a node (named by its key in the node registry), voice payloads given to
  \<open>sendPayload\<close> (guild, channel, mute, deaf), and writes to the manager's cache
  (\<open>cache.set(key, state)\<close>, \<open>cache.delete(key)\<close>).
\<close>

datatype effect =
    Emit event
  | RestUpdate string string update_data
  | RestDestroy string string
  | SendPayload string "string option" bool bool
  | CacheSetCall string
  | CacheDeleteCall string


section \<open>The node connection (\<open>LilyNode\<close>)\<close>

datatype LilyNodeState = CONNECTING | CONNECTED | DISCONNECTING | DISCONNECTED

text \<open>
  \<open>LilyNodeOptions\<close>. Optional properties are options; the numbers are integers, which
  builds the schema's \<open>.int()\<close> into the type.
\<close>

record LilyNodeOptions =
  o_host :: string
  o_id :: "int option"
  o_identifier :: "string option"
  o_port :: int
  o_password :: "string option"
  o_retryDelay :: "int option"
  o_retryAmount :: "int option"
  o_regions :: "string list option"
  o_secure :: "bool option"
  o_sessionId :: "string option"

text \<open>
  A \<open>LilyNode\<close>. \<open>socket\<close> refers to a \<open>WebSocket\<close> object of the runtime and
  \<open>reconnectTimeout\<close> to a timer handle. Of the statistics only \<open>stats.players\<close> is kept,
  the one the modelled code reads; \<open>url\<close>, \<open>rest\<close>, \<open>info\<close> and \<open>version\<close> are left out.
\<close>

record LilyNode =
  host :: string
  port :: int
  "identifier" :: string
  password :: string
  state :: LilyNodeState
  reconnectTimeout :: "nat option"
  reconnectAttempts :: int
  retryAmount :: int
  retryDelay :: int
  regions :: "string list"
  secure :: bool
  sessionId :: string
  socket :: "nat option"
  stats_players :: int

text \<open>
  \<open>String.prototype.toLowerCase\<close>. A string is a list of 8-bit characters, the code
  points U+0000 to U+00FF. The capital letters among them are A to Z and U+00C0 to U+00DE
  without U+00D7 (the multiplication sign); each has its small letter 32 places up.
\<close>

definition toLowerCase :: "string \<Rightarrow> string" where
  "toLowerCase s =
     map (\<lambda>c. let n = (of_char c :: nat)
              in if (65 \<le> n \<and> n \<le> 90) \<or> (192 \<le> n \<and> n \<le> 222 \<and> n \<noteq> 215)
                 then char_of (n + 32) else c) s"

text \<open>
  The constructor, with its own defaults: \<open>identifier = ''\<close>,
  \<open>password = 'youshallnotpass'\<close>, \<open>retryDelay = 30000\<close>, \<open>retryAmount = 5\<close>,
  \<open>secure = false\<close>, \<open>sessionId = ''\<close>; the state starts as \<open>CONNECTING\<close>.
\<close>

definition LilyNode_new :: "LilyNodeOptions \<Rightarrow> LilyNode" where
  "LilyNode_new opts =
     \<lparr>host = o_host opts,
      port = o_port opts,
      identifier = (case o_identifier opts of None \<Rightarrow> '''' | Some i \<Rightarrow> i),
      password = (case o_password opts of None \<Rightarrow> ''youshallnotpass'' | Some p \<Rightarrow> p),
      state = CONNECTING,
      reconnectTimeout = None,
      reconnectAttempts = 0,
      retryAmount = (case o_retryAmount opts of None \<Rightarrow> 5 | Some n \<Rightarrow> n),
      retryDelay = (case o_retryDelay opts of None \<Rightarrow> 30000 | Some n \<Rightarrow> n),
      regions = (case o_regions opts of None \<Rightarrow> [] | Some rs \<Rightarrow> map toLowerCase rs),
      secure = (case o_secure opts of None \<Rightarrow> False | Some b \<Rightarrow> b),
      sessionId = (case o_sessionId opts of None \<Rightarrow> '''' | Some s \<Rightarrow> s),
      socket = None,
      stats_players = 0\<rparr>"

text \<open>
  The runtime around one node. A \<open>WebSocket\<close> object is an entry of \<open>sockets\<close>:
  \<open>ws_listeners\<close> says whether the node's \<open>open\<close>, \<open>close\<close>, \<open>message\<close> and \<open>error\<close> handlers
  are bound to it, \<open>ws_closeCalled\<close> whether \<open>close()\<close> has been called on it. \<open>timers\<close>
  holds the handles of the pending \<open>setTimeout\<close> callbacks, each one a scheduled
  \<open>() => { this.reconnectAttempts++; this.connect(); }\<close>; \<open>nextTimer\<close> is the next fresh
  handle. \<open>emits\<close> is what the node has sent to \<open>manager.emit\<close>, oldest first.
\<close>

record WebSocket =
  ws_listeners :: bool
  ws_closeCalled :: bool

record node_world =
  node :: LilyNode
  sockets :: "WebSocket list"
  timers :: "nat list"
  nextTimer :: nat
  emits :: "event list"

definition node_world_new :: "LilyNodeOptions \<Rightarrow> node_world" where
  "node_world_new opts =
     \<lparr>node = LilyNode_new opts, sockets = [], timers = [], nextTimer = 0, emits = []\<rparr>"

text \<open>\<open>connect()\<close>: a new \<open>WebSocket\<close>, then \<open>bindSocketEvents()\<close>.\<close>

definition connect :: "node_world \<Rightarrow> node_world" where
  "connect w =
     w\<lparr>sockets := sockets w @ [\<lparr>ws_listeners = True, ws_closeCalled = False\<rparr>],
       node := (node w)\<lparr>socket := Some (length (sockets w))\<rparr>\<rparr>"

text \<open>
  \<open>reconnect()\<close>: \<open>this.reconnectTimeout = setTimeout(..., this.retryDelay)\<close>, then
  \<open>emit('nodeReconnect', this)\<close>.
\<close>

definition reconnect :: "node_world \<Rightarrow> node_world" where
  "reconnect w =
     w\<lparr>timers := timers w @ [nextTimer w],
       nextTimer := Suc (nextTimer w),
       node := (node w)\<lparr>reconnectTimeout := Some (nextTimer w)\<rparr>,
       emits := emits w @ [NodeReconnect (identifier (node w))]\<rparr>"

text \<open>The callback of that timer.\<close>

definition reconnect_callback :: "node_world \<Rightarrow> node_world" where
  "reconnect_callback w =
     connect (w\<lparr>node := (node w)\<lparr>reconnectAttempts := reconnectAttempts (node w) + 1\<rparr>\<rparr>)"

text \<open>\<open>clearTimeout(handle)\<close>: the callback will not run.\<close>

definition clearTimeout :: "nat \<Rightarrow> node_world \<Rightarrow> node_world" where
  "clearTimeout h w = w\<lparr>timers := filter (\<lambda>x. x \<noteq> h) (timers w)\<rparr>"

definition "open" :: "node_world \<Rightarrow> node_world" where
  "open w =
     (let w1 = (case reconnectTimeout (node w) of
                  Some h \<Rightarrow> clearTimeout h w
                | None \<Rightarrow> w)
      in w1\<lparr>node := (node w1)\<lparr>state := CONNECTED\<rparr>,
            emits := emits w1 @ [NodeConnected (identifier (node w1))]\<rparr>)"

text \<open>\<open>cleanupSocket()\<close>: \<open>removeAllListeners()\<close> and \<open>close()\<close> on the current socket.\<close>

definition cleanupSocket :: "node_world \<Rightarrow> node_world" where
  "cleanupSocket w =
     (case socket (node w) of
        None \<Rightarrow> w
      | Some i \<Rightarrow>
          w\<lparr>sockets := (sockets w)[i := \<lparr>ws_listeners = False, ws_closeCalled = True\<rparr>]\<rparr>)"

definition close :: "int \<Rightarrow> string \<Rightarrow> node_world \<Rightarrow> node_world" where
  "close code reason w =
     (let w1 = (if state (node w) = CONNECTED
                then w\<lparr>node := (node w)\<lparr>state := DISCONNECTED\<rparr>\<rparr> else w);
          w2 = cleanupSocket w1;
          w3 = (if retryAmount (node w2) > reconnectAttempts (node w2)
                then reconnect w2
                else w2\<lparr>node := (node w2)\<lparr>socket := None, state := DISCONNECTED\<rparr>\<rparr>)
      in w3\<lparr>emits := emits w3 @ [NodeDisconnect (identifier (node w3)) code reason]\<rparr>)"

definition error_handler :: "node_world \<Rightarrow> node_world" where
  "error_handler w = w\<lparr>emits := emits w @ [NodeError (identifier (node w))]\<rparr>"

text \<open>\<open>destroy()\<close>: \<open>this.socket?.close(); this.state = DISCONNECTED\<close>.\<close>

definition destroy :: "node_world \<Rightarrow> node_world" where
  "destroy w =
     (let w1 = (case socket (node w) of
                  None \<Rightarrow> w
                | Some i \<Rightarrow>
                    w\<lparr>sockets := (sockets w)[i := (sockets w ! i)\<lparr>ws_closeCalled := True\<rparr>]\<rparr>)
      in w1\<lparr>node := (node w1)\<lparr>state := DISCONNECTED\<rparr>\<rparr>)"

text \<open>
  What can reach the node from outside: an event of a socket, delivered to the handler
  bound to it, the firing of a pending timer, and a call of \<open>destroy()\<close> by the host. An
  event of a socket without listeners and a handle that is not pending reach nothing.
\<close>

datatype node_input =
    SocketOpen nat
  | SocketClose nat int string
  | SocketError nat
  | TimerFired nat
  | Destroy

definition listening :: "nat \<Rightarrow> node_world \<Rightarrow> bool" where
  "listening i w = (i < length (sockets w) \<and> ws_listeners (sockets w ! i))"

fun deliver :: "node_input \<Rightarrow> node_world \<Rightarrow> node_world" where
  "deliver (SocketOpen i) w = (if listening i w then open w else w)"
| "deliver (SocketClose i code reason) w = (if listening i w then close code reason w else w)"
| "deliver (SocketError i) w = (if listening i w then error_handler w else w)"
| "deliver (TimerFired h) w =
     (if h \<in> set (timers w) then reconnect_callback (clearTimeout h w) else w)"
| "deliver Destroy w = destroy w"

fun run :: "node_input list \<Rightarrow> node_world \<Rightarrow> node_world" where
  "run [] w = w"
| "run (x # xs) w = run xs (deliver x w)"

text \<open>
  The states the runtime can be in: handlers are bound to the current socket only, a
  reconnect timer is pending only while no socket has handlers bound, and at most one
  is pending.
\<close>

definition node_inv :: "node_world \<Rightarrow> bool" where
  "node_inv w =
     ((\<forall>i. listening i w \<longrightarrow> socket (node w) = Some i \<and> timers w = [])
      \<and> length (timers w) \<le> 1)"

fun is_reconnect :: "event \<Rightarrow> bool" where
  "is_reconnect (NodeReconnect n) = True"
| "is_reconnect e = False"

text \<open>A node that nothing can reach any more, resting in \<open>DISCONNECTED\<close>.\<close>

definition settled :: "node_world \<Rightarrow> bool" where
  "settled w = ((\<forall>i. \<not> listening i w) \<and> timers w = [] \<and> state (node w) = DISCONNECTED)"

text \<open>The node of the example bot (\<open>testBot/index.js\<close>, \<open>config.nodes[0]\<close>).\<close>

definition testBot_node :: LilyNodeOptions where
  "testBot_node =
     \<lparr>o_host = ''lavalink.jirayu.net'', o_id = None, o_identifier = Some ''main'',
      o_port = 13592, o_password = Some ''youshallnotpass'', o_retryDelay = None,
      o_retryAmount = None, o_regions = None, o_secure = Some False, o_sessionId = None\<rparr>"


section \<open>Tracks\<close>

text \<open>
  The protocol's track (\<open>Track\<close>, \<open>TrackInfo\<close>) and the client's \<open>LilyTrack\<close>, whose
  constructor copies the fields over. \<open>pluginInfo\<close>, \<open>userData\<close> and \<open>requestedBy\<close> are left
  out. A \<open>LilyTrack\<close> is an object: the manager's \<open>trackObjs\<close> holds them and a track
  reference is an index into it.
\<close>

record TrackInfo =
  info_title :: string
  info_uri :: "string option"
  info_author :: string
  info_length :: int
  info_isStream :: bool
  info_isSeekable :: bool
  info_position :: int
  info_artworkUrl :: "string option"
  info_identifier :: "string option"
  info_isrc :: "string option"
  info_sourceName :: "string option"

record Track =
  tr_encoded :: "string option"
  tr_info :: TrackInfo

record LilyTrack =
  encoded :: "string option"
  url :: "string option"
  author :: string
  duration :: int
  title :: string
  track_position :: int
  track_identifier :: "string option"
  isSeekable :: bool
  isStream :: bool
  artworkUrl :: "string option"
  isrc :: "string option"
  track_time :: "int option"
  sourceName :: "string option"

definition LilyTrack_new :: "Track \<Rightarrow> LilyTrack" where
  "LilyTrack_new trackData =
     \<lparr>encoded = tr_encoded trackData,
      url = info_uri (tr_info trackData),
      author = info_author (tr_info trackData),
      duration = info_length (tr_info trackData),
      title = info_title (tr_info trackData),
      track_position = info_position (tr_info trackData),
      track_identifier = info_identifier (tr_info trackData),
      isSeekable = info_isSeekable (tr_info trackData),
      isStream = info_isStream (tr_info trackData),
      artworkUrl = info_artworkUrl (tr_info trackData),
      isrc = info_isrc (tr_info trackData),
      track_time = Some 0,
      sourceName = info_sourceName (tr_info trackData)\<rparr>"


section \<open>Players and the manager\<close>

datatype PlayerLoop = OFF | TRACK | QUEUE

text \<open>
  \<open>PlayerConfig\<close>. The second variant of the player and the player registry spell the
  channel properties \<open>voiceChannelId\<close> and \<open>textChannelId\<close>.
\<close>

record PlayerConfig =
  cfg_guildId :: string
  cfg_voiceChannel :: "string option"
  cfg_textChannel :: "string option"
  cfg_volume :: "real option"
  cfg_loop :: "PlayerLoop option"
  cfg_autoPlay :: "bool option"
  cfg_autoLeave :: "bool option"
  cfg_node :: "string option"

text \<open>
  \<open>previous\<close> is one track (or \<open>null\<close>) or an array of tracks, as
  \<open>options.previousInArray\<close> decides.
\<close>

datatype previous_tracks = Single "nat option" | Many "nat list"

text \<open>
  A \<open>LilyPlayer\<close>. The queue holds track references. The player refers to its node by
  the node's key in the node registry. \<open>voiceState\<close>, \<open>data\<close> and \<open>filters\<close>, which no
  modelled method reads, are left out.
\<close>

record LilyPlayer =
  guildId :: string
  voiceChannel :: "string option"
  textChannel :: "string option"
  autoPlay :: bool
  autoLeave :: bool
  connected :: bool
  playing :: bool
  paused :: bool
  volume :: real
  loop :: PlayerLoop
  current :: "nat option"
  previous :: previous_tracks
  ping :: int
  queue :: "nat LilyQueue"
  player_node :: string

text \<open>
  The manager with its two registries (\<open>nodes.cache\<close> and \<open>players.cache\<close>, in insertion
  order), the options the modelled code reads, the player and track objects, and
  \<open>effects\<close>: everything sent out so far, oldest first. \<open>has_cache\<close> says whether
  \<open>manager.cache\<close> is set.
\<close>

record LilyManager =
  previousInArray :: bool
  queueStartIndex :: "number option"
  has_cache :: bool
  nodes :: "(string \<times> LilyNode) list"
  players :: "(string \<times> nat) list"
  playerObjs :: "LilyPlayer list"
  trackObjs :: "LilyTrack list"
  effects :: "effect list"

definition LilyManager_new :: "bool \<Rightarrow> number option \<Rightarrow> LilyManager" where
  "LilyManager_new prevInArray startIdx =
     \<lparr>previousInArray = prevInArray, queueStartIndex = startIdx, has_cache = True,
      nodes = [], players = [], playerObjs = [], trackObjs = [], effects = []\<rparr>"

text \<open>Writing to the object a player reference points to, and sending something out.\<close>

definition upd_player :: "nat \<Rightarrow> (LilyPlayer \<Rightarrow> LilyPlayer) \<Rightarrow> LilyManager \<Rightarrow> LilyManager" where
  "upd_player r f m = m\<lparr>playerObjs := (playerObjs m)[r := f (playerObjs m ! r)]\<rparr>"

definition send :: "effect \<Rightarrow> LilyManager \<Rightarrow> LilyManager" where
  "send e m = m\<lparr>effects := effects m @ [e]\<rparr>"


subsection \<open>The node registry (\<open>LilyNodeManager\<close>)\<close>

text \<open>
  \<open>nodeOptionsSchema\<close>: the constraints of the zod schema. \<open>.strict()\<close> rejects unknown
  properties, which the record type has none of.
\<close>

definition nodeOptionsSchema :: "LilyNodeOptions \<Rightarrow> bool" where
  "nodeOptionsSchema opts =
     (length (o_host opts) \<ge> 1
      \<and> (case o_id opts of None \<Rightarrow> True | Some i \<Rightarrow> i > 0)
      \<and> (case o_identifier opts of None \<Rightarrow> True | Some s \<Rightarrow> length s \<ge> 1)
      \<and> 1 \<le> o_port opts \<and> o_port opts \<le> 65535
      \<and> (case o_password opts of None \<Rightarrow> True | Some s \<Rightarrow> length s \<ge> 1)
      \<and> (case o_retryDelay opts of None \<Rightarrow> True | Some n \<Rightarrow> 100 \<le> n \<and> n \<le> 60000)
      \<and> (case o_retryAmount opts of None \<Rightarrow> True | Some n \<Rightarrow> 1 \<le> n \<and> n \<le> 10)
      \<and> (case o_regions opts of None \<Rightarrow> True | Some rs \<Rightarrow> list_all (\<lambda>s. length s \<ge> 1) rs)
      \<and> (case o_sessionId opts of None \<Rightarrow> True | Some s \<Rightarrow> length s \<ge> 1))"

text \<open>
  \<open>validateNode\<close>: the parsed options carry the schema's defaults (\<open>retryDelay\<close> 5000,
  \<open>retryAmount\<close> 3, \<open>regions\<close> [], \<open>secure\<close> false); a failure is rethrown as
  \<open>Error('Invalid node configuration: ...')\<close>.
\<close>

definition validateNode :: "LilyNodeOptions \<Rightarrow> error + LilyNodeOptions" where
  "validateNode opts =
     (if nodeOptionsSchema opts
      then Inr (opts\<lparr>o_retryDelay := Some (case o_retryDelay opts of None \<Rightarrow> 5000 | Some n \<Rightarrow> n),
                     o_retryAmount := Some (case o_retryAmount opts of None \<Rightarrow> 3 | Some n \<Rightarrow> n),
                     o_regions := Some (case o_regions opts of None \<Rightarrow> [] | Some rs \<Rightarrow> rs),
                     o_secure := Some (case o_secure opts of None \<Rightarrow> False | Some b \<Rightarrow> b)\<rparr>)
      else Inl (Error ''Invalid node configuration''))"

definition maxCacheSize :: nat where
  "maxCacheSize = 100"

text \<open>\<open>LilyNodeManager.add\<close>.\<close>

definition nodes_add :: "LilyNodeOptions \<Rightarrow> LilyManager \<Rightarrow> (error + unit) \<times> LilyManager" where
  "nodes_add opts m =
     (if length (nodes m) \<ge> maxCacheSize
      then (Inl (Error ''Cannot add more nodes. Maximum capacity (100) reached''), m)
      else (case validateNode opts of
              Inl e \<Rightarrow> (Inl e, m)
            | Inr validatedOptions \<Rightarrow>
                (let ident = (case o_identifier validatedOptions of
                                Some i \<Rightarrow> i
                              | None \<Rightarrow> o_host validatedOptions)
                 in if map_of (nodes m) ident \<noteq> None
                    then (Inl (Error (''Node with identifier '' @ [CHR 0x22] @ ident
                                       @ [CHR 0x22] @ '' already exists'')), m)
                    else (let n = LilyNode_new validatedOptions
                          in (Inr (),
                              send (Emit (NodeCreate (identifier n)))
                                (m\<lparr>nodes := AList.update ident n (nodes m)\<rparr>))))))"

text \<open>
  \<open>LilyNodeManager.get\<close>, which throws when the key is unknown. The result is the node
  together with its key.
\<close>

definition nodes_get :: "string \<Rightarrow> LilyManager \<Rightarrow> error + (string \<times> LilyNode)" where
  "nodes_get ident m =
     (if ident = ''default'' \<and> length (nodes m) = 1
      then Inr (hd (nodes m))
      else (case map_of (nodes m) ident of
              None \<Rightarrow> Inl (Error (''Node with identifier '' @ [CHR 0x22] @ ident
                                   @ [CHR 0x22] @ '' not found''))
            | Some n \<Rightarrow> Inr (ident, n)))"

text \<open>
  \<open>sortByUsage('players')\<close>, the one call the modelled code makes: the connected node
  with the fewest players, the first such in registry order.
\<close>

definition sortByUsage_players :: "LilyManager \<Rightarrow> error + (string \<times> LilyNode)" where
  "sortByUsage_players m =
     (let connectedNodes = filter (\<lambda>kn. state (snd kn) = CONNECTED) (nodes m)
      in if connectedNodes = []
         then Inl (Error ''No connected nodes available'')
         else Inr (hd (sort_key (\<lambda>kn. stats_players (snd kn)) connectedNodes)))"


subsection \<open>The player (\<open>LilyPlayer\<close>)\<close>

text \<open>
  \<open>cacheState()\<close> and \<open>invalidateCache()\<close> of the first variant: one write to the manager's
  cache under the key \<open>player:<guildId>:state\<close>, if there is a cache.
\<close>

definition cacheState :: "nat \<Rightarrow> LilyManager \<Rightarrow> LilyManager" where
  "cacheState r m =
     (if \<not> has_cache m then m
      else send (CacheSetCall (''player:'' @ guildId (playerObjs m ! r) @ '':state'')) m)"

definition invalidateCache :: "nat \<Rightarrow> LilyManager \<Rightarrow> LilyManager" where
  "invalidateCache r m =
     (if \<not> has_cache m then m
      else send (CacheDeleteCall (''player:'' @ guildId (playerObjs m ! r) @ '':state'')) m)"

text \<open>
  The constructor of the first variant. \<open>config.volume || 100\<close> and the other \<open>||\<close>
  defaults replace every falsy value; \<open>nodes.get\<close> throws for an unknown key, and for
  \<open>undefined\<close>. On success the new object is added to \<open>playerObjs\<close> and its reference
  returned.
\<close>

definition LilyPlayer_new :: "PlayerConfig \<Rightarrow> LilyManager \<Rightarrow> (error + nat) \<times> LilyManager" where
  "LilyPlayer_new config m =
     (case (case cfg_node config of
              None \<Rightarrow> Inl (Error (''Node with identifier '' @ [CHR 0x22] @ ''undefined''
                                   @ [CHR 0x22] @ '' not found''))
            | Some k \<Rightarrow> nodes_get k m) of
        Inl e \<Rightarrow> (Inl e, m)
      | Inr (k, n) \<Rightarrow>
          (let p = \<lparr>guildId = cfg_guildId config,
                    voiceChannel = cfg_voiceChannel config,
                    textChannel = cfg_textChannel config,
                    autoPlay = (case cfg_autoPlay config of None \<Rightarrow> False | Some b \<Rightarrow> b),
                    autoLeave = (case cfg_autoLeave config of None \<Rightarrow> False | Some b \<Rightarrow> b),
                    connected = False,
                    playing = False,
                    paused = False,
                    volume = (case cfg_volume config of
                                None \<Rightarrow> 100
                              | Some v \<Rightarrow> if v = 0 then 100 else v),
                    loop = (case cfg_loop config of None \<Rightarrow> OFF | Some l \<Rightarrow> l),
                    current = None,
                    previous = (if previousInArray m then Many [] else Single None),
                    ping = 0,
                    queue = LilyQueue_new (case queueStartIndex m of None \<Rightarrow> Num 0 | Some i \<Rightarrow> i),
                    player_node = k\<rparr>;
               r = length (playerObjs m)
           in (Inr r, cacheState r (m\<lparr>playerObjs := playerObjs m @ [p]\<rparr>))))"

text \<open>
  \<open>play()\<close>. \<open>this.node.rest.update(...)\<close> issues the request and is not awaited. The
  second variant's \<open>play()\<close> is the same without the final \<open>cacheState()\<close>, which is this
  one on a manager without a cache.
\<close>

definition play :: "nat \<Rightarrow> LilyManager \<Rightarrow> (error + bool) \<times> LilyManager" where
  "play r m =
     (let p = playerObjs m ! r
      in if queue_size (queue p) = 0 then (Inr False, m)
         else (case shift (queue p) of
                 (Inl e, q') \<Rightarrow> (Inl e, upd_player r (\<lambda>p. p\<lparr>queue := q'\<rparr>) m)
               | (Inr t, q') \<Rightarrow>
                   (let m1 = upd_player r (\<lambda>p. p\<lparr>queue := q', current := Some t\<rparr>) m;
                        m2 = send (RestUpdate (player_node p) (guildId p)
                                     (UpdTrackVolume (encoded (trackObjs m ! t)) (volume p))) m1;
                        m3 = upd_player r (\<lambda>p. p\<lparr>playing := True\<rparr>) m2;
                        m4 = send (Emit (PlayerTriggeredPlay (guildId p) t)) m3
                    in (Inr True, cacheState r m4))))"

definition disconnect :: "nat \<Rightarrow> LilyManager \<Rightarrow> bool \<times> LilyManager" where
  "disconnect r m =
     (let p = playerObjs m ! r;
          m1 = send (SendPayload (guildId p) None False False) m;
          m2 = upd_player r (\<lambda>p. p\<lparr>connected := False\<rparr>) m1;
          m3 = send (Emit (PlayerDisconnected (guildId p))) m2
      in (True, cacheState r m3))"

text \<open>
  \<open>LilyPlayerManager.delete\<close> is asynchronous. Inside its caller it runs up to the REST
  \<open>destroy\<close> request it issues through the node of the registered player; the removal
  from the registry, \<open>players_delete_resume\<close>, happens when that request has been answered.
\<close>

definition players_delete :: "string \<Rightarrow> LilyManager \<Rightarrow> LilyManager" where
  "players_delete g m =
     (case map_of (players m) g of
        None \<Rightarrow> m
      | Some r \<Rightarrow> send (RestDestroy (player_node (playerObjs m ! r)) g) m)"

definition players_delete_resume :: "string \<Rightarrow> LilyManager \<Rightarrow> LilyManager" where
  "players_delete_resume g m = m\<lparr>players := AList.delete g (players m)\<rparr>"

text \<open>\<open>LilyPlayer.destroy()\<close>.\<close>

definition player_destroy :: "nat \<Rightarrow> LilyManager \<Rightarrow> bool \<times> LilyManager" where
  "player_destroy r m =
     (let m1 = (if connected (playerObjs m ! r) then snd (disconnect r m) else m);
          m2 = upd_player r (\<lambda>p. p\<lparr>queue := snd (clear (queue p))\<rparr>) m1;
          m3 = players_delete (guildId (playerObjs m2 ! r)) m2;
          m4 = invalidateCache r m3;
          m5 = send (Emit (PlayerDestroyed (guildId (playerObjs m4 ! r)))) m4
      in (True, m5))"

text \<open>
  \<open>setVolume\<close> of the first variant: \<open>validate(volume, z.number().min(1).max(100), ...)\<close>
  comes first and throws. (\<open>z.number()\<close> also rejects \<open>NaN\<close>, which is not a real.)
\<close>

definition setVolume :: "real \<Rightarrow> nat \<Rightarrow> LilyManager \<Rightarrow> (error + bool) \<times> LilyManager" where
  "setVolume v r m =
     (if \<not> (1 \<le> v \<and> v \<le> 100) then (Inl (Error ''volume is invalid''), m)
      else (let p = playerObjs m ! r;
                oldVolume = volume p;
                m1 = upd_player r (\<lambda>p. p\<lparr>volume := v\<rparr>) m;
                m2 = send (RestUpdate (player_node p) (guildId p) (UpdVolume v)) m1;
                m3 = send (Emit (PlayerChangedVolume (guildId p) oldVolume v)) m2
            in (Inr True, cacheState r m3)))"

text \<open>
  \<open>setVolume\<close> of the second variant: the bound is \<open>min(0).max(100)\<close> and the state is not
  cached.
\<close>

definition setVolume_plain :: "real \<Rightarrow> nat \<Rightarrow> LilyManager \<Rightarrow> (error + bool) \<times> LilyManager" where
  "setVolume_plain v r m =
     (if \<not> (0 \<le> v \<and> v \<le> 100) then (Inl (Error ''volume is invalid''), m)
      else (let p = playerObjs m ! r;
                oldVolume = volume p;
                m1 = upd_player r (\<lambda>p. p\<lparr>volume := v\<rparr>) m;
                m2 = send (RestUpdate (player_node p) (guildId p) (UpdVolume v)) m1;
                m3 = send (Emit (PlayerChangedVolume (guildId p) oldVolume v)) m2
            in (Inr True, m3)))"


subsection \<open>The player registry (\<open>LilyPlayerManager\<close>)\<close>

text \<open>
  The volume check of \<open>create\<close>:
  \<open>validate(config.volume, z.number().min(0).max(100).optional().default(50), ...)\<close>. Only
  the outcome of the check is used; the parsed value, and with it the default 50, is
  dropped.
\<close>

definition create_volume_valid :: "real option \<Rightarrow> bool" where
  "create_volume_valid v = (case v of None \<Rightarrow> True | Some x \<Rightarrow> 0 \<le> x \<and> x \<le> 100)"

definition players_create :: "PlayerConfig \<Rightarrow> LilyManager \<Rightarrow> (error + nat) \<times> LilyManager" where
  "players_create config m =
     (case map_of (players m) (cfg_guildId config) of
        Some r \<Rightarrow> (Inr r, m)
      | None \<Rightarrow>
          if cfg_voiceChannel config = None
          then (Inl (Error ''voiceChannelId is required''), m)
          else if cfg_textChannel config = None
          then (Inl (Error ''textChannelId is required''), m)
          else if \<not> create_volume_valid (cfg_volume config)
          then (Inl (Error ''Invalid volume value.''), m)
          else (case (case cfg_node config of
                        None \<Rightarrow> map_sum id (\<lambda>kn. identifier (snd kn)) (sortByUsage_players m)
                      | Some k \<Rightarrow>
                          if k = [] then map_sum id (\<lambda>kn. identifier (snd kn)) (sortByUsage_players m)
                          else map_sum id (\<lambda>kn. k) (nodes_get k m)) of
                  Inl e \<Rightarrow> (Inl e, m)
                | Inr k \<Rightarrow>
                    (case LilyPlayer_new (config\<lparr>cfg_node := Some k\<rparr>) m of
                       (Inl e, m') \<Rightarrow> (Inl e, m')
                     | (Inr r, m') \<Rightarrow>
                         (Inr r, m'\<lparr>players := AList.update (cfg_guildId config) r (players m')\<rparr>))))"


subsection \<open>Track-end handling (\<open>LilyNode.handleTrackEnd\<close>)\<close>

record TrackEndPayload =
  pl_track :: Track
  pl_reason :: string

definition handleFailedTrack :: "nat \<Rightarrow> LilyManager \<Rightarrow> (error + unit) \<times> LilyManager" where
  "handleFailedTrack r m =
     (if queue_size (queue (playerObjs m ! r)) \<noteq> 0
      then (case play r m of (Inl e, m') \<Rightarrow> (Inl e, m') | (Inr b, m') \<Rightarrow> (Inr (), m'))
      else (Inr (), upd_player r (\<lambda>p. p\<lparr>queue := snd (clear (queue p))\<rparr>) m))"

text \<open>
  \<open>LilyRestHandler.cacheKey\<close> of the node registered under \<open>k\<close>:
  \<open>`rest:${this.node?.identifier ?? this.node?.host}`\<close>. The node's \<open>identifier\<close> is a
  string (\<open>''\<close> by default), never \<open>undefined\<close>. The handlers below run on registered
  nodes.
\<close>

definition rest_cacheKey :: "string \<Rightarrow> LilyManager \<Rightarrow> string" where
  "rest_cacheKey k m =
     ''rest:'' @ (case map_of (nodes m) k of None \<Rightarrow> [] | Some n \<Rightarrow> identifier n)"

text \<open>
  \<open>handleTrackLoop\<close> awaits \<open>this.rest.update\<close> on the REST client of the node that
  received the event, \<open>self\<close>. Reading \<open>player.current.encoded\<close> of \<open>null\<close> throws before
  anything is sent. \<open>update\<close> sends the PATCH request; \<open>reqError\<close> is the error that
  \<open>lilyRequest\<close> reports for it, if any, which \<open>makeRequest\<close> throws. After an answered
  request \<open>update\<close> deletes the player's entry from the manager's cache, if there is a
  cache.
\<close>

definition handleTrackLoop ::
  "string \<Rightarrow> error option \<Rightarrow> nat \<Rightarrow> LilyManager \<Rightarrow> (error + unit) \<times> LilyManager" where
  "handleTrackLoop self reqError r m =
     (let p = playerObjs m ! r
      in case current p of
           None \<Rightarrow> (Inl (TypeError ''Cannot read properties of null''), m)
         | Some c \<Rightarrow>
             (let m1 = send (RestUpdate self (guildId p) (UpdTrack (encoded (trackObjs m ! c)))) m
              in case reqError of
                   Some e \<Rightarrow> (Inl e, m1)
                 | None \<Rightarrow>
                     (Inr (),
                      if has_cache m1
                      then send (CacheDeleteCall (rest_cacheKey self m1 @ '':player:''
                                                   @ guildId p)) m1
                      else m1)))"

definition handleQueueLoop :: "nat \<Rightarrow> LilyManager \<Rightarrow> (error + unit) \<times> LilyManager" where
  "handleQueueLoop r m =
     (case current (playerObjs m ! r) of
        None \<Rightarrow> (Inl (TypeError ''Cannot set properties of null''), m)
      | Some c \<Rightarrow>
          (let m1 = m\<lparr>trackObjs := (trackObjs m)[c := (trackObjs m ! c)
                                        \<lparr>track_position := 0, track_time := Some 0\<rparr>]\<rparr>;
               m2 = upd_player r (\<lambda>p. p\<lparr>queue := snd (add c (queue p))\<rparr>) m1
           in case play r m2 of (Inl e, m') \<Rightarrow> (Inl e, m') | (Inr b, m') \<Rightarrow> (Inr (), m')))"

text \<open>
  \<open>handleTrackEnd\<close>, run as one step. \<open>handleAutoPlay\<close> awaits the manager's search and
  the helpers of \<open>helpers/autoPlay\<close> and draws a random number; it is the parameter
  \<open>autoplay\<close>; \<open>reqError\<close> is the outcome of the request that \<open>handleTrackLoop\<close>
  awaits. Pushing onto a \<open>previous\<close> that is not an array throws. The payload carries
  the ended track with its \<open>info\<close>, as the protocol's \<open>TrackEndEvent\<close> does.
\<close>

definition handleTrackEnd ::
  "string \<Rightarrow> (nat \<Rightarrow> TrackEndPayload \<Rightarrow> LilyManager \<Rightarrow> (error + unit) \<times> LilyManager)
     \<Rightarrow> error option \<Rightarrow> nat \<Rightarrow> TrackEndPayload \<Rightarrow> LilyManager
     \<Rightarrow> (error + unit) \<times> LilyManager" where
  "handleTrackEnd self autoplay reqError r payload m =
     (let m1 = upd_player r (\<lambda>p. p\<lparr>playing := False, paused := False\<rparr>) m;
          p = playerObjs m1 ! r;
          t = LilyTrack_new ((pl_track payload)
                \<lparr>tr_encoded := (case current p of
                                  None \<Rightarrow> None
                                | Some c \<Rightarrow> encoded (trackObjs m1 ! c))\<rparr>);
          a = length (trackObjs m1);
          m2 = m1\<lparr>trackObjs := trackObjs m1 @ [t]\<rparr>
      in case (if previousInArray m2
               then (case previous p of
                       Many l \<Rightarrow> Inr (Many (l @ [a]))
                     | Single x \<Rightarrow> Inl (TypeError ''player.previous.push is not a function''))
               else Inr (Single (Some a))) of
           Inl e \<Rightarrow> (Inl e, m2)
         | Inr pv \<Rightarrow>
             (let m3 = upd_player r (\<lambda>p. p\<lparr>previous := pv\<rparr>) m2;
                  m4 = send (Emit (TrackEnd (guildId p) (current p) (pl_reason payload))) m3
              in if pl_reason payload \<in> set [''loadFailed'', ''cleanup'']
                 then handleFailedTrack r m4
                 else if pl_reason payload = ''replaced'' then (Inr (), m4)
                 else if loop p = TRACK then handleTrackLoop self reqError r m4
                 else if loop p = QUEUE \<and> current p \<noteq> None then handleQueueLoop r m4
                 else if queue_size (queue p) \<noteq> 0
                 then (case play r m4 of
                         (Inl e, m') \<Rightarrow> (Inl e, m')
                       | (Inr b, m') \<Rightarrow> (Inr (), m'))
                 else if autoPlay p then autoplay r payload m4
                 else if queue_size (queue p) = 0
                 then (let m5 = upd_player r (\<lambda>p. p\<lparr>current := None\<rparr>) m4;
                           m6 = send (Emit (QueueEnd (guildId p))) m5
                       in if autoLeave p then (Inr (), snd (player_destroy r m6))
                          else (Inr (), m6))
                 else (Inr (), m4)))"

text \<open>An autoplay collaborator that does nothing.\<close>

definition no_autoplay ::
  "nat \<Rightarrow> TrackEndPayload \<Rightarrow> LilyManager \<Rightarrow> (error + unit) \<times> LilyManager" where
  "no_autoplay r payload m = (Inr (), m)"

text \<open>
  A manager to try things on: the example bot's node is registered and a player has
  been created for the guild \<open>guild\<close> on it, with auto-leave set as given.
\<close>

definition example_config :: "bool \<Rightarrow> PlayerConfig" where
  "example_config leave =
     \<lparr>cfg_guildId = ''guild'', cfg_voiceChannel = Some ''voice'',
      cfg_textChannel = Some ''text'', cfg_volume = None, cfg_loop = None,
      cfg_autoPlay = Some True, cfg_autoLeave = Some leave, cfg_node = Some ''main''\<rparr>"

definition example_manager :: "bool \<Rightarrow> LilyManager" where
  "example_manager leave =
     snd (players_create (example_config leave)
            (snd (nodes_add testBot_node (LilyManager_new False None))))"

text \<open>A track and a \<open>TrackEndEvent\<close> payload to try things on.\<close>

definition example_track :: Track where
  "example_track =
     \<lparr>tr_encoded = Some ''QAAA'',
      tr_info = \<lparr>info_title = ''Song'', info_uri = Some ''https://example.org/song'',
                 info_author = ''Artist'', info_length = 180000, info_isStream = False,
                 info_isSeekable = True, info_position = 0, info_artworkUrl = None,
                 info_identifier = Some ''song'', info_isrc = None,
                 info_sourceName = Some ''youtube''\<rparr>\<rparr>"

definition example_payload :: "string \<Rightarrow> TrackEndPayload" where
  "example_payload reason = \<lparr>pl_track = example_track, pl_reason = reason\<rparr>"

text \<open>The example manager after a search result has been enqueued for its player.\<close>

definition example_manager_queued :: "bool \<Rightarrow> LilyManager" where
  "example_manager_queued leave =
     upd_player 0 (\<lambda>p. p\<lparr>queue := snd (add 0 (queue p))\<rparr>)
       ((example_manager leave)\<lparr>trackObjs := [LilyTrack_new example_track]\<rparr>)"


section \<open>Properties of the track queue\<close>

subsection \<open>The chain of nodes\<close>

lemma positions_None [simp]: "positions st None = Some []"
  by (subst positions.simps) simp

lemma positions_Some [simp]:
  "positions st (Some a) =
     Option.bind (positions st (node_next (st ! a))) (\<lambda>r. Some (a # r))"
  by (subst positions.simps) simp

lemma dll_positions: "dll st p cur as \<Longrightarrow> positions st cur = Some as"
  by (induction as arbitrary: p cur) auto

lemma dll_advance:
  "dll st p cur as \<Longrightarrow> k < length as \<Longrightarrow> advance st cur k = Inr (Some (as ! k))"
proof (induction k arbitrary: p cur as)
  case 0
  then show ?case by (cases as) auto
next
  case (Suc k)
  then show ?case by (cases as) auto
qed

lemma dll_bound: "dll st p cur as \<Longrightarrow> a \<in> set as \<Longrightarrow> a < length st"
  by (induction as arbitrary: p cur) auto

lemma dll_links_cong:
  "dll st p cur as \<Longrightarrow> length st' = length st
   \<Longrightarrow> (\<And>a. a \<in> set as \<Longrightarrow> node_next (st' ! a) = node_next (st ! a)
                          \<and> node_prev (st' ! a) = node_prev (st ! a))
   \<Longrightarrow> dll st' p cur as"
  by (induction as arbitrary: p cur) auto

lemma dll_update_other:
  "dll st p cur as \<Longrightarrow> b \<notin> set as \<Longrightarrow> dll (st[b := x]) p cur as"
  by (induction as arbitrary: p cur) auto

lemma dll_append_other:
  "dll st p cur as \<Longrightarrow> dll (st @ xs) p cur as"
  by (induction as arbitrary: p cur) (auto simp: nth_append)

lemma dll_snoc:
  "dll st p cur as \<Longrightarrow> as \<noteq> [] \<Longrightarrow> distinct as \<Longrightarrow> t = last as
   \<Longrightarrow> dll ((st @ [\<lparr>node_value = v, node_prev = Some t, node_next = None\<rparr>])
              [t := (st ! t)\<lparr>node_next := Some (length st)\<rparr>])
          p cur (as @ [length st])"
proof (induction as arbitrary: p cur)
  case Nil
  then show ?case by simp
next
  case (Cons a as)
  show ?case
  proof (cases "as = []")
    case True
    with Cons.prems show ?thesis by (auto simp: nth_append)
  next
    case False
    with Cons.prems have ta: "t \<noteq> a" and t: "t = last as" by auto
    from Cons.prems have d: "dll st (Some a) (node_next (st ! a)) as" and al: "a < length st"
      and c: "cur = Some a" and pp: "node_prev (st ! a) = p" by auto
    from Cons.IH[OF d False _ t] Cons.prems
    have "dll ((st @ [\<lparr>node_value = v, node_prev = Some t, node_next = None\<rparr>])
              [t := (st ! t)\<lparr>node_next := Some (length st)\<rparr>])
          (Some a) (node_next (st ! a)) (as @ [length st])" by simp
    with ta al c pp show ?thesis by (auto simp: nth_append)
  qed
qed

lemma queue_inv_new: "queue_inv (LilyQueue_new s)"
  by (auto simp: queue_inv_def wf_queue_def LilyQueue_new_def intro!: exI[of _ "[]"])

lemma wf_queue_add:
  assumes "wf_queue q as"
  shows "fst (add track q) \<and> wf_queue (snd (add track q)) (as @ [length (store q)])"
proof (cases "as = []")
  case True
  with assms show ?thesis
    by (auto simp: wf_queue_def add_def Let_def)
next
  case False
  with assms obtain h where h: "head q = Some h" by (cases as) (auto simp: wf_queue_def)
  from assms False have t: "tail q = Some (last as)" by (simp add: wf_queue_def)
  from assms have d: "dll (store q) None (head q) as" and di: "distinct as"
    and n: "nodeCount q = int (length as)" by (auto simp: wf_queue_def)
  have "length (store q) \<notin> set as" using dll_bound[OF d] by auto
  with dll_snoc[OF d False di refl] h t di n False show ?thesis
    by (auto simp: wf_queue_def add_def Let_def)
qed

lemma queue_inv_add: "queue_inv q \<Longrightarrow> queue_inv (snd (add track q))"
proof -
  assume "queue_inv q"
  then obtain as where w: "wf_queue q as" by (auto simp: queue_inv_def)
  have "wf_queue (snd (add track q)) (as @ [length (store q)])"
    by (rule conjunct2[OF wf_queue_add[OF w]])
  then show ?thesis unfolding queue_inv_def ..
qed

lemma wf_queue_shift:
  assumes "wf_queue q (a # as)"
  shows "fst (shift q) = Inr (node_value (store q ! a)) \<and> wf_queue (snd (shift q)) as"
proof -
  from assms have h: "head q = Some a" and d: "dll (store q) (Some a) (node_next (store q ! a)) as"
    and di: "distinct (a # as)" and n: "nodeCount q = int (length (a # as))"
    and t: "tail q = Some (last (a # as))"
    by (auto simp: wf_queue_def)
  show ?thesis
  proof (cases as)
    case Nil
    with h d n show ?thesis by (auto simp: shift_def Let_def wf_queue_def)
  next
    case (Cons b bs)
    with d have nx: "node_next (store q ! a) = Some b" and bl: "b < length (store q)"
      and d2: "dll (store q) (Some b) (node_next (store q ! b)) bs" by auto
    from di Cons have "b \<notin> set bs" by auto
    from dll_update_other[OF d2 this]
    have "dll ((store q)[b := (store q ! b)\<lparr>node_prev := None\<rparr>]) (Some b) (node_next (store q ! b)) bs" .
    with h nx bl di n t Cons show ?thesis
      by (auto simp: shift_def Let_def wf_queue_def)
  qed
qed

lemma queue_inv_shift: "queue_inv q \<Longrightarrow> queue_inv (snd (shift q))"
proof -
  assume "queue_inv q"
  then obtain as where w: "wf_queue q as" by (auto simp: queue_inv_def)
  show ?thesis
  proof (cases as)
    case Nil
    with w have "head q = None" by (simp add: wf_queue_def)
    then have "snd (shift q) = q" by (simp add: shift_def)
    with \<open>queue_inv q\<close> show ?thesis by simp
  next
    case (Cons a as')
    with w have "wf_queue q (a # as')" by simp
    then have "wf_queue (snd (shift q)) as'" by (rule conjunct2[OF wf_queue_shift])
    then show ?thesis unfolding queue_inv_def ..
  qed
qed

lemma queue_inv_clear: "queue_inv (snd (clear q))"
  by (auto simp: queue_inv_def wf_queue_def clear_def intro!: exI[of _ "[]"])

subsection \<open>Shuffling\<close>

lemma swap_values_length [simp]: "length (swap_values a b st) = length st"
  by (simp add: swap_values_def Let_def)

lemma nth_update_value_next:
  "node_next (st[a := (st ! a)\<lparr>node_value := v\<rparr>] ! c) = node_next (st ! c)"
proof (cases "a < length st")
  case True
  then show ?thesis by (simp add: nth_list_update)
next
  case False
  then have "st[a := (st ! a)\<lparr>node_value := v\<rparr>] = st"
    by (intro list_update_beyond) simp
  then show ?thesis by (simp only:)
qed

lemma nth_update_value_prev:
  "node_prev (st[a := (st ! a)\<lparr>node_value := v\<rparr>] ! c) = node_prev (st ! c)"
proof (cases "a < length st")
  case True
  then show ?thesis by (simp add: nth_list_update)
next
  case False
  then have "st[a := (st ! a)\<lparr>node_value := v\<rparr>] = st"
    by (intro list_update_beyond) simp
  then show ?thesis by (simp only:)
qed

lemma swap_values_links [simp]:
  "node_next (swap_values a b st ! c) = node_next (st ! c)"
  "node_prev (swap_values a b st ! c) = node_prev (st ! c)"
  by (simp_all only: swap_values_def Let_def nth_update_value_next nth_update_value_prev)

lemma swap_values_value:
  "a < length st \<Longrightarrow> b < length st \<Longrightarrow> c < length st \<Longrightarrow>
   node_value (swap_values a b st ! c) =
     (if c = b then node_value (st ! a) else if c = a then node_value (st ! b)
      else node_value (st ! c))"
  by (simp add: swap_values_def Let_def nth_list_update)

lemma swap_values_mset:
  assumes "distinct ps" "a \<in> set ps" "b \<in> set ps" "\<forall>x \<in> set ps. x < length st"
  shows "mset (map (\<lambda>x. node_value (swap_values a b st ! x)) ps)
       = mset (map (\<lambda>x. node_value (st ! x)) ps)"
proof (cases "a = b")
  case True
  have "map (\<lambda>x. node_value (swap_values a b st ! x)) ps = map (\<lambda>x. node_value (st ! x)) ps"
    using assms True by (intro map_cong) (auto simp: swap_values_value)
  then show ?thesis by (simp only:)
next
  case False
  define f where "f = (\<lambda>x. node_value (st ! x))"
  define g where "g = (\<lambda>x. node_value (swap_values a b st ! x))"
  define R where "R = mset ps - {#a#} - {#b#}"
  have "b \<in># mset ps - {#a#}"
    using assms False by (simp add: in_diff_count)
  then have "add_mset b R = mset ps - {#a#}"
    unfolding R_def by (rule insert_DiffM)
  moreover have "add_mset a (mset ps - {#a#}) = mset ps"
    using assms by (intro insert_DiffM) simp
  ultimately have ps: "mset ps = add_mset a (add_mset b R)" by simp
  have c1: "count (mset ps) a = 1" "count (mset ps) b = 1"
    using assms by (simp_all add: distinct_count_atmost_1)
  have "count R a = 0" "count R b = 0"
    using c1 False by (simp_all add: R_def)
  then have nin: "a \<notin># R" "b \<notin># R"
    by (simp_all add: not_in_iff)
  have sub: "set_mset R \<subseteq> set ps"
    by (auto simp: R_def dest!: in_diffD)
  have gR: "image_mset g R = image_mset f R"
  proof (rule image_mset_cong)
    fix x assume "x \<in># R"
    with nin sub assms show "g x = f x"
      by (auto simp: g_def f_def swap_values_value)
  qed
  have ga: "g a = f b" and gb: "g b = f a"
    using assms False by (auto simp: g_def f_def swap_values_value)
  have "mset (map g ps) = image_mset g (mset ps)" by simp
  also have "\<dots> = add_mset (f b) (add_mset (f a) (image_mset f R))"
    by (simp add: ps ga gb gR)
  also have "\<dots> = image_mset f (mset ps)" by (simp add: ps)
  finally show ?thesis by (simp add: f_def g_def)
qed

lemma if_swap_length:
  "length (if c then swap_values a b st else st) = length st"
  by simp

lemma if_swap_links:
  "node_next ((if c then swap_values a b st else st) ! x) = node_next (st ! x)"
  "node_prev ((if c then swap_values a b st else st) ! x) = node_prev (st ! x)"
  by simp_all

lemma if_swap_mset:
  assumes "distinct ps" "a \<in> set ps" "b \<in> set ps" "\<forall>x \<in> set ps. x < length st"
  shows "mset (map (\<lambda>x. node_value ((if c then swap_values a b st else st) ! x)) ps)
       = mset (map (\<lambda>x. node_value (st ! x)) ps)"
  using swap_values_mset[OF assms] by simp

lemma shuffle_loop_Suc:
  "shuffle_loop rnd ps (Suc k) st =
     shuffle_loop rnd ps k
       (if Suc k \<noteq> rnd (Suc k) mod (Suc k + 1)
        then swap_values (ps ! Suc k) (ps ! (rnd (Suc k) mod (Suc k + 1))) st else st)"
  by (simp only: shuffle_loop.simps Let_def)

lemma shuffle_loop_length: "length (shuffle_loop rnd ps k st) = length st"
proof (induction k arbitrary: st)
  case 0
  show ?case by simp
next
  case (Suc k)
  show ?case by (simp only: shuffle_loop_Suc Suc.IH if_swap_length)
qed

lemma shuffle_loop_links:
  "node_next (shuffle_loop rnd ps k st ! c) = node_next (st ! c)"
  "node_prev (shuffle_loop rnd ps k st ! c) = node_prev (st ! c)"
proof (induction k arbitrary: st)
  case 0
  { case 1 show ?case by simp }
  { case 2 show ?case by simp }
next
  case (Suc k)
  { case 1 show ?case by (simp only: shuffle_loop_Suc Suc.IH if_swap_links) }
  { case 2 show ?case by (simp only: shuffle_loop_Suc Suc.IH if_swap_links) }
qed

lemma shuffle_loop_mset:
  "distinct ps \<Longrightarrow> k < length ps \<Longrightarrow> \<forall>x \<in> set ps. x < length st \<Longrightarrow>
   mset (map (\<lambda>x. node_value (shuffle_loop rnd ps k st ! x)) ps)
     = mset (map (\<lambda>x. node_value (st ! x)) ps)"
proof (induction k arbitrary: st)
  case 0
  then show ?case by simp
next
  case (Suc k)
  let ?j = "rnd (Suc k) mod (Suc k + 1)"
  let ?c = "Suc k \<noteq> ?j"
  have "?j < Suc (Suc k)" by simp
  then have j: "?j < length ps" using Suc.prems(2) by linarith
  let ?st = "if ?c then swap_values (ps ! Suc k) (ps ! ?j) st else st"
  have len: "\<forall>x \<in> set ps. x < length ?st"
    using Suc.prems(3) by (simp only: if_swap_length)
  have mem: "ps ! Suc k \<in> set ps" "ps ! ?j \<in> set ps"
    using Suc.prems(2) j by (simp_all only: nth_mem)
  have k: "k < length ps" using Suc.prems(2) by simp
  have "mset (map (\<lambda>x. node_value (shuffle_loop rnd ps k ?st ! x)) ps)
       = mset (map (\<lambda>x. node_value (?st ! x)) ps)"
    by (rule Suc.IH[OF Suc.prems(1) k len])
  also have "\<dots> = mset (map (\<lambda>x. node_value (st ! x)) ps)"
    by (rule if_swap_mset[OF Suc.prems(1) mem Suc.prems(3)])
  finally show ?case by (simp only: shuffle_loop_Suc)
qed

lemma values_spread_values: "values_spread deref q = map_option (map deref) (values q)"
  by (simp add: values_spread_def values_def option.map_comp comp_def)

lemma wf_queue_values:
  "wf_queue q as \<Longrightarrow> values q = Some (map (\<lambda>a. node_value (store q ! a)) as)"
proof -
  assume "wf_queue q as"
  then have "dll (store q) None (head q) as" by (simp add: wf_queue_def)
  then have "positions (store q) (head q) = Some as" by (rule dll_positions)
  then show ?thesis by (simp add: values_def)
qed

subsection \<open>Position addressing\<close>

lemma iterations_guarded:
  "\<not> num_lt x (Num 0) \<Longrightarrow> \<not> num_ge x (Num n) \<Longrightarrow> iterations x \<noteq> None"
  by (cases x) (simp_all add: num_ge_def)

lemma LilyQueue_new_startIndex:
  "startIndex (LilyQueue_new c) = Math_max (Num 0) c"
  "getStartIndex (setStartIndex c q) = Math_max (Num 0) c"
  by (simp_all add: LilyQueue_new_def setStartIndex_def getStartIndex_def)

lemma Math_max_Num: "Math_max (Num 0) (Num c) = Num (max 0 c)"
  by (simp add: Math_max_def max_def)

lemma startIndex_kept:
  "startIndex (snd (add t q)) = startIndex q"
  "startIndex (snd (shift q)) = startIndex q"
  "startIndex (snd (clear q)) = startIndex q"
  by (simp_all add: add_def shift_def clear_def Let_def split: option.splits)

lemma num_sub_zero: "num_sub pos (Num 0) = pos"
  by (cases pos) simp_all

lemma get_plain_eq_get: "startIndex q = Num 0 \<Longrightarrow> get_plain pos q = get pos q"
  by (simp add: get_plain_def get_def num_sub_zero)

lemma wf_queue_get:
  assumes w: "wf_queue q as" and s: "startIndex q = Num s" and k: "k < length as"
  shows "get (Num (s + real k)) q = Inr (node_value (store q ! (as ! k)))"
proof -
  from w have d: "dll (store q) None (head q) as" and n: "nodeCount q = int (length as)"
    by (auto simp: wf_queue_def)
  have c: "nat \<lceil>real k\<rceil> = k" by simp
  from k have "real k < real (length as)" by simp
  with dll_advance[OF d k] s n c show ?thesis by (simp add: get_def num_ge_def)
qed

lemma get_out_of_bounds:
  assumes s: "startIndex q = Num s" and p: "pos \<noteq> NaN"
    and o: "\<not> (num_ge pos (Num s) \<and> num_lt pos (Num (s + real_of_int (nodeCount q))))"
  shows "get pos q = Inl (Error ''Position out of bounds'')"
  using assms by (cases pos) (auto simp: get_def num_ge_def)

lemma get_NaN:
  "get NaN q = (case head q of
                  None \<Rightarrow> Inl (TypeError ''Cannot read properties of null'')
                | Some a \<Rightarrow> Inr (node_value (store q ! a)))"
  by (simp add: get_def num_ge_def split: option.splits)

text \<open>
  Claim C3 as stated fails on the code in three ways. The constructor stores
  \<open>Math.max(0, queueStartIndex)\<close>, so with a configured start index \<open>-5\<close> the position
  \<open>-5\<close>, the first of the range \<open>[s, s+n)\<close>, is out of bounds. \<open>NaN\<close>, which lies in
  no range, passes the guard and yields the head. The fraction \<open>1.5\<close> lies in \<open>[0, 2)\<close>
  but makes the loop step twice, off a chain of two nodes, in either queue. And after a
  configured start index \<open>NaN\<close> every position yields the head.
\<close>

theorem get_position_counterexample:
  "get (Num (- 5)) (snd (add ''t1'' (LilyQueue_new (Num (- 5)))))
     = Inl (Error ''Position out of bounds'')
   \<and> get NaN (snd (add ''t2'' (snd (add ''t1'' (LilyQueue_new (Num 1)))))) = Inr ''t1''
   \<and> get (Num (3 / 2)) (snd (add ''t2'' (snd (add ''t1'' (LilyQueue_new (Num 0))))))
     = Inl (TypeError ''Cannot read properties of null'')
   \<and> get_plain (Num (3 / 2)) (snd (add ''t2'' (snd (add ''t1'' (LilyQueue_new (Num 0))))))
     = Inl (TypeError ''Cannot read properties of null'')
   \<and> get (Num 7) (snd (add ''t1'' (LilyQueue_new NaN))) = Inr ''t1''"
  by (simp add: get_def get_plain_def add_def LilyQueue_new_def Math_max_def num_ge_def Let_def
        eval_nat_numeral)

text \<open>
  Claim C3, amended. Take a well-formed queue whose start index was configured as a
  finite number \<open>c\<close>, so that it stores \<open>s = max(0, c)\<close>, and that holds the \<open>n\<close> tracks
  \<open>vs\<close> (\<open>values q\<close> lists them from the head). For every \<open>k < n\<close>, \<open>get(s + k)\<close> returns
  the track at offset \<open>k\<close>: these are the positions \<open>pos\<close> of \<open>[s, s+n)\<close> for which
  \<open>pos - s\<close> is a whole number. For every \<open>pos\<close> other than \<open>NaN\<close> that is not in
  \<open>[s, s+n)\<close>, fractions and the infinities included, \<open>get(pos)\<close> fails with the error
  "Position out of bounds". The queue of \<open>src/models/queue.ts\<close> does the same with
  \<open>s = 0\<close>. In particular, with start index 1 after \<open>add(t1); add(t2)\<close>: \<open>get(1) = t1\<close>,
  \<open>get(2) = t2\<close>, and \<open>get(0)\<close> and \<open>get(3)\<close> both fail.
\<close>

theorem get_position_addressing:
  assumes "queue_inv q" and "startIndex q = Math_max (Num 0) (Num c)"
  shows "(\<exists>vs. values q = Some vs \<and> int (length vs) = queue_size q
           \<and> (\<forall>k<length vs. get (Num (max 0 c + real k)) q = Inr (vs ! k)
                            \<and> get_plain (Num (real k)) q = Inr (vs ! k))
           \<and> (\<forall>pos. pos \<noteq> NaN \<longrightarrow>
                  (\<not> (num_ge pos (Num (max 0 c))
                       \<and> num_lt pos (Num (max 0 c + real (length vs))))
                     \<longrightarrow> get pos q = Inl (Error ''Position out of bounds''))
                \<and> (\<not> (num_ge pos (Num 0) \<and> num_lt pos (Num (real (length vs))))
                     \<longrightarrow> get_plain pos q = Inl (Error ''Position out of bounds''))))
       \<and> (\<forall>t1 t2. get (Num 1) (snd (add t2 (snd (add t1 (LilyQueue_new (Num 1)))))) = Inr t1
                \<and> get (Num 2) (snd (add t2 (snd (add t1 (LilyQueue_new (Num 1)))))) = Inr t2
                \<and> get (Num 0) (snd (add t2 (snd (add t1 (LilyQueue_new (Num 1))))))
                    = Inl (Error ''Position out of bounds'')
                \<and> get (Num 3) (snd (add t2 (snd (add t1 (LilyQueue_new (Num 1))))))
                    = Inl (Error ''Position out of bounds''))"
proof (intro conjI)
  from assms obtain as where w: "wf_queue q as" by (auto simp: queue_inv_def)
  let ?vs = "map (\<lambda>a. node_value (store q ! a)) as"
  let ?q0 = "q\<lparr>startIndex := Num 0\<rparr>"
  have n: "nodeCount q = int (length as)" using w by (simp add: wf_queue_def)
  have s: "startIndex q = Num (max 0 c)" using assms(2) by (simp add: Math_max_Num)
  have w0: "wf_queue ?q0 as" using w by (simp add: wf_queue_def)
  have pl: "get_plain pos q = get pos ?q0" for pos
    by (simp add: get_plain_def get_def num_sub_zero split: option.splits sum.splits)
  have "values q = Some ?vs" by (rule wf_queue_values[OF w])
  moreover have "int (length ?vs) = queue_size q" by (simp add: queue_size_def n)
  moreover have "\<forall>k<length ?vs. get (Num (max 0 c + real k)) q = Inr (?vs ! k)
                            \<and> get_plain (Num (real k)) q = Inr (?vs ! k)"
  proof (intro allI impI conjI)
    fix k assume "k < length ?vs"
    then have k: "k < length as" by simp
    from wf_queue_get[OF w s k] k show "get (Num (max 0 c + real k)) q = Inr (?vs ! k)"
      by simp
    from wf_queue_get[OF w0 _ k, of 0] k show "get_plain (Num (real k)) q = Inr (?vs ! k)"
      by (simp add: pl)
  qed
  moreover have "\<forall>pos. pos \<noteq> NaN \<longrightarrow>
                  (\<not> (num_ge pos (Num (max 0 c))
                       \<and> num_lt pos (Num (max 0 c + real (length ?vs))))
                     \<longrightarrow> get pos q = Inl (Error ''Position out of bounds''))
                \<and> (\<not> (num_ge pos (Num 0) \<and> num_lt pos (Num (real (length ?vs))))
                     \<longrightarrow> get_plain pos q = Inl (Error ''Position out of bounds''))"
  proof (intro allI impI conjI)
    fix pos assume p: "pos \<noteq> NaN"
      and "\<not> (num_ge pos (Num (max 0 c)) \<and> num_lt pos (Num (max 0 c + real (length ?vs))))"
    then show "get pos q = Inl (Error ''Position out of bounds'')"
      by (intro get_out_of_bounds[OF s p]) (simp add: n)
  next
    fix pos assume p: "pos \<noteq> NaN"
      and "\<not> (num_ge pos (Num 0) \<and> num_lt pos (Num (real (length ?vs))))"
    then have "get pos ?q0 = Inl (Error ''Position out of bounds'')"
      by (intro get_out_of_bounds[OF _ p, of _ 0]) (simp_all add: n)
    then show "get_plain pos q = Inl (Error ''Position out of bounds'')" by (simp add: pl)
  qed
  ultimately show "\<exists>vs. values q = Some vs \<and> int (length vs) = queue_size q
           \<and> (\<forall>k<length vs. get (Num (max 0 c + real k)) q = Inr (vs ! k)
                            \<and> get_plain (Num (real k)) q = Inr (vs ! k))
           \<and> (\<forall>pos. pos \<noteq> NaN \<longrightarrow>
                  (\<not> (num_ge pos (Num (max 0 c))
                       \<and> num_lt pos (Num (max 0 c + real (length vs))))
                     \<longrightarrow> get pos q = Inl (Error ''Position out of bounds''))
                \<and> (\<not> (num_ge pos (Num 0) \<and> num_lt pos (Num (real (length vs))))
                     \<longrightarrow> get_plain pos q = Inl (Error ''Position out of bounds'')))"
    by blast
next
  show "\<forall>t1 t2. get (Num 1) (snd (add t2 (snd (add t1 (LilyQueue_new (Num 1)))))) = Inr t1
                \<and> get (Num 2) (snd (add t2 (snd (add t1 (LilyQueue_new (Num 1)))))) = Inr t2
                \<and> get (Num 0) (snd (add t2 (snd (add t1 (LilyQueue_new (Num 1))))))
                    = Inl (Error ''Position out of bounds'')
                \<and> get (Num 3) (snd (add t2 (snd (add t1 (LilyQueue_new (Num 1))))))
                    = Inl (Error ''Position out of bounds'')"
    by (simp add: get_def add_def LilyQueue_new_def Math_max_def num_ge_def Let_def)
qed

theorem get_position_addressing_witness:
  "queue_inv (snd (add ''t2'' (snd (add ''t1'' (LilyQueue_new (Num 1))))))
   \<and> startIndex (snd (add ''t2'' (snd (add ''t1'' (LilyQueue_new (Num 1))))))
       = Math_max (Num 0) (Num 1)
   \<and> values (snd (add ''t2'' (snd (add ''t1'' (LilyQueue_new (Num 1)))))) = Some [''t1'', ''t2'']
   \<and> get (Num 1) (snd (add ''t2'' (snd (add ''t1'' (LilyQueue_new (Num 1)))))) = Inr ''t1''
   \<and> get (Num 2) (snd (add ''t2'' (snd (add ''t1'' (LilyQueue_new (Num 1)))))) = Inr ''t2''
   \<and> get_plain (Num 0) (snd (add ''t2'' (snd (add ''t1'' (LilyQueue_new (Num 1)))))) = Inr ''t1''
   \<and> get_plain (Num 1) (snd (add ''t2'' (snd (add ''t1'' (LilyQueue_new (Num 1)))))) = Inr ''t2''
   \<and> get (Num 0) (snd (add ''t2'' (snd (add ''t1'' (LilyQueue_new (Num 1))))))
        = Inl (Error ''Position out of bounds'')
   \<and> get (Num 3) (snd (add ''t2'' (snd (add ''t1'' (LilyQueue_new (Num 1))))))
        = Inl (Error ''Position out of bounds'')
   \<and> get (Num (1 / 2)) (snd (add ''t2'' (snd (add ''t1'' (LilyQueue_new (Num 1))))))
        = Inl (Error ''Position out of bounds'')
   \<and> get Infinity (snd (add ''t2'' (snd (add ''t1'' (LilyQueue_new (Num 1))))))
        = Inl (Error ''Position out of bounds'')
   \<and> get_plain (Num 2) (snd (add ''t2'' (snd (add ''t1'' (LilyQueue_new (Num 1))))))
        = Inl (Error ''Position out of bounds'')
   \<and> queue_inv (snd (add ''t1'' (LilyQueue_new (Num (- 5)))))
   \<and> startIndex (snd (add ''t1'' (LilyQueue_new (Num (- 5))))) = Math_max (Num 0) (Num (- 5))
   \<and> get (Num 0) (snd (add ''t1'' (LilyQueue_new (Num (- 5))))) = Inr ''t1''
   \<and> get (Num (- 5)) (snd (add ''t1'' (LilyQueue_new (Num (- 5)))))
        = Inl (Error ''Position out of bounds'')"
proof -
  let ?q = "snd (add ''t2'' (snd (add ''t1'' (LilyQueue_new (Num 1)))))"
  let ?p = "snd (add ''t1'' (LilyQueue_new (Num (- 5))))"
  have inv: "queue_inv ?q" by (intro queue_inv_add queue_inv_new)
  have st: "startIndex ?q = Math_max (Num 0) (Num 1)"
    by (simp only: startIndex_kept LilyQueue_new_startIndex)
  have v: "values ?q = Some [''t1'', ''t2'']"
    by (simp add: values_def add_def LilyQueue_new_def Let_def)
  from get_position_addressing[OF inv st] v
  have k: "\<forall>k<length [''t1'', ''t2''].
             get (Num (max 0 1 + real k)) ?q = Inr ([''t1'', ''t2''] ! k)
           \<and> get_plain (Num (real k)) ?q = Inr ([''t1'', ''t2''] ! k)"
    and o: "\<forall>pos. pos \<noteq> NaN \<longrightarrow>
               (\<not> (num_ge pos (Num (max 0 1))
                    \<and> num_lt pos (Num (max 0 1 + real (length [''t1'', ''t2'']))))
                  \<longrightarrow> get pos ?q = Inl (Error ''Position out of bounds''))
             \<and> (\<not> (num_ge pos (Num 0) \<and> num_lt pos (Num (real (length [''t1'', ''t2'']))))
                  \<longrightarrow> get_plain pos ?q = Inl (Error ''Position out of bounds''))"
    by auto
  from k[rule_format, of 0] have g1: "get (Num 1) ?q = Inr ''t1''"
    and p0: "get_plain (Num 0) ?q = Inr ''t1''" by simp_all
  from k[rule_format, of 1] have g2: "get (Num 2) ?q = Inr ''t2''"
    and p1: "get_plain (Num 1) ?q = Inr ''t2''" by simp_all
  from o[rule_format, of "Num 0"] have e0: "get (Num 0) ?q = Inl (Error ''Position out of bounds'')"
    by (simp add: num_ge_def)
  from o[rule_format, of "Num 3"] have e3: "get (Num 3) ?q = Inl (Error ''Position out of bounds'')"
    by (simp add: num_ge_def)
  from o[rule_format, of "Num (1 / 2)"]
  have eh: "get (Num (1 / 2)) ?q = Inl (Error ''Position out of bounds'')"
    by (simp add: num_ge_def)
  from o[rule_format, of Infinity]
  have ei: "get Infinity ?q = Inl (Error ''Position out of bounds'')"
    by (simp add: num_ge_def)
  from o[rule_format, of "Num 2"]
  have e2: "get_plain (Num 2) ?q = Inl (Error ''Position out of bounds'')"
    by (simp add: num_ge_def)
  have inv': "queue_inv ?p" by (intro queue_inv_add queue_inv_new)
  have st': "startIndex ?p = Math_max (Num 0) (Num (- 5))"
    by (simp only: startIndex_kept LilyQueue_new_startIndex)
  have v': "values ?p = Some [''t1'']"
    by (simp add: values_def add_def LilyQueue_new_def Let_def)
  from get_position_addressing[OF inv' st'] v'
  have k': "\<forall>k<length [''t1'']. get (Num (max 0 (- 5) + real k)) ?p = Inr ([''t1''] ! k)
           \<and> get_plain (Num (real k)) ?p = Inr ([''t1''] ! k)"
    and o': "\<forall>pos. pos \<noteq> NaN \<longrightarrow>
               (\<not> (num_ge pos (Num (max 0 (- 5)))
                    \<and> num_lt pos (Num (max 0 (- 5) + real (length [''t1'']))))
                  \<longrightarrow> get pos ?p = Inl (Error ''Position out of bounds''))
             \<and> (\<not> (num_ge pos (Num 0) \<and> num_lt pos (Num (real (length [''t1'']))))
                  \<longrightarrow> get_plain pos ?p = Inl (Error ''Position out of bounds''))"
    by auto
  from k'[rule_format, of 0] have c0: "get (Num 0) ?p = Inr ''t1''" by simp
  from o'[rule_format, of "Num (- 5)"]
  have c5: "get (Num (- 5)) ?p = Inl (Error ''Position out of bounds'')"
    by (simp add: num_ge_def)
  from inv st v g1 g2 p0 p1 e0 e3 eh ei e2 inv' st' c0 c5 show ?thesis
    by (intro conjI) (simp_all only:)
qed

subsection \<open>Shuffle is a permutation of node contents\<close>

lemma wf_queue_shuffle_store:
  assumes w: "wf_queue q as"
  shows "wf_queue (q\<lparr>store := shuffle_loop rnd as k (store q)\<rparr>) as"
proof -
  from w have d: "dll (store q) None (head q) as" by (simp add: wf_queue_def)
  have "dll (shuffle_loop rnd as k (store q)) None (head q) as"
    by (rule dll_links_cong[OF d]) (simp_all only: shuffle_loop_length shuffle_loop_links simp_thms)
  with w show ?thesis by (simp add: wf_queue_def)
qed

lemma wf_queue_shuffle_mset:
  assumes w: "wf_queue q as" and k: "k < length as"
  shows "mset (map (\<lambda>a. node_value (shuffle_loop rnd as k (store q) ! a)) as)
       = mset (map (\<lambda>a. node_value (store q ! a)) as)"
proof -
  from w have d: "dll (store q) None (head q) as" and di: "distinct as"
    by (simp_all add: wf_queue_def)
  have b: "\<forall>x \<in> set as. x < length (store q)" using dll_bound[OF d] by blast
  show ?thesis by (rule shuffle_loop_mset[OF di k b])
qed

text \<open>
  Claim C5. On a well-formed queue, \<open>shuffle\<close> with fewer than two tracks throws (the
  queue with a start index) or returns \<open>true\<close> (the plain queue) and leaves the queue as
  it was. With two or more tracks it returns, and it exchanges node contents only: no
  \<open>next\<close> or \<open>prev\<close> link, \<open>head\<close>, \<open>tail\<close> or store size changes, the multiset of
  the tracks listed by \<open>values\<close> is the same, and so are the size and the membership
  index \<open>tracks\<close>. This holds for every source of random draws \<open>rnd\<close>.
\<close>

theorem shuffle_permutes_node_contents:
  assumes "queue_inv q"
  shows "(queue_size q < 2 \<longrightarrow>
            shuffle rnd q = Some (Inl (Error ''There must be at least 2 songs in queue!''), q)
          \<and> shuffle_plain rnd q = Some (True, q))
       \<and> (2 \<le> queue_size q \<longrightarrow>
            (\<exists>q' vs vs'.
                shuffle rnd q = Some (Inr True, q') \<and> shuffle_plain rnd q = Some (True, q')
              \<and> values q = Some vs \<and> values q' = Some vs' \<and> mset vs' = mset vs
              \<and> queue_size q' = queue_size q \<and> tracks q' = tracks q
              \<and> head q' = head q \<and> tail q' = tail q \<and> startIndex q' = startIndex q
              \<and> length (store q') = length (store q)
              \<and> (\<forall>a. node_next (store q' ! a) = node_next (store q ! a)
                     \<and> node_prev (store q' ! a) = node_prev (store q ! a))
              \<and> queue_inv q'))"
proof (intro conjI impI)
  assume "queue_size q < 2"
  then show "shuffle rnd q = Some (Inl (Error ''There must be at least 2 songs in queue!''), q)"
    by (simp add: shuffle_def queue_size_def)
next
  assume "queue_size q < 2"
  then show "shuffle_plain rnd q = Some (True, q)"
    by (simp add: shuffle_plain_def queue_size_def)
next
  assume two: "2 \<le> queue_size q"
  from assms obtain as where w: "wf_queue q as" by (auto simp: queue_inv_def)
  from w have d: "dll (store q) None (head q) as" and n: "nodeCount q = int (length as)"
    by (simp_all add: wf_queue_def)
  have pos: "positions (store q) (head q) = Some as" by (rule dll_positions[OF d])
  from two n have k: "length as - 1 < length as" by (simp add: queue_size_def)
  define q' where "q' = q\<lparr>store := shuffle_loop rnd as (length as - 1) (store q)\<rparr>"
  have w': "wf_queue q' as" unfolding q'_def by (rule wf_queue_shuffle_store[OF w])
  have s1: "shuffle rnd q = Some (Inr True, q')"
    using two pos by (simp add: shuffle_def queue_size_def q'_def)
  have s2: "shuffle_plain rnd q = Some (True, q')"
    using two pos by (simp add: shuffle_plain_def queue_size_def q'_def)
  have v: "values q = Some (map (\<lambda>a. node_value (store q ! a)) as)"
    by (rule wf_queue_values[OF w])
  have v': "values q' = Some (map (\<lambda>a. node_value (store q' ! a)) as)"
    by (rule wf_queue_values[OF w'])
  have m: "mset (map (\<lambda>a. node_value (store q' ! a)) as)
         = mset (map (\<lambda>a. node_value (store q ! a)) as)"
    using wf_queue_shuffle_mset[OF w k, of rnd] by (simp add: q'_def)
  have f: "queue_size q' = queue_size q" "tracks q' = tracks q" "head q' = head q"
          "tail q' = tail q" "startIndex q' = startIndex q"
    by (simp_all add: q'_def queue_size_def)
  have l: "length (store q') = length (store q)"
    by (simp add: q'_def shuffle_loop_length)
  have lk: "\<forall>a. node_next (store q' ! a) = node_next (store q ! a)
              \<and> node_prev (store q' ! a) = node_prev (store q ! a)"
    by (simp add: q'_def shuffle_loop_links)
  have i: "queue_inv q'" unfolding queue_inv_def using w' ..
  from s1 s2 v v' m f l lk i
  show "\<exists>q' vs vs'.
                shuffle rnd q = Some (Inr True, q') \<and> shuffle_plain rnd q = Some (True, q')
              \<and> values q = Some vs \<and> values q' = Some vs' \<and> mset vs' = mset vs
              \<and> queue_size q' = queue_size q \<and> tracks q' = tracks q
              \<and> head q' = head q \<and> tail q' = tail q \<and> startIndex q' = startIndex q
              \<and> length (store q') = length (store q)
              \<and> (\<forall>a. node_next (store q' ! a) = node_next (store q ! a)
                     \<and> node_prev (store q' ! a) = node_prev (store q ! a))
              \<and> queue_inv q'"
    by (intro exI[of _ q'] exI[of _ "map (\<lambda>a. node_value (store q ! a)) as"]
              exI[of _ "map (\<lambda>a. node_value (store q' ! a)) as"] conjI) 
qed

theorem shuffle_permutes_node_contents_witness:
  "queue_inv (snd (add ''a'' (LilyQueue_new (Num 0))))
   \<and> queue_size (snd (add ''a'' (LilyQueue_new (Num 0)))) < 2
   \<and> shuffle (\<lambda>i. 0) (snd (add ''a'' (LilyQueue_new (Num 0))))
       = Some (Inl (Error ''There must be at least 2 songs in queue!''),
               snd (add ''a'' (LilyQueue_new (Num 0))))
   \<and> shuffle_plain (\<lambda>i. 0) (snd (add ''a'' (LilyQueue_new (Num 0))))
       = Some (True, snd (add ''a'' (LilyQueue_new (Num 0))))
   \<and> queue_inv (snd (add ''c'' (snd (add ''b'' (snd (add ''a'' (LilyQueue_new (Num 0))))))))
   \<and> 2 \<le> queue_size (snd (add ''c'' (snd (add ''b'' (snd (add ''a'' (LilyQueue_new (Num 0))))))))
   \<and> (\<exists>q' vs'.
         shuffle (\<lambda>i. 0) (snd (add ''c'' (snd (add ''b'' (snd (add ''a'' (LilyQueue_new (Num 0))))))))
           = Some (Inr True, q')
       \<and> values q' = Some vs' \<and> mset vs' = mset [''a'', ''b'', ''c''])
   \<and> map_option (\<lambda>r. values (snd r))
         (shuffle (\<lambda>i. 0) (snd (add ''c'' (snd (add ''b'' (snd (add ''a'' (LilyQueue_new (Num 0)))))))))
       = Some (Some [''b'', ''c'', ''a''])"
proof -
  let ?q1 = "snd (add ''a'' (LilyQueue_new (Num 0))) :: string LilyQueue"
  let ?q3 = "snd (add ''c'' (snd (add ''b'' (snd (add ''a'' (LilyQueue_new (Num 0))))))) :: string LilyQueue"
  have i1: "queue_inv ?q1" by (intro queue_inv_add queue_inv_new)
  have i3: "queue_inv ?q3" by (intro queue_inv_add queue_inv_new)
  have n1: "queue_size ?q1 < 2" by (simp add: queue_size_def add_def LilyQueue_new_def Let_def)
  have n3: "2 \<le> queue_size ?q3" by (simp add: queue_size_def add_def LilyQueue_new_def Let_def)
  have v3: "values ?q3 = Some [''a'', ''b'', ''c'']"
    by (simp add: values_def add_def LilyQueue_new_def Let_def)
  note t1 = shuffle_permutes_node_contents[OF i1, of "\<lambda>i. 0", THEN conjunct1, rule_format, OF n1]
  note t3 = shuffle_permutes_node_contents[OF i3, of "\<lambda>i. 0", THEN conjunct2, rule_format, OF n3]
  from t3 v3 have e: "\<exists>q' vs'. shuffle (\<lambda>i. 0) ?q3 = Some (Inr True, q')
       \<and> values q' = Some vs' \<and> mset vs' = mset [''a'', ''b'', ''c'']"
    by (elim exE conjE) (intro exI conjI, assumption, assumption, simp)
  have c: "map_option (\<lambda>r. values (snd r)) (shuffle (\<lambda>i. 0) ?q3) = Some (Some [''b'', ''c'', ''a''])"
    by (simp add: shuffle_def values_def add_def LilyQueue_new_def Let_def swap_values_def
                  numeral_2_eq_2)
  from i1 n1 t1 i3 n3 e c show ?thesis by (intro conjI) (simp_all only:)
qed

subsection \<open>The membership index and duplicates\<close>

text \<open>
  Claim C9. The membership index is keyed by track identity, not by position: after
  adding the same track twice to a new queue and calling \<open>shift()\<close> once (which returns
  that track), \<open>has(track)\<close> is \<open>false\<close> although the queue still has size 1 and
  \<open>values\<close> still lists the track.
\<close>

theorem has_disagrees_with_contents_for_duplicates:
  "fst (shift (snd (add t (snd (add t (LilyQueue_new s)))))) = Inr t
   \<and> has t (snd (shift (snd (add t (snd (add t (LilyQueue_new s))))))) = False
   \<and> queue_size (snd (shift (snd (add t (snd (add t (LilyQueue_new s))))))) = 1
   \<and> values (snd (shift (snd (add t (snd (add t (LilyQueue_new s))))))) = Some [t]"
  by (simp add: shift_def add_def LilyQueue_new_def has_def queue_size_def values_def Let_def)


section \<open>Properties of the cache adapters\<close>

lemma map_of_update_same: "map_of (AList.update k v al) k = Some v"
  by (simp add: update_conv')

lemma map_of_delete_same: "map_of (AList.delete k al) k = None"
  by (simp add: delete_conv')

lemma map_of_updateIndices:
  "map_of (updateIndices d al) k
     = map_option (\<lambda>i. if i > d then i - 1 else i) (map_of al k)"
  by (simp add: updateIndices_def map_of_map)

lemma find_key_none: "key \<notin> snd ` set xs \<Longrightarrow> find (\<lambda>keyObj. snd keyObj = key) xs = None"
  by (induction xs) auto

lemma find_key_some:
  "find (\<lambda>keyObj. snd keyObj = key) xs = Some x \<Longrightarrow> key \<in> snd ` set xs"
  by (induction xs) (auto split: if_splits)

lemma find_key_snoc:
  "key \<notin> snd ` set xs \<Longrightarrow> find (\<lambda>keyObj. snd keyObj = key) (xs @ [(n, key)]) = Some (n, key)"
  by (induction xs) auto

lemma filter_key_snoc:
  "key \<notin> snd ` set xs \<Longrightarrow> key \<notin> snd ` set (filter (\<lambda>x. fst x \<noteq> n) (xs @ [(n, key)]))"
  by auto

lemma createEntry_value: "entry_value (createEntry now created v opts c) = v"
  by (simp add: createEntry_def Let_def)

lemma isExpired_createEntry:
  assumes "opt_ttl (options c) = Some ttl" "0 < ttl" "0 \<le> now"
  shows "isExpired rd (createEntry now created v None c) = (now + ttl < rd)"
  using assms by (simp add: isExpired_def createEntry_def)

lemma isExpired_createEntry_same:
  assumes "opt_ttl (options c) = Some ttl" "0 < ttl"
  shows "\<not> isExpired now (createEntry now created v None c)"
  using assms by (simp add: isExpired_def createEntry_def)

text \<open>Neither method touches the options; \<open>set\<close> emits \<open>cacheSet\<close>.\<close>

lemma cache_set_fields:
  "options (cache_set now created k v opts c) = options c"
  "emitted (cache_set now created k v opts c) = emitted c @ [CacheSet k v]"
  by (cases "backend c";
      simp add: cache_set_def MapAdapter_set_def WeakMapAdapter_set_def SetAdapter_set_def
        ArrayAdapter_set_def ObjectAdapter_set_def Let_def)+

lemma expired_fields:
  "fst (expired k b c) = JUndefined"
  "options (snd (expired k b c)) = options c"
  "backend (snd (expired k b c)) = b"
  "emitted (snd (expired k b c)) = emitted c @ [CacheExpired k]"
  by (simp_all add: expired_def)

lemma MapAdapter_get_options: "options (snd (MapAdapter_get cache now k c)) = options c"
  by (simp add: MapAdapter_get_def expired_fields split: option.splits)

lemma WeakMapAdapter_get_options:
  "options (snd (WeakMapAdapter_get cache Keys n now k c)) = options c"
  by (simp add: WeakMapAdapter_get_def expired_fields split: option.splits)

lemma SetAdapter_get_options: "options (snd (SetAdapter_get cache Keys now k c)) = options c"
  by (simp add: SetAdapter_get_def expired_fields split: option.splits)

lemma ArrayAdapter_get_options:
  "options (snd (ArrayAdapter_get cache Keys now k c)) = options c"
  by (simp add: ArrayAdapter_get_def expired_fields split: option.splits)

lemma ObjectAdapter_get_options:
  "options (snd (ObjectAdapter_get cache now k c)) = options c"
  by (simp add: ObjectAdapter_get_def expired_fields split: option.splits)

lemma cache_get_options: "options (snd (cache_get now k c)) = options c"
  by (cases "backend c")
     (simp_all add: cache_get_def MapAdapter_get_options WeakMapAdapter_get_options
        SetAdapter_get_options ArrayAdapter_get_options ObjectAdapter_get_options)

text \<open>
  A read that leaves no record under the key behind returned \<open>undefined\<close>: the key was
  absent, or its record had expired and was evicted.
\<close>

lemma cache_get_no_record:
  assumes "\<not> holds_key k (snd (cache_get now k c))"
  shows "fst (cache_get now k c) = JUndefined"
proof (cases "backend c")
  case (MapAdapter cache)
  with assms show ?thesis
    by (auto simp: cache_get_def holds_key_def MapAdapter_get_def expired_fields
          split: option.splits if_splits)
next
  case (WeakMapAdapter cache Keys n)
  with assms show ?thesis
    by (auto simp: cache_get_def holds_key_def WeakMapAdapter_get_def expired_fields
          dest: find_key_some split: option.splits if_splits)
next
  case (SetAdapter cache Keys)
  with assms show ?thesis
    by (auto simp: cache_get_def holds_key_def SetAdapter_get_def expired_fields
          split: option.splits if_splits)
next
  case (ArrayAdapter cache Keys)
  with assms show ?thesis
    by (auto simp: cache_get_def holds_key_def ArrayAdapter_get_def expired_fields
          split: option.splits if_splits)
next
  case (ObjectAdapter cache)
  with assms show ?thesis
    by (auto simp: cache_get_def holds_key_def ObjectAdapter_get_def expired_fields
          split: option.splits if_splits)
qed

text \<open>
  A \<open>set\<close> on an adapter without a record under the key, followed by a \<open>get\<close>: a hit as
  long as the entry has not expired, and afterwards a miss that evicts the record and
  emits \<open>cacheExpired\<close>.
\<close>

lemma cache_set_get_hit:
  assumes n: "\<not> holds_key k c"
    and e: "\<not> isExpired rd (createEntry tw tc v None c)"
  shows "cache_get rd k (cache_set tw tc k v None c) = (v, cache_set tw tc k v None c)"
proof (cases "backend c")
  case (MapAdapter cache)
  with n e show ?thesis
    by (simp add: cache_get_def cache_set_def holds_key_def MapAdapter_get_def
          MapAdapter_set_def Let_def map_of_update_same createEntry_value)
next
  case (WeakMapAdapter cache Keys n)
  with n e show ?thesis
    by (simp add: cache_get_def cache_set_def holds_key_def WeakMapAdapter_get_def
          WeakMapAdapter_set_def Let_def map_of_update_same find_key_snoc createEntry_value)
next
  case (SetAdapter cache Keys)
  with n e show ?thesis
    by (simp add: cache_get_def cache_set_def holds_key_def SetAdapter_get_def
          SetAdapter_set_def Let_def map_of_update_same createEntry_value)
next
  case (ArrayAdapter cache Keys)
  with n e show ?thesis
    by (simp add: cache_get_def cache_set_def holds_key_def ArrayAdapter_get_def
          ArrayAdapter_set_def Let_def map_of_update_same array_read_def createEntry_value)
next
  case (ObjectAdapter cache)
  with n e show ?thesis
    by (simp add: cache_get_def cache_set_def holds_key_def ObjectAdapter_get_def
          ObjectAdapter_set_def Let_def map_of_update_same createEntry_value)
qed

lemma cache_set_get_expired:
  assumes n: "\<not> holds_key k c"
    and e: "isExpired rd (createEntry tw tc v None c)"
  shows "fst (cache_get rd k (cache_set tw tc k v None c)) = JUndefined
       \<and> emitted (snd (cache_get rd k (cache_set tw tc k v None c)))
           = emitted c @ [CacheSet k v, CacheExpired k]
       \<and> \<not> holds_key k (snd (cache_get rd k (cache_set tw tc k v None c)))"
proof (cases "backend c")
  case (MapAdapter cache)
  with n e show ?thesis
    by (simp add: cache_get_def cache_set_def holds_key_def MapAdapter_get_def
          MapAdapter_set_def Let_def map_of_update_same map_of_delete_same expired_def)
next
  case (WeakMapAdapter cache Keys n)
  with n e show ?thesis
    by (simp add: cache_get_def cache_set_def holds_key_def WeakMapAdapter_get_def
          WeakMapAdapter_set_def Let_def map_of_update_same find_key_snoc expired_def
          del: filter_append set_filter)
       (use filter_key_snoc in auto)
next
  case (SetAdapter cache Keys)
  with n e show ?thesis
    by (simp add: cache_get_def cache_set_def holds_key_def SetAdapter_get_def
          SetAdapter_set_def Let_def map_of_update_same map_of_delete_same expired_def)
next
  case (ArrayAdapter cache Keys)
  with n e show ?thesis
    by (simp add: cache_get_def cache_set_def holds_key_def ArrayAdapter_get_def
          ArrayAdapter_set_def Let_def map_of_update_same map_of_delete_same array_read_def
          expired_def map_of_updateIndices)
next
  case (ObjectAdapter cache)
  with n e show ?thesis
    by (simp add: cache_get_def cache_set_def holds_key_def ObjectAdapter_get_def
          ObjectAdapter_set_def Let_def map_of_update_same map_of_delete_same expired_def)
qed

text \<open>
  Claim C4 as stated fails on the code. First, \<open>get\<close> takes no producer: with a TTL of
  1000 ms, a \<open>get\<close> at time 2000 on a key stored at time 0 returns \<open>undefined\<close> and
  leaves no record, so nothing was produced or stored. Second, a cached value that is
  falsy is not a hit for \<open>revalidate\<close>: a producer that returns the number \<open>0\<close> is
  invoked at time 0 and again at time 10. Third, on the \<open>WeakMapAdapter\<close>, after
  \<open>set\<close> at times 0 and 600 the key has two key objects; the \<open>revalidate\<close> at 1100
  evicts the first and stores a fresh value, and the \<open>revalidate\<close> at 1700, within
  the TTL of that value, meets the second, evicts it and invokes the producer again.
\<close>

theorem revalidate_counterexample:
  "fst (cache_get 2000 ''k''
          (fst (snd (revalidate 0 0 0 ''k'' (counting_producer (JStr ''v''))
                       (MapAdapter_new \<lparr>opt_ttl = Some 1000, opt_revalidate = Some False\<rparr>,
                        0)))))
     = JUndefined
   \<and> \<not> holds_key ''k''
         (snd (cache_get 2000 ''k''
                 (fst (snd (revalidate 0 0 0 ''k'' (counting_producer (JStr ''v''))
                              (MapAdapter_new \<lparr>opt_ttl = Some 1000, opt_revalidate = Some False\<rparr>,
                               0))))))
   \<and> snd (snd (revalidate 10 10 10 ''k'' (counting_producer (JNum (Num 0)))
                 (fst (snd (revalidate 0 0 0 ''k'' (counting_producer (JNum (Num 0)))
                              (MapAdapter_new \<lparr>opt_ttl = Some 1000, opt_revalidate = Some False\<rparr>,
                               0))),
                  snd (snd (revalidate 0 0 0 ''k'' (counting_producer (JNum (Num 0)))
                              (MapAdapter_new \<lparr>opt_ttl = Some 1000, opt_revalidate = Some False\<rparr>,
                               0))))))
     = 2
   \<and> snd (snd (revalidate 1700 1700 1700 ''k'' (counting_producer (JStr ''c''))
                 (fst (snd (revalidate 1100 1100 1100 ''k'' (counting_producer (JStr ''c''))
                              (cache_set 600 600 ''k'' (JStr ''b'') None
                                 (cache_set 0 0 ''k'' (JStr ''a'') None
                                    (WeakMapAdapter_new
                                       \<lparr>opt_ttl = Some 1000, opt_revalidate = Some False\<rparr>)),
                               0))),
                  snd (snd (revalidate 1100 1100 1100 ''k'' (counting_producer (JStr ''c''))
                              (cache_set 600 600 ''k'' (JStr ''b'') None
                                 (cache_set 0 0 ''k'' (JStr ''a'') None
                                    (WeakMapAdapter_new
                                       \<lparr>opt_ttl = Some 1000, opt_revalidate = Some False\<rparr>)),
                               0))))))
     = 2"
  by (simp add: revalidate_def cache_get_def cache_set_def holds_key_def MapAdapter_get_def
        MapAdapter_set_def WeakMapAdapter_get_def WeakMapAdapter_set_def createEntry_def
        isExpired_def expired_def MapAdapter_new_def WeakMapAdapter_new_def
        CacheAdapter_new_def counting_producer_def Let_def)

text \<open>
  Claim C4, amended. Take any of the five cache adapters with a TTL \<open>ttl > 0\<close> and
  forced revalidation off, and a first \<open>revalidate\<close> whose read found no record under
  the key, or evicted the one it found, leaving none: it invokes its producer once and
  stores the value \<open>v\<close>, writing at time \<open>tw\<close>. Then a second \<open>revalidate\<close> that reads
  at a time \<open>rd \<le> tw + ttl\<close> returns \<open>v\<close>, if \<open>v\<close> is truthy, without invoking its
  producer and without changing the adapter. Once \<open>rd > tw + ttl\<close>, the next \<open>get\<close> on
  the key evicts the record, emits \<open>cacheExpired\<close> at that moment and returns
  \<open>undefined\<close> (a \<open>get\<close> has no producer), and the next \<open>revalidate\<close> emits
  \<open>cacheExpired\<close>, then invokes its producer exactly once, stores the fresh value
  (emitting \<open>cacheSet\<close>; a \<open>get\<close> right after it returns that value) and returns it.
\<close>

theorem revalidate_ttl:
  assumes ttl: "opt_ttl (options c) = Some ttl" "0 < ttl"
    and nf: "opt_revalidate (options c) \<noteq> Some True"
    and t0: "0 \<le> tw"
    and norec: "\<not> holds_key k (snd (cache_get tr k c))"
    and first: "revalidate tr tw tc k p (c, s) = (v, c', s')"
  shows "p s = (v, s')
       \<and> (truthy v \<and> rd \<le> tw + ttl \<longrightarrow> revalidate rd wr wc k q (c', s') = (v, c', s'))
       \<and> (tw + ttl < rd \<longrightarrow>
            fst (cache_get rd k c') = JUndefined
          \<and> emitted (snd (cache_get rd k c')) = emitted c' @ [CacheExpired k]
          \<and> \<not> holds_key k (snd (cache_get rd k c'))
          \<and> fst (revalidate rd wr wc k q (c', s')) = fst (q s')
          \<and> snd (snd (revalidate rd wr wc k q (c', s'))) = snd (q s')
          \<and> emitted (fst (snd (revalidate rd wr wc k q (c', s'))))
              = emitted c' @ [CacheExpired k, CacheSet k (fst (q s'))]
          \<and> fst (cache_get wr k (fst (snd (revalidate rd wr wc k q (c', s')))))
              = fst (q s'))"
proof -
  obtain x c0 where g: "cache_get tr k c = (x, c0)" by (cases "cache_get tr k c")
  from cache_get_no_record[OF norec] g have g0: "cache_get tr k c = (JUndefined, c0)" by simp
  from norec g have n0: "\<not> holds_key k c0" by simp
  have "revalidate tr tw tc k p (c, s)
          = (fst (p s), cache_set tw tc k (fst (p s)) None c0, snd (p s))"
    by (simp add: revalidate_def g0 split: prod.splits)
  with first have e: "(v, c', s') = (fst (p s), cache_set tw tc k (fst (p s)) None c0, snd (p s))"
    by (simp only:)
  then have v: "v = fst (p s)" and s1: "s' = snd (p s)" by simp_all
  from e v have c1: "c' = cache_set tw tc k v None c0" by simp
  have o0: "options c0 = options c" using cache_get_options[of tr k c] g by simp
  have o1: "options c' = options c" by (simp add: c1 cache_set_fields o0)
  have ttl0: "opt_ttl (options c0) = Some ttl" by (simp add: o0 ttl)
  have ex: "isExpired t (createEntry tw tc v None c0) = (tw + ttl < t)" for t
    by (rule isExpired_createEntry[OF ttl0 ttl(2) t0])
  have a: "p s = (v, s')" by (simp add: v s1)
  have b: "revalidate rd wr wc k q (c', s') = (v, c', s')" if h: "truthy v \<and> rd \<le> tw + ttl"
  proof -
    from h have "\<not> isExpired rd (createEntry tw tc v None c0)" by (simp add: ex)
    from cache_set_get_hit[OF n0 this] have "cache_get rd k c' = (v, c')"
      by (simp only: c1)
    with h nf o1 show ?thesis by (simp add: revalidate_def)
  qed
  obtain y c2 where g2: "cache_get rd k c' = (y, c2)" by (cases "cache_get rd k c'")
  let ?f = "fst (q s')"
  have x: "y = JUndefined \<and> emitted c2 = emitted c' @ [CacheExpired k] \<and> \<not> holds_key k c2"
    if h: "tw + ttl < rd"
  proof -
    from h have "isExpired rd (createEntry tw tc v None c0)" by (simp add: ex)
    from cache_set_get_expired[OF n0 this] g2 show ?thesis
      by (simp add: c1 cache_set_fields)
  qed
  have r: "revalidate rd wr wc k q (c', s') = (?f, cache_set wr wc k ?f None c2, snd (q s'))"
    if h: "tw + ttl < rd"
    using x[OF h] g2 by (simp add: revalidate_def split: prod.splits)
  have o2: "options c2 = options c" using cache_get_options[of rd k c'] g2 o1 by simp
  have z: "fst (cache_get wr k (cache_set wr wc k ?f None c2)) = ?f" if h: "tw + ttl < rd"
  proof -
    from x[OF h] have n2: "\<not> holds_key k c2" by simp
    have "opt_ttl (options c2) = Some ttl" by (simp add: o2 ttl)
    then have "\<not> isExpired wr (createEntry wr wc ?f None c2)"
      by (rule isExpired_createEntry_same) (rule ttl(2))
    from cache_set_get_hit[OF n2 this] show ?thesis by simp
  qed
  show ?thesis
  proof (intro conjI impI)
    show "p s = (v, s')" by (rule a)
  next
    assume "truthy v \<and> rd \<le> tw + ttl"
    then show "revalidate rd wr wc k q (c', s') = (v, c', s')" by (rule b)
  next
    assume h: "tw + ttl < rd"
    from x[OF h] g2 show "fst (cache_get rd k c') = JUndefined" by simp
    from x[OF h] g2 show "emitted (snd (cache_get rd k c')) = emitted c' @ [CacheExpired k]"
      by simp
    from x[OF h] g2 show "\<not> holds_key k (snd (cache_get rd k c'))" by simp
    from r[OF h] show "fst (revalidate rd wr wc k q (c', s')) = ?f" by simp
    from r[OF h] show "snd (snd (revalidate rd wr wc k q (c', s'))) = snd (q s')" by simp
    from r[OF h] x[OF h] show "emitted (fst (snd (revalidate rd wr wc k q (c', s'))))
              = emitted c' @ [CacheExpired k, CacheSet k ?f]"
      by (simp add: cache_set_fields)
    from r[OF h] z[OF h] show "fst (cache_get wr k (fst (snd (revalidate rd wr wc k q (c', s')))))
              = ?f" by simp
  qed
qed

theorem revalidate_ttl_witness:
  "opt_ttl (options (WeakMapAdapter_new \<lparr>opt_ttl = Some 1000, opt_revalidate = Some False\<rparr>))
     = Some 1000
   \<and> (0::int) < 1000
   \<and> opt_revalidate (options (WeakMapAdapter_new \<lparr>opt_ttl = Some 1000, opt_revalidate = Some False\<rparr>))
        \<noteq> Some True
   \<and> (0::int) \<le> 5
   \<and> \<not> holds_key ''k''
         (snd (cache_get 0 ''k''
                 (WeakMapAdapter_new \<lparr>opt_ttl = Some 1000, opt_revalidate = Some False\<rparr>)))
   \<and> revalidate 0 5 6 ''k'' (counting_producer (JStr ''v''))
        (WeakMapAdapter_new \<lparr>opt_ttl = Some 1000, opt_revalidate = Some False\<rparr>, 0)
       = (JStr ''v'',
          cache_set 5 6 ''k'' (JStr ''v'') None
            (WeakMapAdapter_new \<lparr>opt_ttl = Some 1000, opt_revalidate = Some False\<rparr>),
          Suc 0)
   \<and> truthy (JStr ''v'') \<and> (1005::int) \<le> 5 + 1000
   \<and> revalidate 1005 1006 1006 ''k'' (counting_producer (JStr ''w''))
        (cache_set 5 6 ''k'' (JStr ''v'') None
           (WeakMapAdapter_new \<lparr>opt_ttl = Some 1000, opt_revalidate = Some False\<rparr>), Suc 0)
       = (JStr ''v'',
          cache_set 5 6 ''k'' (JStr ''v'') None
           (WeakMapAdapter_new \<lparr>opt_ttl = Some 1000, opt_revalidate = Some False\<rparr>), Suc 0)
   \<and> (5::int) + 1000 < 1006
   \<and> fst (cache_get 1006 ''k''
        (cache_set 5 6 ''k'' (JStr ''v'') None
           (WeakMapAdapter_new \<lparr>opt_ttl = Some 1000, opt_revalidate = Some False\<rparr>)))
       = JUndefined
   \<and> fst (revalidate 1006 1007 1007 ''k'' (counting_producer (JStr ''w''))
        (cache_set 5 6 ''k'' (JStr ''v'') None
           (WeakMapAdapter_new \<lparr>opt_ttl = Some 1000, opt_revalidate = Some False\<rparr>), Suc 0))
       = JStr ''w''
   \<and> snd (snd (revalidate 1006 1007 1007 ''k'' (counting_producer (JStr ''w''))
        (cache_set 5 6 ''k'' (JStr ''v'') None
           (WeakMapAdapter_new \<lparr>opt_ttl = Some 1000, opt_revalidate = Some False\<rparr>), Suc 0)))
       = Suc (Suc 0)
   \<and> emitted (fst (snd (revalidate 1006 1007 1007 ''k'' (counting_producer (JStr ''w''))
        (cache_set 5 6 ''k'' (JStr ''v'') None
           (WeakMapAdapter_new \<lparr>opt_ttl = Some 1000, opt_revalidate = Some False\<rparr>), Suc 0))))
       = [CacheSet ''k'' (JStr ''v''), CacheExpired ''k'', CacheSet ''k'' (JStr ''w'')]"
proof -
  let ?c = "WeakMapAdapter_new \<lparr>opt_ttl = Some 1000, opt_revalidate = Some False\<rparr>"
  let ?c' = "cache_set 5 6 ''k'' (JStr ''v'') None ?c"
  have h1: "opt_ttl (options ?c) = Some 1000"
    by (simp add: WeakMapAdapter_new_def CacheAdapter_new_def)
  have h2: "(0::int) < 1000" by simp
  have h3: "opt_revalidate (options ?c) \<noteq> Some True"
    by (simp add: WeakMapAdapter_new_def CacheAdapter_new_def)
  have h4: "(0::int) \<le> 5" by simp
  have g: "cache_get 0 ''k'' ?c = (JUndefined, ?c)"
    by (simp add: cache_get_def WeakMapAdapter_get_def WeakMapAdapter_new_def
          CacheAdapter_new_def)
  have h5: "\<not> holds_key ''k'' (snd (cache_get 0 ''k'' ?c))"
    by (simp add: g) (simp add: holds_key_def WeakMapAdapter_new_def CacheAdapter_new_def)
  have h6: "revalidate 0 5 6 ''k'' (counting_producer (JStr ''v'')) (?c, 0)
              = (JStr ''v'', ?c', Suc 0)"
    by (simp add: revalidate_def g counting_producer_def)
  note T = revalidate_ttl[OF h1 h2 h3 h4 h5 h6]
  have a: "truthy (JStr ''v'') \<and> (1005::int) \<le> 5 + 1000" by simp
  have b: "(5::int) + 1000 < 1006" by simp
  have e0: "emitted ?c' = [CacheSet ''k'' (JStr ''v'')]"
    by (simp add: cache_set_fields) (simp add: WeakMapAdapter_new_def CacheAdapter_new_def)
  have p2: "counting_producer (JStr ''w'') (Suc 0) = (JStr ''w'', Suc (Suc 0))"
    by (simp add: counting_producer_def)
  note T1 = T[THEN conjunct2, THEN conjunct1, rule_format, OF a,
              of 1006 1006 "counting_producer (JStr ''w'')"]
  note T2 = T[THEN conjunct2, THEN conjunct2, rule_format, OF b,
              of 1007 1007 "counting_producer (JStr ''w'')"]
  from T2 have r0: "fst (cache_get 1006 ''k'' ?c') = JUndefined" by simp
  from T2 have r1: "fst (revalidate 1006 1007 1007 ''k'' (counting_producer (JStr ''w''))
       (?c', Suc 0)) = JStr ''w''" by (simp add: p2)
  from T2 have r2: "snd (snd (revalidate 1006 1007 1007 ''k'' (counting_producer (JStr ''w''))
       (?c', Suc 0))) = Suc (Suc 0)" by (simp add: p2)
  from T2 have r3: "emitted (fst (snd (revalidate 1006 1007 1007 ''k''
        (counting_producer (JStr ''w'')) (?c', Suc 0))))
       = [CacheSet ''k'' (JStr ''v''), CacheExpired ''k'', CacheSet ''k'' (JStr ''w'')]"
    by (simp add: p2 e0)
  from h1 h2 h3 h4 h5 h6 a T1 b r0 r1 r2 r3 show ?thesis
    by (intro conjI) (simp_all only: simp_thms)
qed


section \<open>Properties of the node connection\<close>

lemma listening_connect:
  "listening i (connect w) = (listening i w \<or> i = length (sockets w))"
  by (auto simp: listening_def connect_def nth_append)

lemma node_inv_initial: "node_inv (connect (node_world_new opts))"
  by (auto simp: node_inv_def listening_connect)
     (auto simp: listening_def connect_def node_world_new_def)

lemma nth_update_cases:
  "xs[i := x] ! j = (if i = j \<and> i < length xs then x else xs ! j)"
proof (cases "i < length xs")
  case True
  then show ?thesis by (simp add: nth_list_update)
next
  case False
  then have "xs[i := x] = xs" by (intro list_update_beyond) simp
  with False show ?thesis by simp
qed

lemma listening_cleanupSocket:
  "listening j (cleanupSocket w)
     = (listening j w \<and> socket (node w) \<noteq> Some j)"
  by (auto simp: listening_def cleanupSocket_def nth_update_cases split: option.splits)

lemma listening_node_update [simp]: "listening j (w\<lparr>node := n\<rparr>) = listening j w"
  by (simp add: listening_def)

lemma listening_emits_update [simp]: "listening j (w\<lparr>emits := e\<rparr>) = listening j w"
  by (simp add: listening_def)

lemma listening_reconnect [simp]: "listening j (reconnect w) = listening j w"
  by (simp add: listening_def reconnect_def)

lemma listening_clearTimeout [simp]: "listening j (clearTimeout h w) = listening j w"
  by (simp add: listening_def clearTimeout_def)

lemma listening_open [simp]: "listening j (open w) = listening j w"
  by (simp add: open_def Let_def listening_def clearTimeout_def split: option.splits)

lemma listening_error [simp]: "listening j (error_handler w) = listening j w"
  by (simp add: error_handler_def)

lemma listening_destroy [simp]: "listening j (destroy w) = listening j w"
  by (auto simp: destroy_def Let_def listening_def nth_update_cases split: option.splits)

lemma not_listening_close:
  assumes "node_inv w"
  shows "\<not> listening j (close code reason w)"
proof -
  have "\<not> listening j (cleanupSocket
           (if state (node w) = CONNECTED
            then w\<lparr>node := (node w)\<lparr>state := DISCONNECTED\<rparr>\<rparr> else w))"
    using assms by (auto simp: listening_cleanupSocket node_inv_def)
  then show ?thesis
    by (simp add: close_def Let_def)
qed

lemma timers_close:
  "timers (close code reason w)
     = (if retryAmount (node w) > reconnectAttempts (node w)
        then timers w @ [nextTimer w] else timers w)"
  by (simp add: close_def Let_def cleanupSocket_def reconnect_def split: option.splits)

lemma node_inv_deliver:
  assumes inv: "node_inv w"
  shows "node_inv (deliver x w)"
proof (cases x)
  case (SocketOpen i)
  show ?thesis
  proof (cases "listening i w")
    case True
    with inv have t: "timers w = []" and s: "\<forall>j. listening j w \<longrightarrow> socket (node w) = Some j"
      by (auto simp: node_inv_def)
    have o: "timers (open w) = []" "socket (node (open w)) = socket (node w)"
      using t by (simp_all add: open_def Let_def clearTimeout_def split: option.splits)
    have "\<forall>j. listening j (open w)
            \<longrightarrow> socket (node (open w)) = Some j \<and> timers (open w) = []"
      using s by (simp add: o)
    with o True SocketOpen show ?thesis by (simp add: node_inv_def)
  next
    case False
    with inv SocketOpen show ?thesis by simp
  qed
next
  case (SocketClose i code reason)
  show ?thesis
  proof (cases "listening i w")
    case True
    with inv have t: "timers w = []" by (auto simp: node_inv_def)
    have "length (timers (close code reason w)) \<le> 1" by (simp add: timers_close t)
    with not_listening_close[OF inv] True SocketClose show ?thesis
      by (simp add: node_inv_def)
  next
    case False
    with inv SocketClose show ?thesis by simp
  qed
next
  case (SocketError i)
  with inv show ?thesis by (simp add: node_inv_def error_handler_def)
next
  case (TimerFired h)
  show ?thesis
  proof (cases "h \<in> set (timers w)")
    case True
    with inv have t: "timers w = [h]" by (cases "timers w") (auto simp: node_inv_def)
    with inv have nl: "\<And>j. \<not> listening j w" by (auto simp: node_inv_def)
    have "node_inv (reconnect_callback (clearTimeout h w))"
      using nl t
      by (auto simp: node_inv_def reconnect_callback_def listening_connect)
         (auto simp: connect_def clearTimeout_def)
    with True TimerFired show ?thesis by simp
  next
    case False
    with inv TimerFired show ?thesis by simp
  qed
next
  case Destroy
  have "timers (destroy w) = timers w" "socket (node (destroy w)) = socket (node w)"
    by (simp_all add: destroy_def Let_def split: option.splits)
  with inv Destroy show ?thesis by (simp add: node_inv_def)
qed

lemma node_inv_run: "node_inv w \<Longrightarrow> node_inv (run xs w)"
  by (induction xs arbitrary: w) (simp_all add: node_inv_deliver)

lemma settled_deliver:
  assumes "settled w"
  shows "settled (deliver x w) \<and> emits (deliver x w) = emits w"
proof (cases x)
  case Destroy
  have "timers (destroy w) = timers w" "state (node (destroy w)) = DISCONNECTED"
       "emits (destroy w) = emits w"
    by (simp_all add: destroy_def Let_def split: option.splits)
  with assms Destroy show ?thesis by (simp add: settled_def)
qed (use assms in \<open>simp_all add: settled_def\<close>)

lemma settled_run:
  "settled w \<Longrightarrow> settled (run xs w) \<and> emits (run xs w) = emits w"
proof (induction xs arbitrary: w)
  case Nil
  then show ?case by simp
next
  case (Cons x xs)
  from settled_deliver[OF Cons.prems, of x]
  have s: "settled (deliver x w)" and e: "emits (deliver x w) = emits w" by simp_all
  from Cons.IH[OF s] e show ?case by simp
qed

lemma close_below_limit:
  assumes "reconnectAttempts (node w) < retryAmount (node w)"
  shows "timers (close code reason w) = timers w @ [nextTimer w]"
    and "reconnectTimeout (node (close code reason w)) = Some (nextTimer w)"
    and "emits (close code reason w)
           = emits w @ [NodeReconnect (identifier (node w)),
                        NodeDisconnect (identifier (node w)) code reason]"
    and "reconnectAttempts (node (close code reason w)) = reconnectAttempts (node w)"
    and "retryAmount (node (close code reason w)) = retryAmount (node w)"
  using assms
  by (simp_all add: close_def Let_def cleanupSocket_def reconnect_def split: option.splits)

lemma close_at_limit:
  assumes "retryAmount (node w) \<le> reconnectAttempts (node w)"
  shows "timers (close code reason w) = timers w"
    and "state (node (close code reason w)) = DISCONNECTED"
    and "socket (node (close code reason w)) = None"
    and "emits (close code reason w)
           = emits w @ [NodeDisconnect (identifier (node w)) code reason]"
  using assms
  by (simp_all add: close_def Let_def cleanupSocket_def split: option.splits)

lemma timer_fired:
  assumes "h \<in> set (timers w)"
  shows "reconnectAttempts (node (deliver (TimerFired h) w)) = reconnectAttempts (node w) + 1"
    and "listening (length (sockets w)) (deliver (TimerFired h) w)"
    and "socket (node (deliver (TimerFired h) w)) = Some (length (sockets w))"
  using assms
  by (simp_all add: reconnect_callback_def connect_def clearTimeout_def listening_def)

text \<open>
  Claim C2. A socket with the node's handlers bound closes, in any state the runtime
  can be in. If the attempt counter is below \<open>retryAmount\<close>, \<open>close\<close> schedules one
  reconnect timer, stores its handle and emits \<open>nodeReconnect\<close> (then \<open>nodeDisconnect\<close>);
  the counter is incremented by one when that timer fires, which also opens a new
  socket. If the counter has reached \<open>retryAmount\<close>, \<open>close\<close> emits only \<open>nodeDisconnect\<close>
  and drops the socket, and from then on, whatever socket events, timer firings and
  \<open>destroy()\<close> calls follow, the node stays \<open>DISCONNECTED\<close>, no timer is pending and
  nothing more is emitted: in particular no further \<open>nodeReconnect\<close>.
\<close>

theorem close_reconnect_policy:
  assumes inv: "node_inv w" and l: "listening i w"
  shows "(reconnectAttempts (node w) < retryAmount (node w) \<longrightarrow>
            timers (deliver (SocketClose i code reason) w) = [nextTimer w]
          \<and> reconnectTimeout (node (deliver (SocketClose i code reason) w)) = Some (nextTimer w)
          \<and> emits (deliver (SocketClose i code reason) w)
              = emits w @ [NodeReconnect (identifier (node w)),
                           NodeDisconnect (identifier (node w)) code reason]
          \<and> reconnectAttempts (node (deliver (SocketClose i code reason) w))
              = reconnectAttempts (node w)
          \<and> reconnectAttempts
               (node (deliver (TimerFired (nextTimer w)) (deliver (SocketClose i code reason) w)))
              = reconnectAttempts (node w) + 1
          \<and> listening (length (sockets w))
               (deliver (TimerFired (nextTimer w)) (deliver (SocketClose i code reason) w)))
       \<and> (retryAmount (node w) \<le> reconnectAttempts (node w) \<longrightarrow>
            emits (deliver (SocketClose i code reason) w)
              = emits w @ [NodeDisconnect (identifier (node w)) code reason]
          \<and> socket (node (deliver (SocketClose i code reason) w)) = None
          \<and> (\<forall>xs. state (node (run xs (deliver (SocketClose i code reason) w))) = DISCONNECTED
                  \<and> timers (run xs (deliver (SocketClose i code reason) w)) = []
                  \<and> emits (run xs (deliver (SocketClose i code reason) w))
                      = emits (deliver (SocketClose i code reason) w)
                  \<and> filter is_reconnect (emits (run xs (deliver (SocketClose i code reason) w)))
                      = filter is_reconnect (emits w)))"
proof (intro conjI impI)
  let ?w = "deliver (SocketClose i code reason) w"
  have d: "?w = close code reason w" using l by simp
  from inv l have t: "timers w = []" by (auto simp: node_inv_def)
  {
    assume b: "reconnectAttempts (node w) < retryAmount (node w)"
    show "timers ?w = [nextTimer w]" using close_below_limit(1)[OF b] t d by simp
    show "reconnectTimeout (node ?w) = Some (nextTimer w)"
      using close_below_limit(2)[OF b] d by simp
    show "emits ?w = emits w @ [NodeReconnect (identifier (node w)),
                                NodeDisconnect (identifier (node w)) code reason]"
      using close_below_limit(3)[OF b] d by simp
    show ra: "reconnectAttempts (node ?w) = reconnectAttempts (node w)"
      using close_below_limit(4)[OF b] d by simp
    have h: "nextTimer w \<in> set (timers ?w)"
      using close_below_limit(1)[OF b, of code reason] d by simp
    have s: "sockets ?w = (case socket (node w) of None \<Rightarrow> sockets w
               | Some j \<Rightarrow> (sockets w)[j := \<lparr>ws_listeners = False, ws_closeCalled = True\<rparr>])"
      using b d by (simp add: close_def Let_def cleanupSocket_def reconnect_def split: option.splits)
    then have ls: "length (sockets ?w) = length (sockets w)" by (simp split: option.splits)
    show "reconnectAttempts (node (deliver (TimerFired (nextTimer w)) ?w))
            = reconnectAttempts (node w) + 1"
      using timer_fired(1)[OF h] by (simp only: ra)
    show "listening (length (sockets w)) (deliver (TimerFired (nextTimer w)) ?w)"
      using timer_fired(2)[OF h] by (simp only: ls)
  }
  {
    assume a: "retryAmount (node w) \<le> reconnectAttempts (node w)"
    show e: "emits ?w = emits w @ [NodeDisconnect (identifier (node w)) code reason]"
      using close_at_limit(4)[OF a] d by simp
    show "socket (node ?w) = None" using close_at_limit(3)[OF a] d by simp
    have "settled ?w"
      using not_listening_close[OF inv] close_at_limit(1,2)[OF a] t d
      by (simp add: settled_def)
    then have r: "\<And>xs. settled (run xs ?w) \<and> emits (run xs ?w) = emits ?w"
      by (rule settled_run)
    show "\<forall>xs. state (node (run xs ?w)) = DISCONNECTED
                  \<and> timers (run xs ?w) = []
                  \<and> emits (run xs ?w) = emits ?w
                  \<and> filter is_reconnect (emits (run xs ?w)) = filter is_reconnect (emits w)"
      using r e by (simp add: settled_def)
  }
qed

theorem close_reconnect_policy_witness:
  "node_inv (connect (node_world_new (testBot_node\<lparr>o_retryAmount := Some 1\<rparr>)))
   \<and> listening 0 (connect (node_world_new (testBot_node\<lparr>o_retryAmount := Some 1\<rparr>)))
   \<and> reconnectAttempts (node (connect (node_world_new (testBot_node\<lparr>o_retryAmount := Some 1\<rparr>))))
       < retryAmount (node (connect (node_world_new (testBot_node\<lparr>o_retryAmount := Some 1\<rparr>))))
   \<and> timers (deliver (SocketClose 0 1006 ''lost'')
                (connect (node_world_new (testBot_node\<lparr>o_retryAmount := Some 1\<rparr>)))) = [0]
   \<and> reconnectAttempts (node (deliver (TimerFired 0) (deliver (SocketClose 0 1006 ''lost'')
                (connect (node_world_new (testBot_node\<lparr>o_retryAmount := Some 1\<rparr>)))))) = 1
   \<and> node_inv (run [SocketClose 0 1006 ''lost'', TimerFired 0]
                (connect (node_world_new (testBot_node\<lparr>o_retryAmount := Some 1\<rparr>))))
   \<and> listening 1 (run [SocketClose 0 1006 ''lost'', TimerFired 0]
                (connect (node_world_new (testBot_node\<lparr>o_retryAmount := Some 1\<rparr>))))
   \<and> retryAmount (node (run [SocketClose 0 1006 ''lost'', TimerFired 0]
                (connect (node_world_new (testBot_node\<lparr>o_retryAmount := Some 1\<rparr>)))))
       \<le> reconnectAttempts (node (run [SocketClose 0 1006 ''lost'', TimerFired 0]
                (connect (node_world_new (testBot_node\<lparr>o_retryAmount := Some 1\<rparr>)))))
   \<and> state (node (run [TimerFired 0, SocketOpen 1, SocketClose 1 1000 ''again'', Destroy]
                (deliver (SocketClose 1 1006 ''lost'')
                   (run [SocketClose 0 1006 ''lost'', TimerFired 0]
                      (connect (node_world_new (testBot_node\<lparr>o_retryAmount := Some 1\<rparr>)))))))
       = DISCONNECTED
   \<and> filter is_reconnect
         (emits (run [TimerFired 0, SocketOpen 1, SocketClose 1 1000 ''again'', Destroy]
                (deliver (SocketClose 1 1006 ''lost'')
                   (run [SocketClose 0 1006 ''lost'', TimerFired 0]
                      (connect (node_world_new (testBot_node\<lparr>o_retryAmount := Some 1\<rparr>)))))))
       = [NodeReconnect ''main'']"
proof -
  let ?w0 = "connect (node_world_new (testBot_node\<lparr>o_retryAmount := Some 1\<rparr>))"
  let ?w2 = "run [SocketClose 0 1006 ''lost'', TimerFired 0] ?w0"
  let ?xs = "[TimerFired 0, SocketOpen 1, SocketClose 1 1000 ''again'', Destroy]"
  have i0: "node_inv ?w0" by (rule node_inv_initial)
  have l0: "listening 0 ?w0"
    by (simp add: listening_def connect_def node_world_new_def)
  have b0: "reconnectAttempts (node ?w0) < retryAmount (node ?w0)"
    by (simp add: connect_def node_world_new_def LilyNode_new_def testBot_node_def)
  have n0: "nextTimer ?w0 = 0" by (simp add: connect_def node_world_new_def)
  have a0: "reconnectAttempts (node ?w0) = 0"
    by (simp add: connect_def node_world_new_def LilyNode_new_def)
  note A = close_reconnect_policy[OF i0 l0, of 1006 "''lost''", THEN conjunct1, rule_format, OF b0]
  have A1: "timers (deliver (SocketClose 0 1006 ''lost'') ?w0) = [0]"
    using A n0 by (simp only:)
  have A2: "reconnectAttempts (node (deliver (TimerFired 0) (deliver (SocketClose 0 1006 ''lost'') ?w0))) = 1"
    using A n0 a0 by (simp only: add_0)
  have i2: "node_inv ?w2" by (rule node_inv_run[OF i0])
  have w2: "?w2 = deliver (TimerFired 0) (deliver (SocketClose 0 1006 ''lost'') ?w0)"
    by (simp only: run.simps)
  have s0: "length (sockets ?w0) = 1" by (simp add: connect_def node_world_new_def)
  have l2: "listening 1 ?w2" using A n0 s0 by (simp only: w2)
  have r2: "retryAmount (node ?w2) = 1"
    by (simp add: connect_def node_world_new_def LilyNode_new_def testBot_node_def
          listening_def close_def cleanupSocket_def reconnect_def reconnect_callback_def
          clearTimeout_def Let_def)
  have b2: "retryAmount (node ?w2) \<le> reconnectAttempts (node ?w2)"
    using A2 r2 by (simp only: w2[symmetric])
  have e2: "filter is_reconnect (emits ?w2) = [NodeReconnect ''main'']"
    by (simp add: connect_def node_world_new_def LilyNode_new_def testBot_node_def
          listening_def close_def cleanupSocket_def reconnect_def reconnect_callback_def
          clearTimeout_def Let_def)
  note B = close_reconnect_policy[OF i2 l2, of 1006 "''lost''", THEN conjunct2, rule_format, OF b2,
             THEN conjunct2, THEN conjunct2, THEN spec, of ?xs]
  have B1: "state (node (run ?xs (deliver (SocketClose 1 1006 ''lost'') ?w2))) = DISCONNECTED"
    using B by (rule conjunct1)
  have B2: "filter is_reconnect (emits (run ?xs (deliver (SocketClose 1 1006 ''lost'') ?w2)))
              = [NodeReconnect ''main'']"
    by (rule trans[OF B[THEN conjunct2, THEN conjunct2, THEN conjunct2] e2])
  from i0 l0 b0 A1 A2 i2 l2 b2 B1 B2 show ?thesis by (intro conjI)
qed

text \<open>
  Claim C8 fails on the code. A node of the example bot loses its socket, so that a
  reconnect is scheduled, and is then destroyed: the timer is still pending after
  \<open>destroy()\<close>; when it fires, the attempt counter goes up and a new socket is opened, and
  when that socket opens the destroyed node is \<open>CONNECTED\<close> again.
\<close>

theorem destroy_keeps_reconnect_timer:
  "timers (deliver (SocketClose 0 1006 ''lost'') (connect (node_world_new testBot_node))) = [0]
   \<and> timers (run [SocketClose 0 1006 ''lost'', Destroy] (connect (node_world_new testBot_node)))
       = [0]
   \<and> state (node (run [SocketClose 0 1006 ''lost'', Destroy]
                      (connect (node_world_new testBot_node)))) = DISCONNECTED
   \<and> reconnectAttempts (node (run [SocketClose 0 1006 ''lost'', Destroy, TimerFired 0]
                      (connect (node_world_new testBot_node)))) = 1
   \<and> listening 1 (run [SocketClose 0 1006 ''lost'', Destroy, TimerFired 0]
                      (connect (node_world_new testBot_node)))
   \<and> state (node (run [SocketClose 0 1006 ''lost'', Destroy, TimerFired 0, SocketOpen 1]
                      (connect (node_world_new testBot_node)))) = CONNECTED"
  by (simp add: connect_def node_world_new_def LilyNode_new_def testBot_node_def
          listening_def close_def cleanupSocket_def reconnect_def reconnect_callback_def
          clearTimeout_def destroy_def open_def Let_def)


section \<open>Properties of the registries and the player\<close>

lemma example_manager_eval:
  "example_manager leave =
     \<lparr>previousInArray = False, queueStartIndex = None, has_cache = True,
      nodes = [(''main'', LilyNode_new (testBot_node\<lparr>o_retryDelay := Some 5000,
                 o_retryAmount := Some 3, o_regions := Some [], o_secure := Some False\<rparr>))],
      players = [(''guild'', 0)],
      playerObjs = [\<lparr>guildId = ''guild'', voiceChannel = Some ''voice'',
                     textChannel = Some ''text'', autoPlay = True, autoLeave = leave,
                     connected = False, playing = False, paused = False, volume = 100,
                     loop = OFF, current = None, previous = Single None, ping = 0,
                     queue = LilyQueue_new (Num 0), player_node = ''main''\<rparr>],
      trackObjs = [],
      effects = [Emit (NodeCreate ''main''), CacheSetCall ''player:guild:state'']\<rparr>"
  by (simp add: example_manager_def example_config_def players_create_def nodes_add_def
        LilyManager_new_def validateNode_def nodeOptionsSchema_def testBot_node_def
        maxCacheSize_def send_def LilyPlayer_new_def nodes_get_def cacheState_def
        create_volume_valid_def LilyNode_new_def Let_def)

text \<open>
  Claim C6. For every player, in both variants, \<open>setVolume(v)\<close> with \<open>v\<close> outside the
  variant's bound (\<open>[1, 100]\<close> in the first, \<open>[0, 100]\<close> in the second) throws
  "volume is invalid" and leaves the whole manager as it was: the player's volume is
  unchanged and nothing is sent out, neither \<open>playerChangedVolume\<close> nor a REST update
  (nor a cache write).
\<close>

theorem setVolume_rejects_out_of_bound:
  "(v < 1 \<or> 100 < v \<longrightarrow>
      setVolume v r m = (Inl (Error ''volume is invalid''), m)
    \<and> volume (playerObjs (snd (setVolume v r m)) ! r) = volume (playerObjs m ! r)
    \<and> effects (snd (setVolume v r m)) = effects m)
   \<and> (v < 0 \<or> 100 < v \<longrightarrow>
      setVolume_plain v r m = (Inl (Error ''volume is invalid''), m)
    \<and> volume (playerObjs (snd (setVolume_plain v r m)) ! r) = volume (playerObjs m ! r)
    \<and> effects (snd (setVolume_plain v r m)) = effects m)"
  by (auto simp: setVolume_def setVolume_plain_def)

theorem setVolume_rejects_out_of_bound_witness:
  "((150::real) < 1 \<or> (100::real) < 150)
   \<and> setVolume 150 0 (example_manager False)
       = (Inl (Error ''volume is invalid''), example_manager False)
   \<and> setVolume_plain 150 0 (example_manager False)
       = (Inl (Error ''volume is invalid''), example_manager False)
   \<and> ((0::real) < 1 \<or> (100::real) < 0)
   \<and> setVolume 0 0 (example_manager False)
       = (Inl (Error ''volume is invalid''), example_manager False)
   \<and> ((-1::real) < 0 \<or> (100::real) < -1)
   \<and> setVolume_plain (-1) 0 (example_manager False)
       = (Inl (Error ''volume is invalid''), example_manager False)
   \<and> effects (snd (setVolume 50 0 (example_manager False)))
       = effects (example_manager False)
         @ [RestUpdate ''main'' ''guild'' (UpdVolume 50),
            Emit (PlayerChangedVolume ''guild'' 100 50),
            CacheSetCall ''player:guild:state'']"
proof -
  have h1: "(150::real) < 1 \<or> (100::real) < 150" by simp
  have h2: "(0::real) < 1 \<or> (100::real) < 0" by simp
  have h3: "(-1::real) < 0 \<or> (100::real) < -1" by simp
  note a = setVolume_rejects_out_of_bound[of 150 0 "example_manager False", THEN conjunct1,
             rule_format, OF h1, THEN conjunct1]
  note b = setVolume_rejects_out_of_bound[of 150 0 "example_manager False", THEN conjunct2,
             rule_format, OF disjI2, THEN conjunct1]
  note c = setVolume_rejects_out_of_bound[of 0 0 "example_manager False", THEN conjunct1,
             rule_format, OF h2, THEN conjunct1]
  note d = setVolume_rejects_out_of_bound[of "-1" 0 "example_manager False", THEN conjunct2,
             rule_format, OF h3, THEN conjunct1]
  have b': "setVolume_plain 150 0 (example_manager False)
       = (Inl (Error ''volume is invalid''), example_manager False)"
    by (rule b) simp
  have e: "effects (snd (setVolume 50 0 (example_manager False)))
       = effects (example_manager False)
         @ [RestUpdate ''main'' ''guild'' (UpdVolume 50),
            Emit (PlayerChangedVolume ''guild'' 100 50),
            CacheSetCall ''player:guild:state'']"
    by (simp add: example_manager_eval setVolume_def upd_player_def send_def cacheState_def
          Let_def)
  from h1 a b' h2 c h3 d e show ?thesis by (intro conjI)
qed

text \<open>
  Claim C7. For all options that pass the schema, \<open>add\<close> of a node whose registry key
  (\<open>identifier ?? host\<close>) is already present throws and returns the manager unchanged:
  no node is inserted or replaced, the registry size is the same and no \<open>nodeCreate\<close> is
  emitted. Below the capacity of 100 nodes the error is "Node with identifier ... already
  exists"; at capacity it is the capacity error.
\<close>

theorem nodes_add_duplicate_identifier:
  assumes valid: "nodeOptionsSchema opts"
    and dup: "map_of (nodes m) (case o_identifier opts of Some i \<Rightarrow> i | None \<Rightarrow> o_host opts)
                \<noteq> None"
  shows "(\<exists>e. fst (nodes_add opts m) = Inl e)
       \<and> snd (nodes_add opts m) = m
       \<and> nodes (snd (nodes_add opts m)) = nodes m
       \<and> length (nodes (snd (nodes_add opts m))) = length (nodes m)
       \<and> effects (snd (nodes_add opts m)) = effects m
       \<and> (length (nodes m) < maxCacheSize \<longrightarrow>
            fst (nodes_add opts m)
              = Inl (Error (''Node with identifier '' @ [CHR 0x22]
                      @ (case o_identifier opts of Some i \<Rightarrow> i | None \<Rightarrow> o_host opts)
                      @ [CHR 0x22] @ '' already exists'')))"
  using assms
  by (cases "o_identifier opts") (auto simp: nodes_add_def validateNode_def Let_def)

theorem nodes_add_duplicate_identifier_witness:
  "nodeOptionsSchema testBot_node
   \<and> map_of (nodes (example_manager False))
        (case o_identifier testBot_node of Some i \<Rightarrow> i | None \<Rightarrow> o_host testBot_node) \<noteq> None
   \<and> length (nodes (example_manager False)) < maxCacheSize
   \<and> nodes_add testBot_node (example_manager False)
       = (Inl (Error (''Node with identifier '' @ [CHR 0x22] @ ''main'' @ [CHR 0x22]
                      @ '' already exists'')),
          example_manager False)
   \<and> fst (nodes_add (testBot_node\<lparr>o_identifier := Some ''second''\<rparr>) (example_manager False))
       = Inr ()
   \<and> map fst (nodes (snd (nodes_add (testBot_node\<lparr>o_identifier := Some ''second''\<rparr>)
                               (example_manager False))))
       = [''main'', ''second'']"
proof -
  have v: "nodeOptionsSchema testBot_node"
    by (simp add: nodeOptionsSchema_def testBot_node_def)
  have k: "(case o_identifier testBot_node of Some i \<Rightarrow> i | None \<Rightarrow> o_host testBot_node)
             = ''main''"
    by (simp add: testBot_node_def)
  have d: "map_of (nodes (example_manager False))
             (case o_identifier testBot_node of Some i \<Rightarrow> i | None \<Rightarrow> o_host testBot_node)
           \<noteq> None"
    by (simp add: k example_manager_eval)
  have l: "length (nodes (example_manager False)) < maxCacheSize"
    by (simp add: example_manager_eval maxCacheSize_def)
  note T = nodes_add_duplicate_identifier[OF v d]
  have f: "fst (nodes_add testBot_node (example_manager False))
       = Inl (Error (''Node with identifier '' @ [CHR 0x22] @ ''main'' @ [CHR 0x22]
                      @ '' already exists''))"
    using T[THEN conjunct2, THEN conjunct2, THEN conjunct2, THEN conjunct2, THEN conjunct2,
            rule_format, OF l]
    by (simp only: k)
  have s: "snd (nodes_add testBot_node (example_manager False)) = example_manager False"
    by (rule T[THEN conjunct2, THEN conjunct1])
  have r: "nodes_add testBot_node (example_manager False)
       = (Inl (Error (''Node with identifier '' @ [CHR 0x22] @ ''main'' @ [CHR 0x22]
                      @ '' already exists'')),
          example_manager False)"
    using f s by (simp only: prod_eq_iff fst_conv snd_conv simp_thms)
  have o: "fst (nodes_add (testBot_node\<lparr>o_identifier := Some ''second''\<rparr>) (example_manager False))
       = Inr ()"
    "map fst (nodes (snd (nodes_add (testBot_node\<lparr>o_identifier := Some ''second''\<rparr>)
                               (example_manager False))))
       = [''main'', ''second'']"
    by (simp_all add: example_manager_eval nodes_add_def validateNode_def nodeOptionsSchema_def
          testBot_node_def maxCacheSize_def send_def Let_def)
  from v d l r o show ?thesis by (intro conjI)
qed

lemma LilyPlayer_new_volume:
  assumes "LilyPlayer_new config m = (Inr r, m')"
  shows "r = length (playerObjs m) \<and> r < length (playerObjs m')
       \<and> volume (playerObjs m' ! r)
           = (case cfg_volume config of None \<Rightarrow> 100 | Some v \<Rightarrow> if v = 0 then 100 else v)"
  using assms
  by (auto simp: LilyPlayer_new_def Let_def cacheState_def send_def
           split: sum.splits prod.splits option.splits if_splits)

lemma players_create_new:
  assumes "players_create config m = (Inr r, m')"
    and "map_of (players m) (cfg_guildId config) = None"
  shows "\<exists>k m''. LilyPlayer_new (config\<lparr>cfg_node := Some k\<rparr>) m = (Inr r, m'')
               \<and> playerObjs m' = playerObjs m''
               \<and> create_volume_valid (cfg_volume config)"
  using assms
  by (auto simp: players_create_def split: sum.splits prod.splits option.splits if_splits)
     blast+

text \<open>
  Claim C10. The registry's check accepts a volume of 0, yet a player constructed from a
  configuration whose volume is 0 (or absent) has volume 100, whether it is built by the
  constructor directly or by \<open>create\<close> for a guild that has no player yet.
\<close>

theorem volume_zero_coalesced_to_100:
  "create_volume_valid (Some 0)
   \<and> (cfg_volume config = Some 0 \<or> cfg_volume config = None \<longrightarrow>
        (\<forall>r m'. LilyPlayer_new config m = (Inr r, m') \<longrightarrow> volume (playerObjs m' ! r) = 100)
      \<and> (\<forall>r m'. map_of (players m) (cfg_guildId config) = None
                \<longrightarrow> players_create config m = (Inr r, m')
                \<longrightarrow> volume (playerObjs m' ! r) = 100))"
proof (intro conjI impI allI)
  show "create_volume_valid (Some 0)" by (simp add: create_volume_valid_def)
next
  fix r m'
  assume v: "cfg_volume config = Some 0 \<or> cfg_volume config = None"
    and n: "LilyPlayer_new config m = (Inr r, m')"
  from LilyPlayer_new_volume[OF n] v show "volume (playerObjs m' ! r) = 100" by auto
next
  fix r m'
  assume v: "cfg_volume config = Some 0 \<or> cfg_volume config = None"
    and a: "map_of (players m) (cfg_guildId config) = None"
    and c: "players_create config m = (Inr r, m')"
  from players_create_new[OF c a] obtain k m''
    where n: "LilyPlayer_new (config\<lparr>cfg_node := Some k\<rparr>) m = (Inr r, m'')"
      and p: "playerObjs m' = playerObjs m''" by blast
  from LilyPlayer_new_volume[OF n] v p show "volume (playerObjs m' ! r) = 100" by auto
qed

theorem volume_zero_coalesced_to_100_witness:
  "(cfg_volume ((example_config False)\<lparr>cfg_guildId := ''other'', cfg_volume := Some 0\<rparr>) = Some 0
     \<or> cfg_volume ((example_config False)\<lparr>cfg_guildId := ''other'', cfg_volume := Some 0\<rparr>) = None)
   \<and> map_of (players (example_manager False))
        (cfg_guildId ((example_config False)\<lparr>cfg_guildId := ''other'', cfg_volume := Some 0\<rparr>))
       = None
   \<and> fst (players_create ((example_config False)\<lparr>cfg_guildId := ''other'', cfg_volume := Some 0\<rparr>)
             (example_manager False)) = Inr 1
   \<and> volume (playerObjs
               (snd (players_create
                       ((example_config False)\<lparr>cfg_guildId := ''other'', cfg_volume := Some 0\<rparr>)
                       (example_manager False))) ! 1) = 100
   \<and> fst (LilyPlayer_new ((example_config False)\<lparr>cfg_guildId := ''other'', cfg_volume := Some 0\<rparr>)
             (example_manager False)) = Inr 1
   \<and> volume (playerObjs
               (snd (LilyPlayer_new
                       ((example_config False)\<lparr>cfg_guildId := ''other'', cfg_volume := Some 0\<rparr>)
                       (example_manager False))) ! 1) = 100"
proof -
  let ?c = "(example_config False)\<lparr>cfg_guildId := ''other'', cfg_volume := Some 0\<rparr>"
  let ?m = "example_manager False"
  have v: "cfg_volume ?c = Some 0 \<or> cfg_volume ?c = None" by simp
  have a: "map_of (players ?m) (cfg_guildId ?c) = None"
    by (simp add: example_manager_eval)
  have f: "fst (players_create ?c ?m) = Inr 1"
    by (simp add: example_manager_eval example_config_def players_create_def
          create_volume_valid_def nodes_get_def LilyPlayer_new_def Let_def)
  have g: "fst (LilyPlayer_new ?c ?m) = Inr 1"
    by (simp add: example_manager_eval example_config_def nodes_get_def LilyPlayer_new_def
          Let_def)
  have f': "players_create ?c ?m = (Inr 1, snd (players_create ?c ?m))"
    using f by (simp only: prod_eq_iff fst_conv snd_conv simp_thms)
  have g': "LilyPlayer_new ?c ?m = (Inr 1, snd (LilyPlayer_new ?c ?m))"
    using g by (simp only: prod_eq_iff fst_conv snd_conv simp_thms)
  note T = volume_zero_coalesced_to_100[of ?c ?m, THEN conjunct2, rule_format, OF v]
  have r1: "volume (playerObjs (snd (players_create ?c ?m)) ! 1) = 100"
    by (rule T[THEN conjunct2, rule_format, OF a f'])
  have r2: "volume (playerObjs (snd (LilyPlayer_new ?c ?m)) ! 1) = 100"
    by (rule T[THEN conjunct1, rule_format, OF g'])
  from v a f r1 g r2 show ?thesis by (intro conjI)
qed


section \<open>Properties of track-end handling\<close>

lemma upd_player_nth:
  "r < length (playerObjs m) \<Longrightarrow> playerObjs (upd_player r f m) ! r = f (playerObjs m ! r)"
  by (simp add: upd_player_def)

lemma upd_player_fields [simp]:
  "effects (upd_player r f m) = effects m"
  "trackObjs (upd_player r f m) = trackObjs m"
  "players (upd_player r f m) = players m"
  "has_cache (upd_player r f m) = has_cache m"
  "previousInArray (upd_player r f m) = previousInArray m"
  "length (playerObjs (upd_player r f m)) = length (playerObjs m)"
  by (simp_all add: upd_player_def)

lemma send_fields [simp]:
  "effects (send e m) = effects m @ [e]"
  "trackObjs (send e m) = trackObjs m"
  "players (send e m) = players m"
  "has_cache (send e m) = has_cache m"
  "playerObjs (send e m) = playerObjs m"
  by (simp_all add: send_def)

lemma cacheState_fields [simp]:
  "trackObjs (cacheState r m) = trackObjs m"
  "players (cacheState r m) = players m"
  "playerObjs (cacheState r m) = playerObjs m"
  "effects (cacheState r m)
     = effects m @ (if has_cache m
                    then [CacheSetCall (''player:'' @ guildId (playerObjs m ! r) @ '':state'')]
                    else [])"
  by (simp_all add: cacheState_def)

lemma play_wf:
  assumes r: "r < length (playerObjs m)"
    and w: "wf_queue (queue (playerObjs m ! r)) (x # xs)"
  shows "fst (play r m) = Inr True"
    and "effects (snd (play r m))
          = effects m
            @ [RestUpdate (player_node (playerObjs m ! r)) (guildId (playerObjs m ! r))
                 (UpdTrackVolume
                    (encoded (trackObjs m ! node_value (store (queue (playerObjs m ! r)) ! x)))
                    (volume (playerObjs m ! r))),
               Emit (PlayerTriggeredPlay (guildId (playerObjs m ! r))
                       (node_value (store (queue (playerObjs m ! r)) ! x)))]
            @ (if has_cache m
               then [CacheSetCall (''player:'' @ guildId (playerObjs m ! r) @ '':state'')]
               else [])"
    and "playerObjs (snd (play r m)) ! r
          = (playerObjs m ! r)
              \<lparr>queue := snd (shift (queue (playerObjs m ! r))),
               current := Some (node_value (store (queue (playerObjs m ! r)) ! x)),
               playing := True\<rparr>"
    and "players (snd (play r m)) = players m"
proof -
  let ?p = "playerObjs m ! r"
  from w have n: "queue_size (queue ?p) \<noteq> 0" by (simp add: wf_queue_def queue_size_def)
  from wf_queue_shift[OF w]
  have s: "shift (queue ?p) = (Inr (node_value (store (queue ?p) ! x)), snd (shift (queue ?p)))"
    by (simp add: prod_eq_iff)
  have e: "play r m = (Inr True,
      cacheState r (send (Emit (PlayerTriggeredPlay (guildId ?p) (node_value (store (queue ?p) ! x))))
        (upd_player r (\<lambda>p. p\<lparr>playing := True\<rparr>)
          (send (RestUpdate (player_node ?p) (guildId ?p)
                   (UpdTrackVolume (encoded (trackObjs m ! node_value (store (queue ?p) ! x)))
                      (volume ?p)))
            (upd_player r (\<lambda>p. p\<lparr>queue := snd (shift (queue ?p)),
                                 current := Some (node_value (store (queue ?p) ! x))\<rparr>) m)))))"
    unfolding play_def Let_def using n by (subst s) simp
  show "fst (play r m) = Inr True" by (simp add: e)
  show "players (snd (play r m)) = players m" by (simp add: e)
  show "playerObjs (snd (play r m)) ! r
          = ?p\<lparr>queue := snd (shift (queue ?p)),
               current := Some (node_value (store (queue ?p) ! x)), playing := True\<rparr>"
    using r by (simp add: e upd_player_nth)
  have g: "guildId (playerObjs
             (upd_player r (\<lambda>p. p\<lparr>playing := True\<rparr>)
               (send (RestUpdate (player_node ?p) (guildId ?p)
                   (UpdTrackVolume (encoded (trackObjs m ! node_value (store (queue ?p) ! x)))
                      (volume ?p)))
                 (upd_player r (\<lambda>p. p\<lparr>queue := snd (shift (queue ?p)),
                                 current := Some (node_value (store (queue ?p) ! x))\<rparr>) m))) ! r)
           = guildId ?p"
    using r by (simp add: upd_player_nth)
  show "effects (snd (play r m))
          = effects m
            @ [RestUpdate (player_node ?p) (guildId ?p)
                 (UpdTrackVolume (encoded (trackObjs m ! node_value (store (queue ?p) ! x)))
                    (volume ?p)),
               Emit (PlayerTriggeredPlay (guildId ?p) (node_value (store (queue ?p) ! x)))]
            @ (if has_cache m
               then [CacheSetCall (''player:'' @ guildId ?p @ '':state'')] else [])"
    using r by (simp add: e upd_player_nth)
qed

lemma handleTrackEnd_failed:
  assumes r: "r < length (playerObjs m)"
    and pv: "previousInArray m \<longrightarrow> (\<exists>l. previous (playerObjs m ! r) = Many l)"
    and reason: "pl_reason payload \<in> set [''loadFailed'', ''cleanup'']"
  shows "\<exists>m4 t' pv'.
           handleTrackEnd self ap rq r payload m = handleFailedTrack r m4
         \<and> effects m4 = effects m
              @ [Emit (TrackEnd (guildId (playerObjs m ! r)) (current (playerObjs m ! r))
                         (pl_reason payload))]
         \<and> playerObjs m4 ! r
              = (playerObjs m ! r)\<lparr>playing := False, paused := False, previous := pv'\<rparr>
         \<and> length (playerObjs m4) = length (playerObjs m)
         \<and> has_cache m4 = has_cache m
         \<and> players m4 = players m
         \<and> trackObjs m4 = trackObjs m @ [t']"
proof -
  let ?p = "playerObjs m ! r"
  let ?m1 = "upd_player r (\<lambda>p. p\<lparr>playing := False, paused := False\<rparr>) m"
  let ?t = "LilyTrack_new ((pl_track payload)
                \<lparr>tr_encoded := (case current (playerObjs ?m1 ! r) of
                                  None \<Rightarrow> None
                                | Some c \<Rightarrow> encoded (trackObjs ?m1 ! c))\<rparr>)"
  let ?m2 = "?m1\<lparr>trackObjs := trackObjs ?m1 @ [?t]\<rparr>"
  let ?pv = "if previousInArray m
             then (case previous ?p of Many l \<Rightarrow> Many (l @ [length (trackObjs m)])
                                     | Single x \<Rightarrow> Single x)
             else Single (Some (length (trackObjs m)))"
  let ?m3 = "upd_player r (\<lambda>p. p\<lparr>previous := ?pv\<rparr>) ?m2"
  let ?m4 = "send (Emit (TrackEnd (guildId ?p) (current ?p) (pl_reason payload))) ?m3"
  have p1: "playerObjs ?m1 ! r = ?p\<lparr>playing := False, paused := False\<rparr>"
    using r by (simp add: upd_player_nth)
  have a: "(if previousInArray ?m2
               then (case previous (playerObjs ?m1 ! r) of
                       Many l \<Rightarrow> Inr (Many (l @ [length (trackObjs ?m1)]))
                     | Single x \<Rightarrow> Inl (TypeError ''player.previous.push is not a function''))
               else Inr (Single (Some (length (trackObjs ?m1))))) = Inr ?pv"
    using pv r by (auto simp: upd_player_def)
  have h: "handleTrackEnd self ap rq r payload m = handleFailedTrack r ?m4"
    unfolding handleTrackEnd_def Let_def
    apply (subst a)
    using reason by (simp add: p1)
  have m2p: "playerObjs ?m2 ! r = ?p\<lparr>playing := False, paused := False\<rparr>"
    using r by (simp add: upd_player_def)
  have m2l: "r < length (playerObjs ?m2)" using r by (simp add: upd_player_def)
  have p4: "playerObjs ?m4 ! r = ?p\<lparr>playing := False, paused := False, previous := ?pv\<rparr>"
    using r by (simp add: upd_player_def)
  have e4: "effects ?m4 = effects m
              @ [Emit (TrackEnd (guildId ?p) (current ?p) (pl_reason payload))]"
    by (simp add: upd_player_def)
  have o4: "length (playerObjs ?m4) = length (playerObjs m)" "has_cache ?m4 = has_cache m"
    "players ?m4 = players m" "trackObjs ?m4 = trackObjs m @ [?t]"
    by (simp_all add: upd_player_def)
  from h e4 p4 o4 show ?thesis by blast
qed

lemma play_trackObjs: "trackObjs (snd (play r m)) = trackObjs m"
  by (simp add: play_def Let_def split: prod.splits sum.splits)

lemma shift_node_value:
  "node_value (store (snd (shift q)) ! a) = node_value (store q ! a)"
  by (simp add: shift_def Let_def nth_update_cases split: option.splits)

lemma wf_queue_shift_values:
  assumes "wf_queue q (x # xs)"
  shows "values (snd (shift q)) = Some (map (\<lambda>a. node_value (store q ! a)) xs)"
proof -
  have "wf_queue (snd (shift q)) xs" by (rule conjunct2[OF wf_queue_shift[OF assms]])
  then have "values (snd (shift q))
               = Some (map (\<lambda>a. node_value (store (snd (shift q)) ! a)) xs)"
    by (rule wf_queue_values)
  then show ?thesis by (simp only: shift_node_value)
qed

text \<open>
  Claim C1, amended. A track ends with reason \<open>loadFailed\<close> for a player whose
  \<open>previous\<close> slot has the shape the manager's options prescribe. If the queue is
  non-empty (and well-formed), the handler returns after exactly one \<open>play()\<close>: what it
  sends out is \<open>trackEnd\<close>, then one REST update with the head track and the volume,
  then one \<open>playerTriggeredPlay\<close> for that track (then the cache write of \<open>play\<close>), and
  nothing else, so no \<open>queueEnd\<close>; the head track is the current one and the rest of
  the queue remains. If the queue is empty, the handler clears the queue and returns:
  what it sends out is \<open>trackEnd\<close> alone, so no \<open>queueEnd\<close> is emitted and the player
  is neither destroyed nor removed from the registry, whatever auto-leave says.
\<close>

theorem loadFailed_track_end_recovery:
  assumes r: "r < length (playerObjs m)"
    and pv: "previousInArray m \<longrightarrow> (\<exists>l. previous (playerObjs m ! r) = Many l)"
    and reason: "pl_reason payload = ''loadFailed''"
  shows "(queue_size (queue (playerObjs m ! r)) \<noteq> 0 \<and> queue_inv (queue (playerObjs m ! r)) \<longrightarrow>
          (\<exists>t vs m'.
              values (queue (playerObjs m ! r)) = Some (t # vs)
            \<and> handleTrackEnd self ap rq r payload m = (Inr (), m')
            \<and> effects m'
                = effects m
                  @ [Emit (TrackEnd (guildId (playerObjs m ! r)) (current (playerObjs m ! r))
                             ''loadFailed''),
                     RestUpdate (player_node (playerObjs m ! r)) (guildId (playerObjs m ! r))
                       (UpdTrackVolume (encoded (trackObjs m' ! t)) (volume (playerObjs m ! r))),
                     Emit (PlayerTriggeredPlay (guildId (playerObjs m ! r)) t)]
                  @ (if has_cache m
                     then [CacheSetCall (''player:'' @ guildId (playerObjs m ! r) @ '':state'')]
                     else [])
            \<and> current (playerObjs m' ! r) = Some t
            \<and> playing (playerObjs m' ! r)
            \<and> values (queue (playerObjs m' ! r)) = Some vs))
       \<and> (queue_size (queue (playerObjs m ! r)) = 0 \<longrightarrow>
          (\<exists>m'.
              handleTrackEnd self ap rq r payload m = (Inr (), m')
            \<and> effects m'
                = effects m
                  @ [Emit (TrackEnd (guildId (playerObjs m ! r)) (current (playerObjs m ! r))
                             ''loadFailed'')]
            \<and> queue (playerObjs m' ! r) = snd (clear (queue (playerObjs m ! r)))
            \<and> queue_size (queue (playerObjs m' ! r)) = 0
            \<and> players m' = players m))"
proof -
  let ?p = "playerObjs m ! r"
  from reason have rs: "pl_reason payload \<in> set [''loadFailed'', ''cleanup'']" by simp
  from handleTrackEnd_failed[OF r pv rs, of self ap rq] obtain m4 t' pv'
    where h: "handleTrackEnd self ap rq r payload m = handleFailedTrack r m4"
      and e4: "effects m4 = effects m
                 @ [Emit (TrackEnd (guildId ?p) (current ?p) (pl_reason payload))]"
      and p4: "playerObjs m4 ! r = ?p\<lparr>playing := False, paused := False, previous := pv'\<rparr>"
      and l4: "length (playerObjs m4) = length (playerObjs m)"
      and c4: "has_cache m4 = has_cache m"
      and pl4: "players m4 = players m"
    by blast
  have r4: "r < length (playerObjs m4)" using r l4 by simp
  have q4: "queue (playerObjs m4 ! r) = queue ?p" by (simp add: p4)
  show ?thesis
  proof (intro conjI impI)
    assume a: "queue_size (queue ?p) \<noteq> 0 \<and> queue_inv (queue ?p)"
    then obtain as where w: "wf_queue (queue ?p) as" by (auto simp: queue_inv_def)
    with a obtain x xs where as: "as = x # xs"
      by (cases as) (auto simp: wf_queue_def queue_size_def)
    let ?t = "node_value (store (queue ?p) ! x)"
    let ?vs = "map (\<lambda>a. node_value (store (queue ?p) ! a)) xs"
    let ?m' = "snd (play r m4)"
    from w as have w': "wf_queue (queue ?p) (x # xs)" by simp
    then have w4: "wf_queue (queue (playerObjs m4 ! r)) (x # xs)" by (simp only: q4)
    have v: "values (queue ?p) = Some (?t # ?vs)" using wf_queue_values[OF w'] by simp
    have pf: "fst (play r m4) = Inr True" by (rule play_wf(1)[OF r4 w4])
    then have pe: "play r m4 = (Inr True, ?m')"
      by (simp only: prod_eq_iff fst_conv snd_conv simp_thms)
    have hh: "handleTrackEnd self ap rq r payload m = (Inr (), ?m')"
      using a by (simp only: h handleFailedTrack_def q4 simp_thms if_True)
                 (subst pe, simp)
    have ee: "effects ?m'
                = effects m
                  @ [Emit (TrackEnd (guildId ?p) (current ?p) ''loadFailed''),
                     RestUpdate (player_node ?p) (guildId ?p)
                       (UpdTrackVolume (encoded (trackObjs ?m' ! ?t)) (volume ?p)),
                     Emit (PlayerTriggeredPlay (guildId ?p) ?t)]
                  @ (if has_cache m
                     then [CacheSetCall (''player:'' @ guildId ?p @ '':state'')] else [])"
      using play_wf(2)[OF r4 w4] by (simp add: p4 e4 c4 reason play_trackObjs)
    have pp: "playerObjs ?m' ! r
                = (playerObjs m4 ! r)\<lparr>queue := snd (shift (queue ?p)), current := Some ?t,
                                       playing := True\<rparr>"
      using play_wf(3)[OF r4 w4] by (simp add: q4)
    have cu: "current (playerObjs ?m' ! r) = Some ?t" "playing (playerObjs ?m' ! r)"
      by (simp_all add: pp)
    have vv: "values (queue (playerObjs ?m' ! r)) = Some ?vs"
      using wf_queue_shift_values[OF w'] by (simp add: pp)
    from v hh ee cu vv
    show "\<exists>t vs m'.
              values (queue ?p) = Some (t # vs)
            \<and> handleTrackEnd self ap rq r payload m = (Inr (), m')
            \<and> effects m'
                = effects m
                  @ [Emit (TrackEnd (guildId ?p) (current ?p) ''loadFailed''),
                     RestUpdate (player_node ?p) (guildId ?p)
                       (UpdTrackVolume (encoded (trackObjs m' ! t)) (volume ?p)),
                     Emit (PlayerTriggeredPlay (guildId ?p) t)]
                  @ (if has_cache m
                     then [CacheSetCall (''player:'' @ guildId ?p @ '':state'')] else [])
            \<and> current (playerObjs m' ! r) = Some t
            \<and> playing (playerObjs m' ! r)
            \<and> values (queue (playerObjs m' ! r)) = Some vs"
      by (intro exI[of _ ?t] exI[of _ ?vs] exI[of _ ?m'] conjI)
  next
    assume z: "queue_size (queue ?p) = 0"
    let ?m' = "upd_player r (\<lambda>p. p\<lparr>queue := snd (clear (queue p))\<rparr>) m4"
    have hh: "handleTrackEnd self ap rq r payload m = (Inr (), ?m')"
      using z by (simp add: h handleFailedTrack_def q4)
    have ee: "effects ?m' = effects m @ [Emit (TrackEnd (guildId ?p) (current ?p) ''loadFailed'')]"
      by (simp add: e4 reason)
    have qq: "queue (playerObjs ?m' ! r) = snd (clear (queue ?p))"
      using r4 by (simp add: upd_player_nth q4)
    have qs: "queue_size (queue (playerObjs ?m' ! r)) = 0"
      by (simp only: qq) (simp add: clear_def queue_size_def)
    have pl: "players ?m' = players m" by (simp add: pl4)
    from hh ee qq qs pl
    show "\<exists>m'.
              handleTrackEnd self ap rq r payload m = (Inr (), m')
            \<and> effects m'
                = effects m @ [Emit (TrackEnd (guildId ?p) (current ?p) ''loadFailed'')]
            \<and> queue (playerObjs m' ! r) = snd (clear (queue ?p))
            \<and> queue_size (queue (playerObjs m' ! r)) = 0
            \<and> players m' = players m"
      by (intro exI[of _ ?m'] conjI)
  qed
qed

lemma example_manager_queued_eval:
  "example_manager_queued leave =
     \<lparr>previousInArray = False, queueStartIndex = None, has_cache = True,
      nodes = [(''main'', LilyNode_new (testBot_node\<lparr>o_retryDelay := Some 5000,
                 o_retryAmount := Some 3, o_regions := Some [], o_secure := Some False\<rparr>))],
      players = [(''guild'', 0)],
      playerObjs = [\<lparr>guildId = ''guild'', voiceChannel = Some ''voice'',
                     textChannel = Some ''text'', autoPlay = True, autoLeave = leave,
                     connected = False, playing = False, paused = False, volume = 100,
                     loop = OFF, current = None, previous = Single None, ping = 0,
                     queue = snd (add 0 (LilyQueue_new (Num 0))), player_node = ''main''\<rparr>],
      trackObjs = [LilyTrack_new example_track],
      effects = [Emit (NodeCreate ''main''), CacheSetCall ''player:guild:state'']\<rparr>"
  by (simp add: example_manager_queued_def example_manager_eval upd_player_def)

lemma handleFailedTrack_trackObjs:
  "trackObjs (snd (handleFailedTrack r m)) = trackObjs m"
proof (cases "play r m")
  case (Pair a m')
  with play_trackObjs[of r m] have "trackObjs m' = trackObjs m" by simp
  with Pair show ?thesis
    by (cases a) (simp_all add: handleFailedTrack_def)
qed

text \<open>
  Claim C1 as stated fails for an empty queue. The player of the example manager has
  auto-leave set and an empty queue; after a \<open>TrackEndEvent\<close> with reason \<open>loadFailed\<close>
  the handler has sent out \<open>trackEnd\<close> and nothing else: no \<open>queueEnd\<close>, and no
  \<open>playerDestroyed\<close>.
\<close>

theorem loadFailed_empty_queue_counterexample:
  "autoLeave (playerObjs (example_manager True) ! 0)
   \<and> queue_size (queue (playerObjs (example_manager True) ! 0)) = 0
   \<and> fst (handleTrackEnd ''main'' no_autoplay None 0 (example_payload ''loadFailed'')
            (example_manager True)) = Inr ()
   \<and> effects (snd (handleTrackEnd ''main'' no_autoplay None 0 (example_payload ''loadFailed'')
                     (example_manager True)))
       = effects (example_manager True) @ [Emit (TrackEnd ''guild'' None ''loadFailed'')]
   \<and> Emit (QueueEnd ''guild'')
       \<notin> set (effects (snd (handleTrackEnd ''main'' no_autoplay None 0 (example_payload ''loadFailed'')
                               (example_manager True))))
   \<and> Emit (PlayerDestroyed ''guild'')
       \<notin> set (effects (snd (handleTrackEnd ''main'' no_autoplay None 0 (example_payload ''loadFailed'')
                               (example_manager True))))"
  by (simp add: example_manager_eval handleTrackEnd_def handleFailedTrack_def upd_player_def
        send_def example_payload_def LilyQueue_new_def queue_size_def clear_def Let_def)

theorem loadFailed_track_end_recovery_witness:
  "0 < length (playerObjs (example_manager_queued True))
   \<and> \<not> previousInArray (example_manager_queued True)
   \<and> pl_reason (example_payload ''loadFailed'') = ''loadFailed''
   \<and> queue_size (queue (playerObjs (example_manager_queued True) ! 0)) \<noteq> 0
   \<and> queue_inv (queue (playerObjs (example_manager_queued True) ! 0))
   \<and> fst (handleTrackEnd ''main'' no_autoplay None 0 (example_payload ''loadFailed'')
            (example_manager_queued True)) = Inr ()
   \<and> effects (snd (handleTrackEnd ''main'' no_autoplay None 0 (example_payload ''loadFailed'')
                     (example_manager_queued True)))
       = effects (example_manager_queued True)
         @ [Emit (TrackEnd ''guild'' None ''loadFailed''),
            RestUpdate ''main'' ''guild'' (UpdTrackVolume (Some ''QAAA'') 100),
            Emit (PlayerTriggeredPlay ''guild'' 0),
            CacheSetCall ''player:guild:state'']
   \<and> 0 < length (playerObjs (example_manager True))
   \<and> \<not> previousInArray (example_manager True)
   \<and> queue_size (queue (playerObjs (example_manager True) ! 0)) = 0
   \<and> effects (snd (handleTrackEnd ''main'' no_autoplay None 0 (example_payload ''loadFailed'')
                     (example_manager True)))
       = effects (example_manager True) @ [Emit (TrackEnd ''guild'' None ''loadFailed'')]"
proof -
  let ?mq = "example_manager_queued True"
  let ?me = "example_manager True"
  let ?pl = "example_payload ''loadFailed''"
  have r1: "0 < length (playerObjs ?mq)" by (simp add: example_manager_queued_eval)
  have n1: "\<not> previousInArray ?mq" by (simp add: example_manager_queued_eval)
  have pv1: "previousInArray ?mq \<longrightarrow> (\<exists>l. previous (playerObjs ?mq ! 0) = Many l)"
    using n1 by simp
  have re: "pl_reason ?pl = ''loadFailed''" by (simp add: example_payload_def)
  have q1: "queue (playerObjs ?mq ! 0) = snd (add 0 (LilyQueue_new (Num 0)))"
    by (simp add: example_manager_queued_eval)
  have s1: "queue_size (queue (playerObjs ?mq ! 0)) \<noteq> 0"
    by (simp add: q1 add_def LilyQueue_new_def queue_size_def Let_def)
  have i1: "queue_inv (queue (playerObjs ?mq ! 0))"
    unfolding q1 by (intro queue_inv_add queue_inv_new)
  have v1: "values (queue (playerObjs ?mq ! 0)) = Some [0]"
    by (simp add: q1 values_def add_def LilyQueue_new_def Let_def)
  have f1: "guildId (playerObjs ?mq ! 0) = ''guild''" "current (playerObjs ?mq ! 0) = None"
    "player_node (playerObjs ?mq ! 0) = ''main''" "volume (playerObjs ?mq ! 0) = 100"
    "has_cache ?mq"
    by (simp_all add: example_manager_queued_eval)
  from loadFailed_track_end_recovery[OF r1 pv1 re, of "''main''" no_autoplay,
         THEN conjunct1, rule_format, OF conjI[OF s1 i1]]
  obtain t vs m' where
      vt: "values (queue (playerObjs ?mq ! 0)) = Some (t # vs)"
    and h: "handleTrackEnd ''main'' no_autoplay None 0 ?pl ?mq = (Inr (), m')"
    and e: "effects m'
              = effects ?mq
                @ [Emit (TrackEnd (guildId (playerObjs ?mq ! 0)) (current (playerObjs ?mq ! 0))
                           ''loadFailed''),
                   RestUpdate (player_node (playerObjs ?mq ! 0)) (guildId (playerObjs ?mq ! 0))
                     (UpdTrackVolume (encoded (trackObjs m' ! t)) (volume (playerObjs ?mq ! 0))),
                   Emit (PlayerTriggeredPlay (guildId (playerObjs ?mq ! 0)) t)]
                @ (if has_cache ?mq
                   then [CacheSetCall (''player:'' @ guildId (playerObjs ?mq ! 0) @ '':state'')]
                   else [])"
    by blast
  from vt v1 have t0: "t = 0" by simp
  have m': "m' = snd (handleTrackEnd ''main'' no_autoplay None 0 ?pl ?mq)" by (simp add: h)
  have rs: "pl_reason ?pl \<in> set [''loadFailed'', ''cleanup'']" by (simp add: re)
  from handleTrackEnd_failed[OF r1 pv1 rs, of "''main''" no_autoplay None] obtain m4 t'
    where h4: "handleTrackEnd ''main'' no_autoplay None 0 ?pl ?mq = handleFailedTrack 0 m4"
      and t4: "trackObjs m4 = trackObjs ?mq @ [t']" by blast
  have "trackObjs (snd (handleTrackEnd ''main'' no_autoplay None 0 ?pl ?mq)) = trackObjs ?mq @ [t']"
    by (simp only: h4 handleFailedTrack_trackObjs t4)
  then have tr: "trackObjs (snd (handleTrackEnd ''main'' no_autoplay None 0 ?pl ?mq)) ! 0
              = LilyTrack_new example_track"
    by (simp add: example_manager_queued_eval)
  have en: "encoded (trackObjs m' ! t) = Some ''QAAA''"
    by (simp add: m' t0 tr LilyTrack_new_def example_track_def)
  have en0: "encoded (trackObjs m' ! 0) = Some ''QAAA''" using en by (simp only: t0)
  have a1: "fst (handleTrackEnd ''main'' no_autoplay None 0 ?pl ?mq) = Inr ()" by (simp add: h)
  have a2: "effects (snd (handleTrackEnd ''main'' no_autoplay None 0 ?pl ?mq))
       = effects ?mq
         @ [Emit (TrackEnd ''guild'' None ''loadFailed''),
            RestUpdate ''main'' ''guild'' (UpdTrackVolume (Some ''QAAA'') 100),
            Emit (PlayerTriggeredPlay ''guild'' 0),
            CacheSetCall ''player:guild:state'']"
    using e by (simp add: h en0 f1 t0)
  have r2: "0 < length (playerObjs ?me)" by (simp add: example_manager_eval)
  have n2: "\<not> previousInArray ?me" by (simp add: example_manager_eval)
  have pv2: "previousInArray ?me \<longrightarrow> (\<exists>l. previous (playerObjs ?me ! 0) = Many l)"
    using n2 by simp
  have s2: "queue_size (queue (playerObjs ?me ! 0)) = 0"
    by (simp add: example_manager_eval LilyQueue_new_def queue_size_def)
  have f2: "guildId (playerObjs ?me ! 0) = ''guild''" "current (playerObjs ?me ! 0) = None"
    by (simp_all add: example_manager_eval)
  from loadFailed_track_end_recovery[OF r2 pv2 re, of "''main''" no_autoplay,
         THEN conjunct2, rule_format, OF s2]
  obtain m2 where
      h2: "handleTrackEnd ''main'' no_autoplay None 0 ?pl ?me = (Inr (), m2)"
    and e2: "effects m2
              = effects ?me
                @ [Emit (TrackEnd (guildId (playerObjs ?me ! 0)) (current (playerObjs ?me ! 0))
                           ''loadFailed'')]"
    by blast
  have b2: "effects (snd (handleTrackEnd ''main'' no_autoplay None 0 ?pl ?me))
       = effects ?me @ [Emit (TrackEnd ''guild'' None ''loadFailed'')]"
    using e2 by (simp add: h2 f2)
  from r1 n1 re s1 i1 a1 a2 r2 n2 s2 b2 show ?thesis by (intro conjI)
qed


end
